(* ===== verification/CPrelude.thy ===== *)
theory CPrelude
  imports Main "HOL-Library.Word"
begin

section \<open>C strings, integers and tables\<close>

text \<open>
  What the components share.  A byte is an Isabelle \<open>char\<close> (256 values, \<open>of_char\<close> reads it
  as an unsigned number).  A C string is the list of the bytes before its terminating NUL, so
  it holds no NUL itself; a byte buffer may hold NULs, and \<open>cstr\<close> is what a C string function
  sees of it.  A C \<open>int\<close> is an \<open>int\<close> in the range of 32 signed bits where the code cannot
  leave that range, and a \<open>32 word\<close> where wrap-around matters.

  The functions of the C library the sources use are defined here once: \<open>strncmp\<close>,
  \<open>snprintf\<close> into a bounded buffer, \<open>strchr\<close>, \<open>strrchr\<close>, \<open>strstr\<close>, \<open>strtok_r\<close>, the
  character classes of the C locale, \<open>strtol\<close> and \<open>atoi\<close>, and the \<open>%d\<close> conversion.
  The collections \<open>cstring\<close> and \<open>table\<close> hold the facts on strings and on slot tables that
  the component proofs pass to the simplifier.
\<close>

named_theorems cstring "facts on the C string functions"
named_theorems table "facts on first-match searches in tables"

type_synonym byte = char

abbreviation NUL :: char where
  "NUL \<equiv> CHR 0x00"

abbreviation NL :: char where
  "NL \<equiv> CHR 0x0A"

abbreviation DQ :: char where
  "DQ \<equiv> CHR 0x22"

abbreviation BSL :: char where
  "BSL \<equiv> CHR 0x5C"

abbreviation SQ :: char where
  "SQ \<equiv> CHR 0x27"

subsection \<open>Strings\<close>

definition cstr :: "byte list \<Rightarrow> string" where
  "cstr buf = takeWhile (\<lambda>c. c \<noteq> NUL) buf"

definition is_cstr :: "string \<Rightarrow> bool" where
  "is_cstr s \<longleftrightarrow> NUL \<notin> set s"

text \<open>Text that stands in a JSON string as it is.\<close>

definition plain :: "string \<Rightarrow> bool" where
  "plain s \<longleftrightarrow> DQ \<notin> set s \<and> BSL \<notin> set s"

lemma plain_simps [simp]:
  "plain []" "plain (c # s) \<longleftrightarrow> c \<noteq> DQ \<and> c \<noteq> BSL \<and> plain s" "plain (s @ t) \<longleftrightarrow> plain s \<and> plain t"
  by (auto simp: plain_def)

text \<open>\<open>strncmp(a, b, n) == 0\<close> on C strings.\<close>

definition strncmp_eq :: "string \<Rightarrow> string \<Rightarrow> nat \<Rightarrow> bool" where
  "strncmp_eq a b n \<longleftrightarrow> take n a = take n b"

text \<open>
  \<open>snprintf(buf, n, "%s", s)\<close> leaves the first \<open>n - 1\<close> bytes of \<open>s\<close> in a buffer of
  \<open>n > 0\<close> bytes; \<open>strncpy(buf, s, n - 1)\<close> into a zeroed buffer leaves the same string.
\<close>

definition snprintf_s :: "nat \<Rightarrow> string \<Rightarrow> string" where
  "snprintf_s n s = take (n - 1) s"

text \<open>\<open>strchr\<close>, \<open>strrchr\<close> and \<open>strstr\<close> return the suffix that starts at the match.\<close>

fun strchr :: "string \<Rightarrow> char \<Rightarrow> string option" where
  "strchr [] c = None"
| "strchr (x # xs) c = (if x = c then Some (x # xs) else strchr xs c)"

fun strrchr :: "string \<Rightarrow> char \<Rightarrow> string option" where
  "strrchr [] c = None"
| "strrchr (x # xs) c =
     (case strrchr xs c of
        Some r \<Rightarrow> Some r
      | None \<Rightarrow> if x = c then Some (x # xs) else None)"

fun is_prefix :: "string \<Rightarrow> string \<Rightarrow> bool" where
  "is_prefix [] s = True"
| "is_prefix (p # ps) [] = False"
| "is_prefix (p # ps) (x # xs) = (p = x \<and> is_prefix ps xs)"

fun strstr :: "string \<Rightarrow> string \<Rightarrow> string option" where
  "strstr [] pat = (if pat = [] then Some [] else None)"
| "strstr (x # xs) pat = (if is_prefix pat (x # xs) then Some (x # xs) else strstr xs pat)"

text \<open>
  The tokens \<open>strtok_r\<close> hands out one after the other: the maximal runs of bytes that are
  not delimiters.  \<open>tok_go\<close> carries the token being read, reversed.
\<close>

fun tok_go :: "string \<Rightarrow> string \<Rightarrow> string \<Rightarrow> string list" where
  "tok_go delim acc [] = (if acc = [] then [] else [rev acc])"
| "tok_go delim acc (x # xs) =
     (if x \<in> set delim
      then (if acc = [] then tok_go delim [] xs else rev acc # tok_go delim [] xs)
      else tok_go delim (x # acc) xs)"

definition strtok_all :: "string \<Rightarrow> string \<Rightarrow> string list" where
  "strtok_all s delim = tok_go delim [] s"

lemma cstr_is_cstr [simp]: "is_cstr (cstr b)"
  by (auto simp: is_cstr_def cstr_def dest: set_takeWhileD)

lemma cstr_id [simp]: "is_cstr s \<Longrightarrow> cstr s = s"
  by (simp add: is_cstr_def cstr_def) (metis takeWhile_eq_all_conv)

lemma cstr_NUL [simp]: "is_cstr s \<Longrightarrow> cstr (s @ NUL # r) = s"
  by (simp add: is_cstr_def cstr_def takeWhile_tail)
     (metis (full_types) append_Nil2 takeWhile_append2 takeWhile_eq_all_conv)

lemma length_cstr_le [simp]: "length (cstr b) \<le> length b"
  by (simp add: cstr_def length_takeWhile_le)

lemma length_snprintf_s [simp]: "length (snprintf_s n s) = min (length s) (n - 1)"
  by (simp add: snprintf_s_def)

lemma snprintf_s_id [simp]: "length s < n \<Longrightarrow> snprintf_s n s = s"
  by (simp add: snprintf_s_def)

lemma is_cstr_simps [simp]:
  "is_cstr []"
  "is_cstr (c # s) \<longleftrightarrow> c \<noteq> NUL \<and> is_cstr s"
  "is_cstr (s @ t) \<longleftrightarrow> is_cstr s \<and> is_cstr t"
  by (auto simp: is_cstr_def)

lemma is_cstr_take [simp]: "is_cstr s \<Longrightarrow> is_cstr (take n s)"
  by (auto simp: is_cstr_def dest: in_set_takeD)

lemma is_cstr_snprintf_s [simp]: "is_cstr s \<Longrightarrow> is_cstr (snprintf_s n s)"
  by (simp add: snprintf_s_def)

lemma is_prefix_iff [cstring]: "is_prefix p s \<longleftrightarrow> take (length p) s = p"
  by (induction p s rule: is_prefix.induct) auto

lemma is_prefix_append [simp]: "is_prefix p (p @ s)"
  by (simp add: is_prefix_iff)

lemma strchr_None [cstring]: "strchr s c = None \<longleftrightarrow> c \<notin> set s"
  by (induction s) auto

lemma strchr_Some [cstring]:
  "strchr s c = Some r \<Longrightarrow> \<exists>p. s = p @ r \<and> c \<notin> set p \<and> (\<exists>r'. r = c # r')"
proof (induction s)
  case (Cons x xs)
  show ?case
  proof (cases "x = c")
    case True
    with Cons.prems have "x # xs = [] @ r" and "r = c # xs" by auto
    then show ?thesis by force
  next
    case False
    with Cons obtain p r' where "xs = p @ r" "c \<notin> set p" "r = c # r'" by auto
    with False have "x # xs = (x # p) @ r \<and> c \<notin> set (x # p) \<and> (\<exists>r'. r = c # r')" by simp
    then show ?thesis by blast
  qed
qed simp

lemma strchr_skip [cstring]: "c \<notin> set p \<Longrightarrow> strchr (p @ s) c = strchr s c"
  by (induction p) auto

lemma strchr_here [cstring]: "c \<notin> set p \<Longrightarrow> strchr (p @ c # s) c = Some (c # s)"
  by (simp add: strchr_skip)

lemma strrchr_None [cstring]: "strrchr s c = None \<longleftrightarrow> c \<notin> set s"
  by (induction s) (auto split: option.splits)

lemma strrchr_last [cstring]: "c \<notin> set q \<Longrightarrow> strrchr (p @ c # q) c = Some (c # q)"
proof (induction p)
  case Nil
  then have "strrchr q c = None" by (simp add: strrchr_None)
  then show ?case by simp
qed simp

lemma strstr_Some [cstring]: "strstr s pat = Some r \<Longrightarrow> \<exists>p. s = p @ r \<and> is_prefix pat r"
proof (induction s)
  case Nil
  then show ?case by (auto split: if_splits)
next
  case (Cons x xs)
  show ?case
  proof (cases "is_prefix pat (x # xs)")
    case True
    with Cons.prems have "x # xs = [] @ r \<and> is_prefix pat r" by auto
    then show ?thesis by blast
  next
    case False
    with Cons obtain p where "xs = p @ r" "is_prefix pat r" by auto
    then have "x # xs = (x # p) @ r \<and> is_prefix pat r" by simp
    then show ?thesis by blast
  qed
qed

lemma strstr_first_char [cstring]:
  "c \<notin> set p \<Longrightarrow> strstr (p @ s) (c # pat) = strstr s (c # pat)"
  by (induction p) auto

lemma strstr_here [cstring]: "c \<notin> set p \<Longrightarrow> strstr (p @ (c # pat) @ s) (c # pat) = Some ((c # pat) @ s)"
  by (simp add: strstr_first_char)

lemma tok_go_tokens:
  assumes "set acc \<inter> set delim = {}"
  shows "t \<in> set (tok_go delim acc s) \<Longrightarrow> t \<noteq> [] \<and> set t \<inter> set delim = {}"
  using assms by (induction delim acc s rule: tok_go.induct) (auto split: if_splits)

lemma strtok_all_token [cstring]:
  "t \<in> set (strtok_all s delim) \<Longrightarrow> t \<noteq> [] \<and> set t \<inter> set delim = {}"
  unfolding strtok_all_def by (rule tok_go_tokens) auto

lemma tok_go_run: "set p \<inter> set delim = {} \<Longrightarrow> tok_go delim acc (p @ s) = tok_go delim (rev p @ acc) s"
  by (induction p arbitrary: acc) auto

lemma strtok_all_single [cstring]:
  "s \<noteq> [] \<Longrightarrow> set s \<inter> set delim = {} \<Longrightarrow> strtok_all s delim = [s]"
  unfolding strtok_all_def using tok_go_run [of s delim "[]" "[]"] by simp

subsection \<open>Character classes of the C locale\<close>

definition isspace :: "char \<Rightarrow> bool" where
  "isspace c \<longleftrightarrow> c \<in> set [CHR 0x20, CHR 0x09, CHR 0x0A, CHR 0x0B, CHR 0x0C, CHR 0x0D]"

definition isdigit :: "char \<Rightarrow> bool" where
  "isdigit c \<longleftrightarrow> 48 \<le> (of_char c :: nat) \<and> (of_char c :: nat) \<le> 57"

definition isupper :: "char \<Rightarrow> bool" where
  "isupper c \<longleftrightarrow> 65 \<le> (of_char c :: nat) \<and> (of_char c :: nat) \<le> 90"

definition islower :: "char \<Rightarrow> bool" where
  "islower c \<longleftrightarrow> 97 \<le> (of_char c :: nat) \<and> (of_char c :: nat) \<le> 122"

definition isalnum :: "char \<Rightarrow> bool" where
  "isalnum c \<longleftrightarrow> isdigit c \<or> isupper c \<or> islower c"

definition tolower :: "char \<Rightarrow> char" where
  "tolower c = (if isupper c then char_of (of_char c + 32 :: nat) else c)"

subsection \<open>Decimal numbers\<close>

text \<open>
  \<open>strtol(s, NULL, 10)\<close> skips white space, takes one sign and the digits after it, and clamps
  the value to the range of \<open>long\<close> (64 bits); \<open>atoi\<close> is that value cut to 32 bits.
\<close>

fun digits_val :: "nat \<Rightarrow> string \<Rightarrow> nat" where
  "digits_val acc [] = acc"
| "digits_val acc (c # cs) =
     (if isdigit c then digits_val (10 * acc + (of_char c - 48)) cs else acc)"

definition clamp_long :: "int \<Rightarrow> int" where
  "clamp_long v = max (- (2 ^ 63)) (min (2 ^ 63 - 1) v)"

definition strtol10 :: "string \<Rightarrow> int" where
  "strtol10 s =
     (case dropWhile isspace s of
        [] \<Rightarrow> 0
      | c # cs \<Rightarrow>
          if c = CHR ''-'' then clamp_long (- int (digits_val 0 cs))
          else if c = CHR ''+'' then clamp_long (int (digits_val 0 cs))
          else clamp_long (int (digits_val 0 (c # cs))))"

definition atoi :: "string \<Rightarrow> int" where
  "atoi s = sint (word_of_int (strtol10 s) :: 32 word)"

fun show_nat :: "nat \<Rightarrow> string" where
  "show_nat n = (if n < 10 then [char_of (n + 48)] else show_nat (n div 10) @ [char_of (n mod 10 + 48)])"

declare show_nat.simps [simp del]

definition show_int :: "int \<Rightarrow> string" where
  "show_int i = (if i < 0 then CHR ''-'' # show_nat (nat (- i)) else show_nat (nat i))"

definition int32 :: "int \<Rightarrow> bool" where
  "int32 i \<longleftrightarrow> - (2 ^ 31) \<le> i \<and> i < 2 ^ 31"

lemma of_char_digit: "d < 10 \<Longrightarrow> (of_char (char_of (d + 48) :: char) :: nat) = d + 48"
  by (simp add: of_char_of)

lemma isdigit_char_of [simp]: "d < 10 \<Longrightarrow> isdigit (char_of (d + 48 :: nat))"
  by (simp add: isdigit_def of_char_digit)

lemma digits_val_append:
  "list_all isdigit s \<Longrightarrow> digits_val acc (s @ t) = digits_val (digits_val acc s) t"
  by (induction s arbitrary: acc) auto

lemma show_nat_digits [cstring]: "list_all isdigit (show_nat n)"
proof (induction n rule: show_nat.induct)
  case (1 n)
  show ?case
  proof (cases "n < 10")
    case True
    then show ?thesis by (subst show_nat.simps) simp
  next
    case False
    with 1 show ?thesis by (subst show_nat.simps) simp
  qed
qed

lemma show_nat_nonempty [simp]: "show_nat n \<noteq> []"
  by (subst show_nat.simps) simp

lemma digits_val_show_nat: "digits_val 0 (show_nat n) = n"
proof (induction n rule: show_nat.induct)
  case (1 n)
  show ?case
  proof (cases "n < 10")
    case True
    then show ?thesis by (subst show_nat.simps) (simp add: of_char_digit)
  next
    case False
    have m: "n mod 10 < 10" by simp
    have "digits_val 0 (show_nat n) = digits_val (n div 10) [char_of (n mod 10 + 48)]"
      using False 1 by (subst show_nat.simps) (simp add: digits_val_append show_nat_digits)
    also have "\<dots> = 10 * (n div 10) + n mod 10"
      using of_char_digit [OF m] isdigit_char_of [OF m] by simp
    finally show ?thesis by simp
  qed
qed

lemma isdigit_not_special:
  "isdigit c \<Longrightarrow> \<not> isspace c" "isdigit c \<Longrightarrow> c \<noteq> CHR ''-''" "isdigit c \<Longrightarrow> c \<noteq> CHR ''+''"
  "isdigit c \<Longrightarrow> c \<noteq> NUL" "isdigit c \<Longrightarrow> c \<noteq> NL" "isdigit c \<Longrightarrow> c \<noteq> DQ" "isdigit c \<Longrightarrow> c \<noteq> BSL"
  by (auto simp: isdigit_def isspace_def)

lemma show_nat_hd: "\<exists>c cs. show_nat n = c # cs \<and> isdigit c"
  using show_nat_digits [of n] show_nat_nonempty [of n] by (cases "show_nat n") auto

lemma strtol10_show_int: "int32 i \<Longrightarrow> strtol10 (show_int i) = i"
proof (cases "i < 0")
  case True
  assume r: "int32 i"
  have "strtol10 (show_int i) = clamp_long (- int (digits_val 0 (show_nat (nat (- i)))))"
    using True by (simp add: strtol10_def show_int_def isspace_def)
  also have "\<dots> = i" using True r by (simp add: digits_val_show_nat clamp_long_def int32_def)
  finally show ?thesis .
next
  case False
  assume r: "int32 i"
  obtain c cs where c: "show_nat (nat i) = c # cs" "isdigit c" using show_nat_hd by blast
  have "strtol10 (show_int i) = clamp_long (int (digits_val 0 (show_nat (nat i))))"
    using False c isdigit_not_special [OF c(2)] by (simp add: strtol10_def show_int_def)
  also have "\<dots> = i" using False r by (simp add: digits_val_show_nat clamp_long_def int32_def)
  finally show ?thesis .
qed

lemma digits_val_stop: "\<not> isdigit c \<Longrightarrow> digits_val acc (s @ c # r) = digits_val acc s"
  by (induction s arbitrary: acc) auto

lemma strtol10_show_int_stop:
  assumes "0 \<le> i" "i < 2 ^ 63" "\<not> isdigit c"
  shows "strtol10 (show_int i @ c # r) = i"
proof -
  obtain d ds where d: "show_nat (nat i) = d # ds" "isdigit d" using show_nat_hd by blast
  have "strtol10 (show_int i @ c # r) = clamp_long (int (digits_val 0 (show_nat (nat i) @ c # r)))"
    using assms d isdigit_not_special [OF d(2)] by (simp add: strtol10_def show_int_def)
  also have "\<dots> = i" using assms by (simp add: digits_val_stop digits_val_show_nat clamp_long_def)
  finally show ?thesis .
qed

lemma length_show_nat: "n < 10 ^ Suc k \<Longrightarrow> length (show_nat n) \<le> Suc k"
proof (induction k arbitrary: n)
  case 0
  then show ?case by (subst show_nat.simps) simp
next
  case (Suc k)
  show ?case
  proof (cases "n < 10")
    case False
    have "n div 10 < 10 ^ Suc k" using Suc.prems by (simp add: div_less_iff_less_mult)
    with Suc.IH False show ?thesis by (subst show_nat.simps) simp
  qed (subst show_nat.simps, simp)
qed

lemma length_show_int32: "int32 i \<Longrightarrow> length (show_int i) \<le> 11"
proof -
  assume "int32 i"
  then have "nat (- i) < 10 ^ Suc 9" "nat i < 10 ^ Suc 9" by (auto simp: int32_def)
  from this [THEN length_show_nat] show ?thesis by (auto simp: show_int_def)
qed

lemma length_show_int63: "0 \<le> i \<Longrightarrow> i < 2 ^ 63 \<Longrightarrow> length (show_int i) \<le> 19"
  using length_show_nat [of "nat i" 18] by (simp add: show_int_def)

lemma int32_sint [simp]: "int32 (sint (w :: 32 word))"
  using sint_greater_eq [of w] sint_less [of w] by (simp add: int32_def)

lemma sint_word_of_int32: "int32 i \<Longrightarrow> sint (word_of_int i :: 32 word) = i"
  unfolding int32_def by (simp add: sint_sbintrunc' signed_take_bit_int_eq_self)

lemma atoi_show_int [simp]: "int32 i \<Longrightarrow> atoi (show_int i) = i"
  by (simp add: atoi_def strtol10_show_int sint_word_of_int32)

lemma int32_atoi [simp]: "int32 (atoi s)"
  by (simp add: atoi_def)

lemma show_int_chars [cstring]:
  "c \<in> set (show_int i) \<Longrightarrow> isdigit c \<or> c = CHR ''-''"
  using show_nat_digits by (auto simp: show_int_def list_all_iff split: if_splits)

lemma show_int_clean [simp]:
  "NUL \<notin> set (show_int i)" "NL \<notin> set (show_int i)" "DQ \<notin> set (show_int i)"
  "BSL \<notin> set (show_int i)" "is_cstr (show_int i)" "show_int i \<noteq> []"
  by (auto simp: is_cstr_def dest!: show_int_chars dest: isdigit_not_special) (simp add: show_int_def split: if_splits)

lemma show_int_no_space: "c \<in> set (show_int i) \<Longrightarrow> \<not> isspace c"
  by (auto dest!: show_int_chars isdigit_not_special(1) simp: isspace_def)

subsection \<open>First match in a table\<close>

text \<open>
  The loop \<open>for (i = 0; i < MAX; i++) if (P(tab[i])) { ...; break; }\<close>: \<open>find_slot\<close> is the
  index it stops at, and \<open>upd_slot\<close> the table after the body has written that entry.
\<close>

fun find_slot :: "('a \<Rightarrow> bool) \<Rightarrow> 'a list \<Rightarrow> nat option" where
  "find_slot P [] = None"
| "find_slot P (x # xs) = (if P x then Some 0 else map_option Suc (find_slot P xs))"

lemma find_slot_None [table]: "find_slot P xs = None \<longleftrightarrow> (\<forall>x\<in>set xs. \<not> P x)"
  by (induction xs) auto

lemma find_slot_Some [table]:
  "find_slot P xs = Some i \<longleftrightarrow> i < length xs \<and> P (xs ! i) \<and> (\<forall>j<i. \<not> P (xs ! j))"
proof (induction xs arbitrary: i)
  case (Cons x xs)
  show ?case
  proof (cases i)
    case 0
    then show ?thesis by auto
  next
    case (Suc k)
    with Cons show ?thesis by (auto simp: nth_Cons split: nat.splits)
  qed
qed simp

lemma find_slot_lt: "find_slot P xs = Some i \<Longrightarrow> i < length xs"
  by (simp add: find_slot_Some)

lemma find_slot_sat: "find_slot P xs = Some i \<Longrightarrow> P (xs ! i)"
  by (simp add: find_slot_Some)

lemma find_slot_min: "find_slot P xs = Some i \<Longrightarrow> j < i \<Longrightarrow> \<not> P (xs ! j)"
  by (simp add: find_slot_Some)

lemmas find_slot_dests = find_slot_lt find_slot_sat find_slot_min

lemma count_update:
  assumes "i < length xs"
  shows "length (filter P (xs[i := v])) + (if P (xs ! i) then 1 else 0)
       = length (filter P xs) + (if P v then 1 else 0)"
  using assms
proof (induction xs arbitrary: i)
  case (Cons x xs)
  then show ?case by (cases i) auto
qed simp

subsection \<open>Outcomes of a C function\<close>

text \<open>
  A C function returns, ends the process with \<open>exit\<close>, or leaves the defined language
  (reads past an object, dereferences NULL, overflows a signed integer).
\<close>

datatype 'a outcome = Ret 'a | Exited | Undef

fun and_then :: "'a outcome \<Rightarrow> ('a \<Rightarrow> 'b outcome) \<Rightarrow> 'b outcome" where
  "and_then (Ret x) f = f x"
| "and_then Exited f = Exited"
| "and_then Undef f = Undef"

lemma and_then_Ret: "and_then m f = Ret y \<longleftrightarrow> (\<exists>x. m = Ret x \<and> f x = Ret y)"
  by (cases m) auto

lemma and_then_Ret_sym: "Ret y = and_then m f \<longleftrightarrow> (\<exists>x. m = Ret x \<and> f x = Ret y)"
  by (cases m) auto

text \<open>A run that may also not return (\<open>None\<close>), and its sequencing.\<close>

definition run_then :: "'a outcome option \<Rightarrow> ('a \<Rightarrow> 'b outcome option) \<Rightarrow> 'b outcome option" where
  "run_then m f =
     (case m of
        None \<Rightarrow> None
      | Some (Ret x) \<Rightarrow> f x
      | Some Exited \<Rightarrow> Some Exited
      | Some Undef \<Rightarrow> Some Undef)"

lemma run_then_simps [simp]:
  "run_then None f = None" "run_then (Some (Ret x)) f = f x"
  "run_then (Some Exited) f = Some Exited" "run_then (Some Undef) f = Some Undef"
  by (simp_all add: run_then_def)

lemma run_then_Ret: "run_then m f = Some (Ret y) \<longleftrightarrow> (\<exists>x. m = Some (Ret x) \<and> f x = Some (Ret y))"
  by (auto simp: run_then_def split: option.splits outcome.splits)

subsection \<open>Little-endian and big-endian numbers\<close>

definition le16 :: "byte list \<Rightarrow> nat" where
  "le16 b = of_char (b ! 0) + 256 * of_char (b ! 1)"

definition le32 :: "byte list \<Rightarrow> nat" where
  "le32 b = of_char (b ! 0) + 256 * (of_char (b ! 1) + 256 * (of_char (b ! 2) + 256 * of_char (b ! 3)))"

text \<open>The bytes of a buffer from offset \<open>off\<close>, \<open>n\<close> of them; \<open>None\<close> where the read leaves the buffer.\<close>

definition bslice :: "nat \<Rightarrow> nat \<Rightarrow> byte list \<Rightarrow> byte list option" where
  "bslice off n b = (if off + n \<le> length b then Some (take n (drop off b)) else None)"

lemma bslice_length: "bslice off n b = Some r \<Longrightarrow> length r = n"
  by (auto simp: bslice_def split: if_splits)

end
