(* ===== verification/Interfaces.thy ===== *)
theory Interfaces
  imports CPrelude
begin

section \<open>Interfaces between the components\<close>

text \<open>
  The contracts one part of the program relies on another for, each as a locale: the
  operations are its parameters, the laws its assumptions, and what a client may conclude
  is proved once here.  Every locale is interpreted on the definitions of the component that
  provides it: \<open>bounded_queue\<close> on the task ring of the worker pool, \<open>slot_table\<close> on the fixed
  tables of the agent (TLS handles, port forwards, sessions), \<open>keyed_store\<close> on the two
  function registries of the daemon, \<open>char_escape\<close> on the escape routines.
\<close>

subsection \<open>Bounded queue\<close>

datatype 'a qop = Enq 'a | Deq

text \<open>
  A run of a queue: the elements accepted, the elements handed out, and the final state.
  A refused \<open>Enq\<close> and a \<open>Deq\<close> on an empty queue leave the state as it is.
\<close>

fun run_queue ::
  "('a \<Rightarrow> 's \<Rightarrow> 's option) \<Rightarrow> ('s \<Rightarrow> ('a \<times> 's) option) \<Rightarrow> 'a qop list \<Rightarrow> 's \<Rightarrow> 'a list \<times> 'a list \<times> 's"
where
  "run_queue enq deq [] s = ([], [], s)"
| "run_queue enq deq (Enq x # ops) s =
     (case enq x s of
        None \<Rightarrow> run_queue enq deq ops s
      | Some s' \<Rightarrow> (let (ins, outs, r) = run_queue enq deq ops s' in (x # ins, outs, r)))"
| "run_queue enq deq (Deq # ops) s =
     (case deq s of
        None \<Rightarrow> run_queue enq deq ops s
      | Some (y, s') \<Rightarrow> (let (ins, outs, r) = run_queue enq deq ops s' in (ins, y # outs, r)))"

locale bounded_queue =
  fixes inv :: "'s \<Rightarrow> bool"
    and contents :: "'s \<Rightarrow> 'a list"
    and cap :: "'s \<Rightarrow> nat"
    and enq :: "'a \<Rightarrow> 's \<Rightarrow> 's option"
    and deq :: "'s \<Rightarrow> ('a \<times> 's) option"
  assumes bound: "inv s \<Longrightarrow> length (contents s) \<le> cap s"
    and enq_refused: "inv s \<Longrightarrow> enq x s = None \<longleftrightarrow> length (contents s) = cap s"
    and enq_contents: "inv s \<Longrightarrow> enq x s = Some s' \<Longrightarrow> contents s' = contents s @ [x]"
    and enq_inv: "inv s \<Longrightarrow> enq x s = Some s' \<Longrightarrow> inv s' \<and> cap s' = cap s"
    and deq_refused: "inv s \<Longrightarrow> deq s = None \<longleftrightarrow> contents s = []"
    and deq_contents: "inv s \<Longrightarrow> deq s = Some (y, s') \<Longrightarrow> contents s = y # contents s'"
    and deq_inv: "inv s \<Longrightarrow> deq s = Some (y, s') \<Longrightarrow> inv s' \<and> cap s' = cap s"
begin

lemma deq_after_enq:
  assumes "inv s" and "contents s = []" and "enq x s = Some s'"
  shows "\<exists>s''. deq s' = Some (x, s'') \<and> contents s'' = []"
proof -
  from assms have i: "inv s'" and c: "contents s' = [x]"
    using enq_inv enq_contents by auto
  then obtain y s'' where d: "deq s' = Some (y, s'')"
    using deq_refused by (cases "deq s'") auto
  with i c show ?thesis using deq_contents by fastforce
qed

lemma run_fifo:
  assumes "inv s" and "run_queue enq deq ops s = (ins, outs, r)"
  shows "contents s @ ins = outs @ contents r \<and> inv r \<and> cap r = cap s"
  using assms
proof (induction ops arbitrary: s ins outs)
  case (Cons op ops)
  show ?case
  proof (cases op)
    case (Enq x)
    show ?thesis
    proof (cases "enq x s")
      case None
      with Cons Enq show ?thesis by simp
    next
      case (Some s')
      with Cons.prems Enq obtain ins' where
        run: "run_queue enq deq ops s' = (ins', outs, r)" and ins: "ins = x # ins'"
        by (auto split: prod.splits)
      have "inv s'" "cap s' = cap s" "contents s' = contents s @ [x]"
        using Some Cons.prems(1) enq_inv enq_contents by blast+
      with Cons.IH [OF _ run] ins show ?thesis by simp
    qed
  next
    case Deq
    show ?thesis
    proof (cases "deq s")
      case None
      with Cons Deq show ?thesis by simp
    next
      case (Some p)
      then obtain y s' where d: "deq s = Some (y, s')" by (cases p) auto
      with Cons.prems Deq obtain outs' where
        run: "run_queue enq deq ops s' = (ins, outs', r)" and outs: "outs = y # outs'"
        by (auto split: prod.splits)
      have "inv s'" "cap s' = cap s" "contents s = y # contents s'"
        using d Cons.prems(1) deq_inv deq_contents by blast+
      with Cons.IH [OF _ run] outs show ?thesis by simp
    qed
  qed
qed simp

end

subsection \<open>Keyed store\<close>

text \<open>
  A registry of entries by name.  What an insertion does to a key that is present is left to
  the provider; a client that registers different names gets every one of them back.
\<close>

locale keyed_store =
  fixes inv :: "'s \<Rightarrow> bool"
    and lookup :: "'s \<Rightarrow> 'k \<Rightarrow> 'v option"
    and insert :: "'k \<Rightarrow> 'v \<Rightarrow> 's \<Rightarrow> 's option"
  assumes insert_inv: "inv s \<Longrightarrow> insert k v s = Some s' \<Longrightarrow> inv s'"
    and lookup_new: "inv s \<Longrightarrow> lookup s k = None \<Longrightarrow> insert k v s = Some s' \<Longrightarrow> lookup s' k = Some v"
    and lookup_other: "inv s \<Longrightarrow> insert k v s = Some s' \<Longrightarrow> k' \<noteq> k \<Longrightarrow> lookup s' k' = lookup s k'"
begin

fun insert_all :: "('k \<times> 'v) list \<Rightarrow> 's \<Rightarrow> 's option" where
  "insert_all [] s = Some s"
| "insert_all ((k, v) # kvs) s = (case insert k v s of None \<Rightarrow> None | Some s' \<Rightarrow> insert_all kvs s')"

lemma insert_all_other:
  "inv s \<Longrightarrow> insert_all kvs s = Some s' \<Longrightarrow> k \<notin> fst ` set kvs \<Longrightarrow> lookup s' k = lookup s k \<and> inv s'"
proof (induction kvs arbitrary: s)
  case (Cons kv kvs)
  obtain k1 v1 where kv: "kv = (k1, v1)" by (cases kv) auto
  with Cons.prems obtain s1 where s1: "insert k1 v1 s = Some s1" "insert_all kvs s1 = Some s'"
    by (auto split: option.splits)
  then have "lookup s1 k = lookup s k" "inv s1"
    using Cons.prems lookup_other [of s k1 v1 s1 k] insert_inv kv by auto
  with Cons.IH [of s1] s1 Cons.prems(3) show ?case by simp
qed simp

lemma lookup_registered:
  "inv s \<Longrightarrow> insert_all kvs s = Some s' \<Longrightarrow> distinct (map fst kvs) \<Longrightarrow>
     (\<And>k. k \<in> fst ` set kvs \<Longrightarrow> lookup s k = None) \<Longrightarrow> (k, v) \<in> set kvs \<Longrightarrow> lookup s' k = Some v"
proof (induction kvs arbitrary: s)
  case (Cons kv kvs)
  obtain k1 v1 where kv: "kv = (k1, v1)" by (cases kv) auto
  with Cons.prems obtain s1 where s1: "insert k1 v1 s = Some s1" "insert_all kvs s1 = Some s'"
    by (auto split: option.splits)
  have i1: "inv s1" using insert_inv [OF Cons.prems(1) s1(1)] .
  show ?case
  proof (cases "(k, v) = (k1, v1)")
    case True
    then have "lookup s1 k = Some v"
      using lookup_new [OF Cons.prems(1) _ s1(1)] Cons.prems(4) kv by simp
    moreover have "k \<notin> fst ` set kvs" using Cons.prems(3) kv True by (metis list.simps(9) distinct.simps(2) fst_conv set_map)
    ultimately show ?thesis using insert_all_other [OF i1 s1(2)] by simp
  next
    case False
    have fresh: "lookup s1 k' = None" if "k' \<in> fst ` set kvs" for k'
    proof -
      have "k' \<noteq> k1" using that Cons.prems(3) kv by auto
      then show ?thesis using lookup_other [OF Cons.prems(1) s1(1)] Cons.prems(4) that by simp
    qed
    have "distinct (map fst kvs)" "(k, v) \<in> set kvs" using Cons.prems(3,5) kv False by auto
    from Cons.IH [OF i1 s1(2) this(1) fresh this(2)] show ?thesis by simp
  qed
qed simp

end

subsection \<open>Escape routines\<close>

text \<open>
  A character-wise escape routine and the reader that takes one escaped character off a text.
  The closing character \<open>fin\<close> never starts an escaped character.  A client that copies
  characters in a loop gets the escaped text back, and escaped texts are read in one way only.
\<close>

locale char_escape =
  fixes ok :: "char \<Rightarrow> bool"
    and esc :: "char \<Rightarrow> string"
    and read1 :: "string \<Rightarrow> (char \<times> string) outcome"
    and fin :: char
  assumes read_esc: "ok c \<Longrightarrow> read1 (esc c @ r) = Ret (c, r)"
    and esc_start: "ok c \<Longrightarrow> esc c \<noteq> [] \<and> hd (esc c) \<noteq> fin"
begin

lemma loop_reads:
  assumes step: "\<And>v buf c r. v \<noteq> [] \<Longrightarrow> hd v \<noteq> fin \<Longrightarrow> length buf + 1 < n \<Longrightarrow>
      read1 v = Ret (c, r) \<Longrightarrow> loop v buf = loop r (buf @ [c])"
    and s: "list_all ok s" "length buf + length s < n"
  shows "loop (concat (map esc s) @ r) buf = loop r (buf @ s)"
  using s
proof (induction s arbitrary: buf)
  case (Cons c s)
  then have "loop (esc c @ concat (map esc s) @ r) buf = loop (concat (map esc s) @ r) (buf @ [c])"
    using esc_start [of c] by (intro step) (auto simp: read_esc)
  with Cons show ?case by simp
qed simp

lemma unambiguous:
  "list_all ok s \<Longrightarrow> list_all ok t \<Longrightarrow> concat (map esc s) @ fin # r = concat (map esc t) @ fin # r' \<Longrightarrow> s = t"
proof (induction s arbitrary: t)
  case Nil
  show ?case
  proof (cases t)
    case t: (Cons d u)
    with Nil.prems esc_start [of d] show ?thesis by (cases "esc d") auto
  qed simp
next
  case (Cons c s)
  show ?case
  proof (cases t)
    case Nil
    with Cons.prems esc_start [of c] show ?thesis by (cases "esc c") auto
  next
    case t: (Cons d u)
    let ?x = "concat (map esc s) @ fin # r" and ?y = "concat (map esc u) @ fin # r'"
    have "esc c @ ?x = esc d @ ?y" using Cons.prems(3) t by simp
    moreover have "read1 (esc c @ ?x) = Ret (c, ?x)" "read1 (esc d @ ?y) = Ret (d, ?y)"
      using Cons.prems(1,2) t by (simp_all add: read_esc)
    ultimately have "Ret (c, ?x) = Ret (d, ?y)" by metis
    then have "c = d" and xy: "?x = ?y" by blast+
    moreover have "s = u" using Cons.prems(1,2) t by (intro Cons.IH [OF _ _ xy]) simp_all
    ultimately show ?thesis using t by simp
  qed
qed

end

subsection \<open>Tables of slots\<close>

text \<open>
  A fixed table whose entries are free or used: an entry is put into the first free slot, found
  at the first used slot with its key, and removed by clearing that slot.  As long as the keys
  of the used slots differ the table is a map of bounded size.
\<close>

locale slot_table =
  fixes used :: "'e \<Rightarrow> bool"
    and key :: "'e \<Rightarrow> 'k"
    and clear :: "'e \<Rightarrow> 'e"
  assumes clear_free: "\<not> used (clear e)"
begin

definition lookup :: "'e list \<Rightarrow> 'k \<Rightarrow> 'e option" where
  "lookup t k = map_option (nth t) (find_slot (\<lambda>e. used e \<and> key e = k) t)"

definition put :: "'e \<Rightarrow> 'e list \<Rightarrow> 'e list option" where
  "put e t = map_option (\<lambda>i. t[i := e]) (find_slot (\<lambda>e. \<not> used e) t)"

definition del :: "'k \<Rightarrow> 'e list \<Rightarrow> 'e list" where
  "del k t = (case find_slot (\<lambda>e. used e \<and> key e = k) t of None \<Rightarrow> t | Some i \<Rightarrow> t[i := clear (t ! i)])"

definition uniq :: "'e list \<Rightarrow> bool" where
  "uniq t \<longleftrightarrow> (\<forall>i<length t. \<forall>j<length t. used (t ! i) \<longrightarrow> used (t ! j) \<longrightarrow> key (t ! i) = key (t ! j) \<longrightarrow> i = j)"

lemma lookup_None: "lookup t k = None \<longleftrightarrow> (\<forall>e\<in>set t. used e \<longrightarrow> key e \<noteq> k)"
  by (auto simp: lookup_def find_slot_None)

lemma lookup_Some: "uniq t \<Longrightarrow> lookup t k = Some e \<longleftrightarrow> e \<in> set t \<and> used e \<and> key e = k"
proof
  assume "lookup t k = Some e"
  then show "e \<in> set t \<and> used e \<and> key e = k" by (auto simp: lookup_def find_slot_Some)
next
  assume u: "uniq t" and e: "e \<in> set t \<and> used e \<and> key e = k"
  then obtain e' where l: "lookup t k = Some e'" using lookup_None [of t k] by (cases "lookup t k") auto
  then obtain i where i: "i < length t" "t ! i = e'" "used e'" "key e' = k" by (auto simp: lookup_def find_slot_Some)
  from e obtain j where "j < length t" "t ! j = e" by (auto simp: in_set_conv_nth)
  with u i e have "i = j" unfolding uniq_def by blast
  with i l \<open>t ! j = e\<close> show "lookup t k = Some e" by simp
qed

lemma put_None: "put e t = None \<longleftrightarrow> list_all used t"
  by (auto simp: put_def find_slot_None list_all_iff)

lemma put_Some:
  assumes "put e t = Some t'"
  obtains i where "i < length t" "\<not> used (t ! i)" "t' = t[i := e]"
  using assms by (auto simp: put_def find_slot_Some)

lemma put_uniq:
  assumes "uniq t" "put e t = Some t'" "lookup t (key e) = None"
  shows "uniq t'"
proof -
  obtain i where i: "i < length t" "\<not> used (t ! i)" "t' = t[i := e]" using put_Some [OF assms(2)] .
  have "key (t ! j) \<noteq> key e" if "j < length t" "used (t ! j)" for j
    using assms(3) that by (auto simp: lookup_None)
  then have "key (t ! j) \<noteq> key e" "key e \<noteq> key (t ! j)" if "j < length t" "used (t ! j)" for j
    using that by force+
  with assms(1) i show ?thesis unfolding uniq_def by (simp add: nth_list_update)
qed

lemma lookup_put:
  assumes "uniq t" "put e t = Some t'" "lookup t (key e) = None" "used e"
  shows "lookup t' k = (if k = key e then Some e else lookup t k)"
proof -
  obtain i where i: "i < length t" "\<not> used (t ! i)" "t' = t[i := e]" using put_Some [OF assms(2)] .
  have u: "uniq t'" using put_uniq [OF assms(1-3)] .
  have m: "x \<in> set t' \<and> used x \<longleftrightarrow> x = e \<or> x \<in> set t \<and> used x" for x
  proof
    assume "x \<in> set t' \<and> used x"
    then show "x = e \<or> x \<in> set t \<and> used x" using i set_update_subset_insert [of t i e] by auto
  next
    assume "x = e \<or> x \<in> set t \<and> used x"
    then show "x \<in> set t' \<and> used x"
    proof
      assume "x = e"
      then show ?thesis using i assms(4) by (simp add: set_update_memI)
    next
      assume x: "x \<in> set t \<and> used x"
      then obtain j where j: "j < length t" "t ! j = x" by (auto simp: in_set_conv_nth)
      with x i have "t' ! j = x" "j < length t'" by (auto simp: nth_list_update)
      then show ?thesis using x by (metis nth_mem)
    qed
  qed
  show ?thesis
  proof (cases "lookup t' k")
    case None
    then show ?thesis using m assms(4) unfolding lookup_None by (metis lookup_None not_Some_eq)
  next
    case (Some x)
    then have "x \<in> set t'" "used x" "key x = k" using u by (simp_all add: lookup_Some)
    show ?thesis
    proof (cases "x = e")
      case False
      with m [of x] \<open>x \<in> set t'\<close> \<open>used x\<close> have "x \<in> set t" by blast
      then have "lookup t k = Some x" using \<open>used x\<close> \<open>key x = k\<close> by (simp add: lookup_Some [OF assms(1)])
      with Some assms(3) show ?thesis by auto
    qed (use Some \<open>key x = k\<close> in simp)
  qed
qed

lemma put_count: "put e t = Some t' \<Longrightarrow> used e \<Longrightarrow> length (filter used t') = length (filter used t) + 1"
  by (elim put_Some) (use count_update [of _ t used e] in fastforce)

lemma del_cases:
  obtains "lookup t k = None" "del k t = t"
  | i where "i < length t" "used (t ! i)" "key (t ! i) = k" "del k t = t[i := clear (t ! i)]"
  by (cases "find_slot (\<lambda>e. used e \<and> key e = k) t") (auto simp: del_def lookup_def find_slot_Some)

lemma del_uniq: "uniq t \<Longrightarrow> uniq (del k t)"
  by (cases rule: del_cases [of t k]) (auto simp: uniq_def nth_list_update clear_free)

lemma lookup_del:
  assumes "uniq t" shows "lookup (del k t) k' = (if k' = k then None else lookup t k')"
proof (cases rule: del_cases [of t k])
  case 1
  then show ?thesis by simp
next
  case (2 i)
  have u: "uniq (del k t)" using del_uniq [OF assms] .
  have m: "x \<in> set (del k t) \<and> used x \<longleftrightarrow> x \<in> set t \<and> used x \<and> key x \<noteq> k" for x
  proof
    assume x: "x \<in> set (del k t) \<and> used x"
    then obtain j where j: "j < length t" "j \<noteq> i" "t ! j = x"
      using 2 clear_free [of "t ! i"] by (metis (no_types, lifting) in_set_conv_nth length_list_update nth_list_update)
    then show "x \<in> set t \<and> used x \<and> key x \<noteq> k" using x 2 assms unfolding uniq_def by (metis nth_mem)
  next
    assume x: "x \<in> set t \<and> used x \<and> key x \<noteq> k"
    then obtain j where j: "j < length t" "t ! j = x" by (auto simp: in_set_conv_nth)
    with x 2 have "del k t ! j = x" "j < length (del k t)" by (auto simp: nth_list_update)
    then show "x \<in> set (del k t) \<and> used x" using x by (metis nth_mem)
  qed
  have "lookup (del k t) k' = Some x \<longleftrightarrow> (k' \<noteq> k \<and> lookup t k' = Some x)" for x
    using m [of x] by (auto simp: lookup_Some [OF u] lookup_Some [OF assms])
  then show ?thesis by (metis not_Some_eq)
qed

end

end
