(* ===== verification/AgentJson.thy ===== *)
theory AgentJson
  imports Interfaces
begin

section \<open>JSON text of the agent (clients/src/util.c, clients/src/net.c)\<close>

text \<open>
  The flat JSON reader of the agent (\<open>find_key\<close>, \<open>ctc_json_get_string\<close>, \<open>ctc_json_get_int\<close>,
  \<open>ctc_json_get_bool\<close>) and the escape routine of net.c with its growing buffer.  A pointer into
  a text is the suffix it points at.  A read past the terminating NUL and a write past the
  allocated buffer give \<open>Undef\<close>.
\<close>

subsection \<open>Reading\<close>

text \<open>The loop that passes over a string, lines 81 to 85: it stops behind the closing quote.\<close>

fun skip_string :: "string \<Rightarrow> string" where
  "skip_string [] = []"
| "skip_string [c] = []"
| "skip_string (c # d # r) =
     (if c = BSL then skip_string r
      else if c = DQ then d # r
      else skip_string (d # r))"

lemma length_skip_string: "length (skip_string s) \<le> length s"
  by (induction s rule: skip_string.induct) auto

lemma length_strchr: "strchr s c = Some r \<Longrightarrow> length r - Suc 0 < length s"
  by (induction s) (auto split: if_splits)

definition key_here :: "string \<Rightarrow> string \<Rightarrow> string option" where
  "key_here key p =
     (if is_prefix (key @ [DQ]) p then
        (case dropWhile isspace (drop (length key + 1) p) of
           c # q \<Rightarrow> if c = CHR '':'' then Some q else None
         | [] \<Rightarrow> None)
      else None)"

function find_key :: "string \<Rightarrow> string \<Rightarrow> string option" where
  "find_key key p =
     (case strchr p DQ of
        None \<Rightarrow> None
      | Some q \<Rightarrow>
          (case key_here key (drop 1 q) of
             Some v \<Rightarrow> Some v
           | None \<Rightarrow> find_key key (skip_string (drop 1 q))))"
  by pat_completeness auto

termination
  by (relation "measure (\<lambda>(key, p). length p)")
     (auto dest!: length_strchr intro!: le_less_trans [OF length_skip_string])

declare find_key.simps [simp del]

definition isxdigit :: "char \<Rightarrow> bool" where
  "isxdigit c \<longleftrightarrow> isdigit c \<or> c \<in> set ''abcdefABCDEF''"

definition hexval :: "char \<Rightarrow> nat" where
  "hexval c =
     (if isdigit c then of_char c - 48 else if islower c then of_char c - 87 else of_char c - 55)"

text \<open>
  \<open>sscanf(s, "%wx", &v) == 1\<close> for a width \<open>w\<close>: white space is skipped, and at most \<open>w\<close> characters
  are taken: a sign, the prefix \<open>0x\<close>, and hexadecimal digits, at least one of which is needed.
\<close>

definition sscanf_x :: "nat \<Rightarrow> string \<Rightarrow> int option" where
  "sscanf_x w s =
     (let t = take w (dropWhile isspace s);
          neg = (case t of c # _ \<Rightarrow> c = CHR ''-'' | [] \<Rightarrow> False);
          u = (case t of c # r \<Rightarrow> if c = CHR ''-'' \<or> c = CHR ''+'' then r else t | [] \<Rightarrow> t);
          u = (case u of a # x # r \<Rightarrow> if a = CHR ''0'' \<and> (x = CHR ''x'' \<or> x = CHR ''X'') then r else u | _ \<Rightarrow> u);
          ds = takeWhile isxdigit u;
          v = foldl (\<lambda>acc c. 16 * acc + int (hexval c)) 0 ds
      in if ds = [] then None else Some ((if neg then - v else v) mod 2 ^ 32))"

text \<open>One pass of the loop of \<open>ctc_json_get_string\<close>: the byte stored and where \<open>v\<close> points then.\<close>

fun get_step :: "string \<Rightarrow> (char \<times> string) outcome" where
  "get_step [] = Undef"
| "get_step (c # r) =
     (if c = BSL \<and> r \<noteq> [] then
        (case r of
           [] \<Rightarrow> Undef
         | x # r \<Rightarrow>
             if x = CHR ''n'' then Ret (NL, r)
             else if x = CHR ''t'' then Ret (CHR 0x09, r)
             else if x = CHR ''r'' then Ret (CHR 0x0D, r)
             else if x = CHR ''u'' then
               (case sscanf_x 4 r of
                  Some code \<Rightarrow>
                    if length r < 4 then Undef else Ret (char_of (nat (code mod 256)), drop 4 r)
                | None \<Rightarrow> Ret (CHR ''?'', r))
             else Ret (x, r))
      else Ret (c, r))"

lemma get_step_shorter: "get_step v = Ret (c, r) \<Longrightarrow> length r < length v"
proof (cases v)
  case (Cons x xs)
  assume "get_step v = Ret (c, r)"
  with Cons show ?thesis
    by (cases xs) (auto simp: Let_def split: if_split_asm option.split_asm)
qed simp

function get_loop :: "nat \<Rightarrow> string \<Rightarrow> byte list \<Rightarrow> byte list outcome" where
  "get_loop buflen v buf =
     (if v \<noteq> [] \<and> hd v \<noteq> DQ \<and> length buf + 1 < buflen then
        (case get_step v of
           Ret (c, r) \<Rightarrow> get_loop buflen r (buf @ [c])
         | Exited \<Rightarrow> Exited
         | Undef \<Rightarrow> Undef)
      else Ret buf)"
  by pat_completeness auto

termination
  by (relation "measure (\<lambda>(buflen, v, buf). length v)") (auto dest: get_step_shorter)

declare get_loop.simps [simp del]

text \<open>The result is the bytes stored before the terminating NUL; \<open>None\<close> is a NULL return.\<close>

definition ctc_json_get_string :: "string \<Rightarrow> string \<Rightarrow> nat \<Rightarrow> byte list option outcome" where
  "ctc_json_get_string json key buflen =
     (case find_key key json of
        None \<Rightarrow> Ret None
      | Some v \<Rightarrow>
          (case dropWhile isspace v of
             [] \<Rightarrow> Ret None
           | c # v \<Rightarrow>
               if c \<noteq> DQ then Ret None
               else
                 (case get_loop buflen v [] of
                    Ret buf \<Rightarrow> if length buf < buflen then Ret (Some buf) else Undef
                  | Exited \<Rightarrow> Exited
                  | Undef \<Rightarrow> Undef)))"

definition ctc_json_get_int :: "string \<Rightarrow> string \<Rightarrow> int \<Rightarrow> int" where
  "ctc_json_get_int json key defval =
     (case find_key key json of
        None \<Rightarrow> defval
      | Some v \<Rightarrow> strtol10 (dropWhile isspace v))"

definition ctc_json_get_bool :: "string \<Rightarrow> string \<Rightarrow> int \<Rightarrow> int" where
  "ctc_json_get_bool json key defval =
     (case find_key key json of
        None \<Rightarrow> defval
      | Some v \<Rightarrow>
          let v = dropWhile isspace v in
          if is_prefix ''true'' v then 1
          else if is_prefix ''false'' v then 0
          else if is_prefix ''1'' v then 1
          else if is_prefix ''0'' v then 0
          else defval)"

text \<open>\<open>ctc_json_get_string\<close> into a buffer that holds the empty string before.\<close>

definition get_field :: "string \<Rightarrow> string \<Rightarrow> nat \<Rightarrow> string outcome" where
  "get_field json key n =
     and_then (ctc_json_get_string json key n) (\<lambda>r. Ret (case r of None \<Rightarrow> [] | Some b \<Rightarrow> cstr b))"

subsection \<open>Escaping\<close>

definition hexdigit :: "nat \<Rightarrow> char" where
  "hexdigit d = ''0123456789abcdef'' ! d"

definition is_ctl :: "char \<Rightarrow> bool" where
  "is_ctl c \<longleftrightarrow> (of_char c :: nat) < 32 \<and> c \<noteq> NL \<and> c \<noteq> CHR 0x0D \<and> c \<noteq> CHR 0x09"

text \<open>The replacement text of a byte, \<open>None\<close> where it is copied (\<open>rep\<close> stays NULL).\<close>

definition esc_rep :: "char \<Rightarrow> string option" where
  "esc_rep c =
     (if c = DQ then Some [BSL, DQ]
      else if c = BSL then Some [BSL, BSL]
      else if c = NL then Some [BSL, CHR ''n'']
      else if c = CHR 0x0D then Some [BSL, CHR ''r'']
      else if c = CHR 0x09 then Some [BSL, CHR ''t'']
      else if (of_char c :: nat) < 32
      then Some ([BSL, CHR ''u'', CHR ''0'', CHR ''0'', hexdigit (of_char c div 16), hexdigit (of_char c mod 16)])
      else None)"

text \<open>
  The loop of \<open>json_escape\<close> with the bytes written so far and the size of the buffer; \<open>alloc\<close>
  tells which request sizes the allocator can serve.  A failed \<open>realloc\<close> is written through.
\<close>

fun escape_loop :: "(nat \<Rightarrow> bool) \<Rightarrow> nat \<Rightarrow> string \<Rightarrow> string \<Rightarrow> string option outcome" where
  "escape_loop alloc cap out [] = (if length out < cap then Ret (Some out) else Undef)"
| "escape_loop alloc cap out (c # cs) =
     (case esc_rep c of
        Some rep \<Rightarrow>
          let grow = length out + length rep + 1 > cap; cap' = (if grow then cap * 2 else cap) in
          if grow \<and> \<not> alloc cap' then Undef
          else if length out + length rep > cap' then Undef
          else escape_loop alloc cap' (out @ rep) cs
      | None \<Rightarrow>
          let grow = length out + 2 > cap; cap' = (if grow then cap * 2 else cap) in
          if grow \<and> \<not> alloc cap' then Undef
          else if length out + 1 > cap' then Undef
          else escape_loop alloc cap' (out @ [c]) cs)"

definition json_escape :: "(nat \<Rightarrow> bool) \<Rightarrow> string option \<Rightarrow> string option outcome" where
  "json_escape alloc s =
     (case s of
        None \<Rightarrow> Ret (if alloc 1 then Some [] else None)
      | Some s \<Rightarrow>
          let cap = length s * 2 + 1 in
          if \<not> alloc cap then Ret None else escape_loop alloc cap [] s)"

definition esc_char :: "char \<Rightarrow> string" where
  "esc_char c = (case esc_rep c of Some r \<Rightarrow> r | None \<Rightarrow> [c])"

definition esc_string :: "string \<Rightarrow> string" where
  "esc_string s = concat (map esc_char s)"

subsection \<open>Reading back escaped text\<close>

lemma hexdigit_facts:
  assumes "d < 16"
  shows "isxdigit (hexdigit d)" "hexval (hexdigit d) = d" "hexdigit d \<noteq> CHR ''x''" "hexdigit d \<noteq> CHR ''X''"
    "\<not> isspace (hexdigit d)"
proof -
  let ?h = "''0123456789abcdef''"
  have "map hexval ?h = [0..<16]"
    "list_all (\<lambda>c. isxdigit c \<and> c \<noteq> CHR ''x'' \<and> c \<noteq> CHR ''X'' \<and> \<not> isspace c) ?h"
    by code_simp+
  moreover have "hexdigit d \<in> set ?h" unfolding hexdigit_def by (rule nth_mem) (use assms in simp)
  moreover have "map hexval ?h ! d = hexval (hexdigit d)" unfolding hexdigit_def by (rule nth_map) (use assms in simp)
  ultimately show "isxdigit (hexdigit d)" "hexval (hexdigit d) = d" "hexdigit d \<noteq> CHR ''x''"
    "hexdigit d \<noteq> CHR ''X''" "\<not> isspace (hexdigit d)"
    using assms unfolding list_all_iff by (metis nth_upt add_0)+
qed

lemma sscanf_hex2:
  assumes "a < 16" "b < 16"
  shows "sscanf_x 4 ([CHR ''0'', CHR ''0'', hexdigit a, hexdigit b] @ r) = Some (int (16 * a + b))"
proof -
  have z: "isxdigit CHR ''0''" "hexval CHR ''0'' = 0" "\<not> isspace CHR ''0''"
    using hexdigit_facts [of 0] by (simp_all add: hexdigit_def)
  have "int (16 * a + b) mod 2 ^ 32 = int (16 * a + b)" using assms by (intro mod_pos_pos_trivial) simp_all
  then show ?thesis using hexdigit_facts [OF assms(1)] hexdigit_facts [OF assms(2)] z
    by (simp add: sscanf_x_def Let_def)
qed

lemma sscanf_hex_ctl:
  assumes "(of_char c :: nat) < 32"
  shows "sscanf_x 4 ([CHR ''0'', CHR ''0'', hexdigit (of_char c div 16), hexdigit (of_char c mod 16)] @ r)
       = Some (int (of_char c))"
  using sscanf_hex2 [of "of_char c div 16" "of_char c mod 16" r] assms by simp

lemma get_step_copy: "c \<noteq> BSL \<Longrightarrow> get_step (c # r) = Ret (c, r)"
  by simp

lemma get_step_esc: "get_step (esc_char c @ r) = Ret (c, r)"
proof (cases "esc_rep c")
  case None
  then have "c \<noteq> BSL" by (auto simp: esc_rep_def)
  with None show ?thesis by (simp add: esc_char_def)
next
  case (Some e)
  show ?thesis
  proof (cases "is_ctl c \<and> c \<noteq> DQ \<and> c \<noteq> BSL")
    case True
    let ?h = "[CHR ''0'', CHR ''0'', hexdigit (of_char c div 16), hexdigit (of_char c mod 16)]"
    from True have e: "esc_char c = BSL # CHR ''u'' # ?h" by (simp add: esc_char_def esc_rep_def is_ctl_def)
    have "sscanf_x 4 (?h @ r) = Some (int (of_char c))" using True by (intro sscanf_hex_ctl) (simp add: is_ctl_def)
    then show ?thesis unfolding e by simp
  next
    case False
    with Some show ?thesis by (auto simp: esc_char_def esc_rep_def is_ctl_def split: if_splits)
  qed
qed

lemma esc_char_start: "esc_char c \<noteq> [] \<and> hd (esc_char c) \<noteq> DQ"
  by (auto simp: esc_char_def esc_rep_def)

interpretation jstr: char_escape "\<lambda>_. True" esc_char get_step DQ
  by unfold_locales (simp_all add: get_step_esc esc_char_start)

lemma get_loop_step:
  "v \<noteq> [] \<Longrightarrow> hd v \<noteq> DQ \<Longrightarrow> length buf + 1 < n \<Longrightarrow> get_step v = Ret (c, r) \<Longrightarrow>
     get_loop n v buf = get_loop n r (buf @ [c])"
  by (subst get_loop.simps) simp

lemma get_loop_end: "get_loop n (DQ # r) buf = Ret buf"
  by (subst get_loop.simps) simp

lemma get_loop_escaped:
  assumes "length s < n"
  shows "get_loop n (esc_string s @ DQ # r) [] = Ret s"
proof -
  have "get_loop n (concat (map esc_char s) @ DQ # r) [] = get_loop n (DQ # r) ([] @ s)"
    by (rule jstr.loop_reads [where n = n]) (use assms in \<open>simp_all add: get_loop_step list_all_iff\<close>)
  then show ?thesis by (simp add: esc_string_def get_loop_end)
qed

subsection \<open>Objects of string fields\<close>

definition json_field :: "string \<times> string \<Rightarrow> string" where
  "json_field kv = DQ # fst kv @ DQ # CHR '':'' # DQ # esc_string (snd kv) @ [DQ]"

fun json_fields :: "(string \<times> string) list \<Rightarrow> string" where
  "json_fields [] = ''}''"
| "json_fields [kv] = json_field kv @ ''}''"
| "json_fields (kv # kv' # kvs) = json_field kv @ CHR '','' # json_fields (kv' # kvs)"

definition json_object :: "(string \<times> string) list \<Rightarrow> string" where
  "json_object kvs = CHR ''{'' # json_fields kvs"

lemma skip_string_Cons: "c \<noteq> BSL \<Longrightarrow> c \<noteq> DQ \<Longrightarrow> r \<noteq> [] \<Longrightarrow> skip_string (c # r) = skip_string r"
  by (cases r) auto

lemma skip_string_close: "skip_string (DQ # r) = r"
  by (cases r) auto

lemma skip_string_plain: "plain k \<Longrightarrow> skip_string (k @ DQ # r) = r"
  by (induction k) (auto simp: plain_def skip_string_Cons skip_string_close)

lemma hexdigit_plain: "d < 16 \<Longrightarrow> hexdigit d \<noteq> BSL \<and> hexdigit d \<noteq> DQ"
  using hexdigit_facts(1) [of d] by (auto simp: isxdigit_def isdigit_def)

lemma skip_string_esc_char: "t \<noteq> [] \<Longrightarrow> skip_string (esc_char c @ t) = skip_string t"
proof -
  assume t: "t \<noteq> []"
  have "(of_char c :: nat) < 32 \<Longrightarrow> of_char c div 16 < (16 :: nat)" by linarith
  with t show ?thesis
    using hexdigit_plain [of "of_char c div 16"] hexdigit_plain [of "of_char c mod 16"]
    by (cases t) (auto simp: esc_char_def esc_rep_def)
qed

lemma skip_string_escaped: "skip_string (esc_string v @ DQ # r) = r"
  by (induction v) (auto simp: esc_string_def skip_string_close skip_string_esc_char)

lemma esc_char_quote: "esc_char c = u @ DQ # w \<Longrightarrow> BSL \<in> set u"
proof -
  assume a: "esc_char c = u @ DQ # w"
  have "(of_char c :: nat) < 32 \<Longrightarrow> of_char c div 16 < (16 :: nat)" by linarith
  with a show ?thesis
    using hexdigit_plain [of "of_char c div 16"] hexdigit_plain [of "of_char c mod 16"]
    by (auto simp: esc_char_def esc_rep_def Cons_eq_append_conv split: if_splits)
qed

lemma esc_string_quote: "esc_string v = u @ DQ # w \<Longrightarrow> BSL \<in> set u"
proof (induction v arbitrary: u)
  case (Cons c v)
  then have "esc_char c @ esc_string v = u @ DQ # w" by (simp add: esc_string_def)
  then consider us where "esc_char c @ us = u" "esc_string v = us @ DQ # w"
    | us where "esc_char c = u @ us" "us @ esc_string v = DQ # w"
    by (auto simp: append_eq_append_conv2)
  then show ?case
  proof cases
    case 1
    with Cons.IH show ?thesis by auto
  next
    case 2
    show ?thesis
    proof (cases us)
      case Nil
      with 2 Cons.IH [of "[]"] show ?thesis by simp
    next
      case (Cons d ds)
      with 2 show ?thesis using esc_char_quote by simp
    qed
  qed
qed (simp add: esc_string_def)

lemma prefix_quote:
  assumes "is_prefix (key @ [DQ]) (u @ DQ # r)" "DQ \<notin> set key" "DQ \<notin> set u"
  shows "key = u"
  using assms
proof (induction u arbitrary: key)
  case Nil
  then show ?case by (cases key) auto
next
  case (Cons x u)
  then show ?case by (cases key) auto
qed

lemma key_here_key:
  "plain key \<Longrightarrow> plain k \<Longrightarrow> key_here key (k @ DQ # CHR '':'' # r) = (if k = key then Some r else None)"
  using prefix_quote [of key k] is_prefix_append [of "key @ [DQ]"]
  by (auto simp: key_here_def plain_def isspace_def)

lemma key_here_value:
  assumes "plain key" and "r = CHR '','' # r' \<or> r = CHR ''}'' # r'"
  shows "key_here key (esc_string v @ DQ # r) = None"
proof (cases "is_prefix (key @ [DQ]) (esc_string v @ DQ # r)")
  case True
  have "DQ \<notin> set (esc_string v)"
  proof
    assume "DQ \<in> set (esc_string v)"
    then obtain u w where u: "esc_string v = u @ DQ # w" "DQ \<notin> set u" by (metis split_list_first)
    with True assms(1) have "key = u" using prefix_quote [of key u] by (simp add: plain_def)
    with esc_string_quote [OF u(1)] assms(1) show False by (simp add: plain_def)
  qed
  with True assms(1) have "key = esc_string v" using prefix_quote by (simp add: plain_def)
  with assms(2) show ?thesis by (auto simp: key_here_def isspace_def)
qed (simp add: key_here_def)

lemma find_key_skip: "DQ \<notin> set p \<Longrightarrow> find_key key (p @ r) = find_key key r"
  by (simp add: find_key.simps [of key "p @ r"] find_key.simps [of key r] strchr_skip)

lemma find_key_field:
  assumes "plain key" "plain k" "r = CHR '','' # r' \<or> r = CHR ''}'' # r'"
  shows "find_key key (json_field (k, v) @ r)
       = (if k = key then Some (DQ # esc_string v @ DQ # r) else find_key key r)"
proof -
  have "find_key key (json_field (k, v) @ r)
      = (if k = key then Some (DQ # esc_string v @ DQ # r)
         else find_key key (CHR '':'' # DQ # esc_string v @ DQ # r))"
    using key_here_key [OF assms(1,2), of "DQ # esc_string v @ DQ # r"]
      skip_string_plain [OF assms(2), of "CHR '':'' # DQ # esc_string v @ DQ # r"]
    by (subst find_key.simps) (simp add: json_field_def)
  moreover have "find_key key (CHR '':'' # DQ # esc_string v @ DQ # r) = find_key key r"
    using key_here_value [OF assms(1,3)] skip_string_escaped [of v r]
    by (subst find_key.simps) simp
  ultimately show ?thesis by simp
qed

lemma find_key_fields:
  assumes "plain key" "list_all (\<lambda>kv. plain (fst kv)) kvs"
  shows "case map_of kvs key of
       None \<Rightarrow> find_key key (json_fields kvs) = None
     | Some v \<Rightarrow> \<exists>r. find_key key (json_fields kvs) = Some (DQ # esc_string v @ DQ # r)"
  using assms(2)
proof (induction kvs rule: json_fields.induct)
  case 1
  then show ?case by (simp add: find_key.simps)
next
  case (2 kv)
  obtain k v where kv: "kv = (k, v)" by (cases kv)
  have "find_key key ''}'' = None" by (simp add: find_key.simps)
  with 2 kv find_key_field [OF assms(1), of k "''}''" "[]" v] show ?case by auto
next
  case (3 kv kv' kvs)
  obtain k v where kv: "kv = (k, v)" by (cases kv)
  have "find_key key (CHR '','' # json_fields (kv' # kvs)) = find_key key (json_fields (kv' # kvs))"
    using find_key_skip [of "[CHR '','']" key] by simp
  with 3 kv find_key_field [OF assms(1), of k "CHR '','' # json_fields (kv' # kvs)" _ v]
  show ?case by (cases "k = key") (auto split: option.splits if_split_asm)
qed

lemma find_key_object:
  "find_key key (json_object kvs) = find_key key (json_fields kvs)"
  using find_key_skip [of "[CHR ''{'']" key "json_fields kvs"] by (simp add: json_object_def)

text \<open>
  C30.  Reading back objects: in an object of string fields whose values are escaped as
  \<open>json_escape\<close> does, \<open>ctc_json_get_string\<close> returns for every key (one without quotes and
  backslashes) exactly the value of its first field, whatever bytes the values hold, when the
  buffer is large enough for it, and NULL for a key that is absent.  No value can pass for
  a key, close its string early or add a field.
\<close>

theorem json_object_roundtrip:
  assumes "plain key" and "list_all (\<lambda>kv. plain (fst kv)) kvs"
    and "list_all (\<lambda>kv. length (snd kv) < n) kvs"
  shows "ctc_json_get_string (json_object kvs) key n = Ret (map_of kvs key)"
proof (cases "map_of kvs key")
  case None
  with find_key_fields [OF assms(1,2)] have "find_key key (json_fields kvs) = None" by simp
  with None show ?thesis by (simp add: ctc_json_get_string_def find_key_object)
next
  case (Some v)
  with find_key_fields [OF assms(1,2)] obtain r where
    f: "find_key key (json_fields kvs) = Some (DQ # esc_string v @ DQ # r)" by auto
  have "length v < n" using Some assms(3) by (fastforce simp: list_all_iff dest: map_of_SomeD)
  with f Some show ?thesis
    by (simp add: ctc_json_get_string_def find_key_object isspace_def get_loop_escaped)
qed

theorem json_object_roundtrip_witness:
  "ctc_json_get_string (json_object [(''a'', [DQ, BSL, CHR 0x01, NL]), (''b'', ''x'')]) ''a'' 8
     = Ret (Some [DQ, BSL, CHR 0x01, NL])"
  using json_object_roundtrip [of "''a''" "[(''a'', [DQ, BSL, CHR 0x01, NL]), (''b'', ''x'')]" 8]
  by (simp add: plain_def)

subsection \<open>Unescaped fields\<close>

text \<open>Fields the agent prints with \<open>"%s"\<close> or \<open>%lld\<close>: the value stands as it is.\<close>

definition json_str_field :: "string \<Rightarrow> string \<Rightarrow> string" where
  "json_str_field k v = DQ # k @ DQ # CHR '':'' # DQ # v @ [DQ]"

definition json_raw_field :: "string \<Rightarrow> string \<Rightarrow> string" where
  "json_raw_field k v = DQ # k @ DQ # CHR '':'' # v"

fun commas :: "string list \<Rightarrow> string" where
  "commas [] = []"
| "commas [s] = s"
| "commas (s # t # ts) = s @ CHR '','' # commas (t # ts)"

definition jobj :: "string list \<Rightarrow> string" where
  "jobj fs = CHR ''{'' # commas fs @ ''}''"

definition json_error :: "string \<Rightarrow> string" where
  "json_error e = CHR ''{'' # json_str_field ''error'' e @ ''}''"

definition jbool :: "bool \<Rightarrow> string" where
  "jbool b = (if b then ''true'' else ''false'')"

lemma jbool_clean [simp]: "DQ \<notin> set (jbool b)"
  by (simp add: jbool_def)

interpretation jraw: char_escape "\<lambda>c. c \<noteq> BSL \<and> c \<noteq> DQ" "\<lambda>c. [c]" get_step DQ
  by unfold_locales simp_all

lemma get_loop_plain:
  assumes "length s < n" "plain s"
  shows "get_loop n (s @ DQ # r) [] = Ret s"
proof -
  have "get_loop n (concat (map (\<lambda>c. [c]) s) @ DQ # r) [] = get_loop n (DQ # r) ([] @ s)"
    by (rule jraw.loop_reads [where n = n])
       (use assms in \<open>auto simp: get_loop_step list_all_iff plain_def\<close>)
  then show ?thesis by (simp add: get_loop_end)
qed

lemma find_key_raw:
  assumes "plain key" "plain k" "DQ \<notin> set v"
  shows "find_key key (json_raw_field k v @ r) = (if k = key then Some (v @ r) else find_key key r)"
proof -
  have "find_key key (json_raw_field k v @ r) = (if k = key then Some (v @ r) else find_key key (CHR '':'' # v @ r))"
    using key_here_key [OF assms(1,2), of "v @ r"] skip_string_plain [OF assms(2), of "CHR '':'' # v @ r"]
    by (subst find_key.simps) (simp add: json_raw_field_def)
  also have "find_key key (CHR '':'' # v @ r) = find_key key r"
    using find_key_skip [of "CHR '':'' # v" key r] assms(3) by simp
  finally show ?thesis .
qed

lemma key_here_plain_value:
  assumes "plain key" "plain v" "r = CHR '','' # r' \<or> r = CHR ''}'' # r'"
  shows "key_here key (v @ DQ # r) = None"
proof (cases "is_prefix (key @ [DQ]) (v @ DQ # r)")
  case True
  with assms(1,2) have "key = v" using prefix_quote by (simp add: plain_def)
  with assms(3) show ?thesis by (auto simp: key_here_def isspace_def)
qed (simp add: key_here_def)

lemma find_key_str:
  assumes "plain key" "plain k" "plain v" "r = CHR '','' # r' \<or> r = CHR ''}'' # r'"
  shows "find_key key (json_str_field k v @ r) = (if k = key then Some (DQ # v @ DQ # r) else find_key key r)"
proof -
  have "find_key key (json_str_field k v @ r)
      = (if k = key then Some (DQ # v @ DQ # r) else find_key key (DQ # v @ DQ # r))"
    using find_key_raw [OF assms(1,2), of "[]" "DQ # v @ DQ # r"] by (simp add: json_raw_field_def json_str_field_def)
  also have "find_key key (DQ # v @ DQ # r) = find_key key r"
    using key_here_plain_value [OF assms(1,3,4)] skip_string_plain [OF assms(3), of r]
    by (subst find_key.simps) simp
  finally show ?thesis .
qed

lemma find_key_comma: "find_key key (CHR '','' # r) = find_key key r" "find_key key (CHR ''{'' # r) = find_key key r"
  using find_key_skip [of "[CHR '','']" key r] find_key_skip [of "[CHR ''{'']" key r] by simp_all

subsection \<open>The growing buffer\<close>

lemma esc_rep_length: "esc_rep c = Some r \<Longrightarrow> length r = (if is_ctl c then 6 else 2)"
  by (auto simp: esc_rep_def is_ctl_def split: if_splits)

lemma escape_loop_safe:
  assumes "\<And>n. alloc n" "length out < cap" "6 \<le> cap \<or> (cap = 5 \<and> length out + 2 * length s \<le> 4)"
  shows "escape_loop alloc cap out s = Ret (Some (out @ esc_string s))"
  using assms(2,3)
proof (induction s arbitrary: cap out)
  case (Cons c cs)
  show ?case
  proof (cases "esc_rep c")
    case None
    then have e: "esc_string (c # cs) = c # esc_string cs" by (simp add: esc_string_def esc_char_def)
    show ?thesis using Cons None assms(1) by (auto simp: e Let_def)
  next
    case (Some r)
    then have e: "esc_string (c # cs) = r @ esc_string cs" by (simp add: esc_string_def esc_char_def)
    show ?thesis using Cons Some assms(1) esc_rep_length [OF Some] by (auto simp: e Let_def split: if_splits)
  qed
qed (simp add: esc_string_def)

lemma json_escape_text:
  "json_escape (\<lambda>_. True) (Some s)
     = (if \<exists>c. s = [c] \<and> is_ctl c then Undef else Ret (Some (esc_string s)))"
proof -
  consider "s = []" | c where "s = [c]" | "2 \<le> length s"
    by (cases s rule: remdups_adj.cases) auto
  then show ?thesis
  proof cases
    case 1
    then show ?thesis by (simp add: json_escape_def esc_string_def)
  next
    case 2
    then show ?thesis
      using esc_rep_length [of c]
      by (cases "esc_rep c") (auto simp: json_escape_def esc_string_def esc_char_def is_ctl_def esc_rep_def split: if_splits)
  next
    case 3
    then have "6 \<le> length s * 2 + 1 \<or> (length s * 2 + 1 = 5 \<and> length [] + 2 * length s \<le> 4)" by auto
    with 3 show ?thesis using escape_loop_safe [of "\<lambda>_. True" "[]" "length s * 2 + 1" s]
      by (auto simp: json_escape_def Let_def)
  qed
qed

text \<open>
  The buffer of \<open>json_escape\<close>: with memory available, the routine writes past its buffer
  for exactly one kind of argument, a string that consists of a single control character
  other than newline, return and tab (six bytes are written into a buffer of six, and the NUL
  behind them).  On every other string it returns the escaped text, and all writes stay inside.
\<close>

lemma json_escape_buffer:
  "json_escape (\<lambda>_. True) (Some s)
     = (if \<exists>c. s = [c] \<and> is_ctl c then Undef else Ret (Some (esc_string s)))"
  by (rule json_escape_text)

end
