(* ===== verification/Tls.thy ===== *)
theory Tls
  imports AgentJson
begin

section \<open>TLS connections of the agent (clients/src/tls.c)\<close>

text \<open>
  The table that maps descriptors to TLS sessions, the certificate fingerprint check and the
  upgrade of a connection.  OpenSSL is a parameter: what \<open>SSL_CTX_new\<close>, \<open>SSL_new\<close> and
  \<open>SSL_connect\<close> answer, the DER encoding of the peer certificate, and SHA-256.
\<close>

definition MAX_TLS_MAP :: nat where
  "MAX_TLS_MAP = 16"

record tls_slot =
  slot_fd :: int
  slot_ssl :: "nat option"

type_synonym tls_map = "tls_slot list"

definition ssl_of :: "tls_map \<Rightarrow> int \<Rightarrow> nat option" where
  "ssl_of g_map fd =
     (case find_slot (\<lambda>s. slot_ssl s \<noteq> None \<and> slot_fd s = fd) g_map of
        None \<Rightarrow> None
      | Some i \<Rightarrow> slot_ssl (g_map ! i))"

definition map_set :: "int \<Rightarrow> nat \<Rightarrow> tls_map \<Rightarrow> tls_map" where
  "map_set fd ssl g_map =
     (case find_slot (\<lambda>s. slot_ssl s = None) g_map of
        None \<Rightarrow> g_map
      | Some i \<Rightarrow> g_map[i := \<lparr>slot_fd = fd, slot_ssl = Some ssl\<rparr>])"

definition map_del :: "int \<Rightarrow> tls_map \<Rightarrow> tls_map" where
  "map_del fd g_map =
     (case find_slot (\<lambda>s. slot_ssl s \<noteq> None \<and> slot_fd s = fd) g_map of
        None \<Rightarrow> g_map
      | Some i \<Rightarrow> g_map[i := (g_map ! i)\<lparr>slot_ssl := None\<rparr>])"

text \<open>Which transport a read or write of net.c goes through.\<close>

datatype transport = Plain int | Sealed nat

definition ctc_tls_io :: "tls_map \<Rightarrow> int \<Rightarrow> transport" where
  "ctc_tls_io g_map fd = (case ssl_of g_map fd of None \<Rightarrow> Plain fd | Some s \<Rightarrow> Sealed s)"

definition ctc_tls_active :: "tls_map \<Rightarrow> int \<Rightarrow> bool" where
  "ctc_tls_active g_map fd \<longleftrightarrow> ssl_of g_map fd \<noteq> None"

subsection \<open>The fingerprint\<close>

fun hex_pairs :: "string \<Rightarrow> byte list option" where
  "hex_pairs (a # b # r) =
     (case sscanf_x 2 (a # b # r) of
        None \<Rightarrow> None
      | Some v \<Rightarrow> map_option (Cons (char_of (nat (v mod 256)))) (hex_pairs r))"
| "hex_pairs _ = Some []"

definition hex2bin :: "string \<Rightarrow> nat \<Rightarrow> byte list option" where
  "hex2bin hex outlen =
     (if length hex mod 2 \<noteq> 0 \<or> length hex div 2 > outlen then None else hex_pairs hex)"

record tls_env =
  ctx_new_ok :: bool
  ssl_new :: "nat option"
  connect_ok :: bool
  peer_cert :: "byte list option"
  sha256 :: "byte list \<Rightarrow> byte list"

text \<open>
  \<open>i2d_X509\<close> writes the whole certificate into the array of 8192 bytes before its length is
  looked at.  The result is 0 or -1.
\<close>

definition check_fingerprint :: "tls_env \<Rightarrow> string \<Rightarrow> int outcome" where
  "check_fingerprint e expected_hex =
     (case peer_cert e of
        None \<Rightarrow> Ret (-1)
      | Some der \<Rightarrow>
          if int (length der) > 8192 then Undef
          else if der = [] then Ret (-1)
          else
            (case hex2bin expected_hex 32 of
               None \<Rightarrow> Ret (-1)
             | Some want \<Rightarrow>
                 if length want \<noteq> 32 then Ret (-1)
                 else Ret (if sha256 e der = want then 0 else -1)))"

record tls_state =
  g_ctx :: bool
  g_map :: tls_map

definition ctc_tls_wrap :: "tls_env \<Rightarrow> int \<Rightarrow> string option \<Rightarrow> tls_state \<Rightarrow> (tls_state \<times> int) outcome" where
  "ctc_tls_wrap e fd fingerprint_hex st =
     (if \<not> g_ctx st \<and> \<not> ctx_new_ok e then Ret (st, -1)
      else
        let st = st\<lparr>g_ctx := True\<rparr> in
        (case ssl_new e of
           None \<Rightarrow> Ret (st, -1)
         | Some ssl \<Rightarrow>
             if \<not> connect_ok e then Ret (st, -1)
             else
               (case fingerprint_hex of
                  None \<Rightarrow> Ret (st\<lparr>g_map := map_set fd ssl (g_map st)\<rparr>, 0)
                | Some fp \<Rightarrow>
                    if fp = [] then Ret (st\<lparr>g_map := map_set fd ssl (g_map st)\<rparr>, 0)
                    else
                      and_then (check_fingerprint e fp) (\<lambda>rc.
                        if rc \<noteq> 0 then Ret (st, -1)
                        else Ret (st\<lparr>g_map := map_set fd ssl (g_map st)\<rparr>, 0)))))"

definition ctc_tls_cleanup :: "int \<Rightarrow> tls_state \<Rightarrow> tls_state" where
  "ctc_tls_cleanup fd st =
     (case ssl_of (g_map st) fd of
        None \<Rightarrow> st
      | Some s \<Rightarrow> st\<lparr>g_map := map_del fd (g_map st)\<rparr>)"

subsection \<open>The table is a bounded map\<close>


definition slot_used :: "tls_slot \<Rightarrow> bool" where
  "slot_used s \<longleftrightarrow> slot_ssl s \<noteq> None"

interpretation tlsmap: slot_table slot_used slot_fd "\<lambda>s. s\<lparr>slot_ssl := None\<rparr>"
  by unfold_locales (simp add: slot_used_def)

lemma ssl_of_lookup: "ssl_of m fd = (case tlsmap.lookup m fd of None \<Rightarrow> None | Some s \<Rightarrow> slot_ssl s)"
  unfolding ssl_of_def tlsmap.lookup_def slot_used_def by (simp split: option.split)

lemma map_set_put:
  "map_set fd ssl m = (case tlsmap.put \<lparr>slot_fd = fd, slot_ssl = Some ssl\<rparr> m of None \<Rightarrow> m | Some m' \<Rightarrow> m')"
  unfolding map_set_def tlsmap.put_def slot_used_def by (simp split: option.split)

lemma map_del_del: "map_del fd m = tlsmap.del fd m"
  unfolding map_del_def tlsmap.del_def slot_used_def ..

lemma lookup_used: "tlsmap.lookup m fd = Some s \<Longrightarrow> slot_ssl s \<noteq> None"
  unfolding tlsmap.lookup_def slot_used_def by (auto simp: find_slot_Some)

lemma ssl_of_None: "ssl_of m fd = None \<longleftrightarrow> tlsmap.lookup m fd = None"
  using lookup_used [of m fd] by (auto simp: ssl_of_lookup split: option.splits)

text \<open>A new session is found under its descriptor unless every slot is taken.\<close>

lemma ssl_of_map_set:
  assumes "tlsmap.uniq m" "ssl_of m fd = None"
  shows "ssl_of (map_set fd ssl m) fd' =
    (if fd' = fd \<and> \<not> list_all slot_used m then Some ssl else ssl_of m fd')"
proof (cases "tlsmap.put \<lparr>slot_fd = fd, slot_ssl = Some ssl\<rparr> m")
  case None
  then have "list_all slot_used m" using tlsmap.put_None by blast
  with None show ?thesis by (simp add: map_set_put)
next
  case (Some m')
  then have "\<not> list_all slot_used m" using tlsmap.put_None by (metis option.distinct(1))
  moreover have "tlsmap.lookup m' fd' = (if fd' = fd then Some \<lparr>slot_fd = fd, slot_ssl = Some ssl\<rparr> else tlsmap.lookup m fd')"
    using tlsmap.lookup_put [OF assms(1) Some] assms(2) by (simp add: ssl_of_None slot_used_def)
  ultimately show ?thesis using Some by (auto simp: map_set_put ssl_of_lookup)
qed

lemma ssl_of_map_del:
  "tlsmap.uniq m \<Longrightarrow> ssl_of (map_del fd m) fd' = (if fd' = fd then None else ssl_of m fd')"
  by (simp add: ssl_of_lookup map_del_del tlsmap.lookup_del)

lemma map_set_uniq: "tlsmap.uniq m \<Longrightarrow> ssl_of m fd = None \<Longrightarrow> tlsmap.uniq (map_set fd ssl m)"
  by (auto simp: map_set_put ssl_of_None intro: tlsmap.put_uniq split: option.splits)

subsection \<open>Fingerprints in hexadecimal\<close>

definition bin2hex :: "byte list \<Rightarrow> string" where
  "bin2hex b = concat (map (\<lambda>c. [hexdigit (of_char c div 16), hexdigit (of_char c mod 16)]) b)"

lemma sscanf_2x:
  assumes "a < 16" "b < 16"
  shows "sscanf_x 2 (hexdigit a # hexdigit b # r) = Some (int (16 * a + b))"
proof -
  have "int (16 * a + b) mod 2 ^ 32 = int (16 * a + b)" using assms by (intro mod_pos_pos_trivial) simp_all
  moreover have "hexdigit a \<noteq> CHR ''-''" "hexdigit a \<noteq> CHR ''+''"
    using hexdigit_facts(1) [OF assms(1)] by (auto simp: isxdigit_def isdigit_def)
  ultimately show ?thesis using hexdigit_facts [OF assms(1)] hexdigit_facts [OF assms(2)]
    by (simp add: sscanf_x_def Let_def)
qed

lemma hex_pairs_bin2hex: "hex_pairs (bin2hex b) = Some b"
proof (induction b)
  case (Cons c b)
  have "of_char c < (256 :: nat)"
    using of_char_mod_256 [of c, where 'a = nat] by (metis mod_less_divisor zero_less_numeral)
  then have c: "of_char c div 16 < (16 :: nat)" by linarith
  have "char_of (of_char c mod 256 :: nat) = c" by simp
  with Cons sscanf_2x [OF c, of "of_char c mod 16"] show ?case
    by (simp add: bin2hex_def flip: of_nat_mod)
qed (simp add: bin2hex_def)

lemma hex2bin_bin2hex: "length b \<le> n \<Longrightarrow> hex2bin (bin2hex b) n = Some b"
proof -
  assume "length b \<le> n"
  moreover have "length (bin2hex b) = 2 * length b" by (induction b) (simp_all add: bin2hex_def)
  ultimately show ?thesis by (simp add: hex2bin_def hex_pairs_bin2hex)
qed

end
