(* ===== verification/TextLines.thy ===== *)
theory TextLines
  imports CPrelude
begin

section \<open>Reading text files by lines\<close>

text \<open>
  \<open>fgets\<close> into a buffer of \<open>n\<close> bytes: up to \<open>n - 1\<close> bytes, the newline included when it is
  reached.  \<open>fgets_lines\<close> is what the loop \<open>while (fgets(line, n, f))\<close> sees of a file; a line that
  does not fit arrives in pieces.  A file is the list of its bytes.
\<close>

definition fgets1 :: "nat \<Rightarrow> string \<Rightarrow> string" where
  "fgets1 n s =
     (let p = take (n - 1) s; l = takeWhile (\<lambda>c. c \<noteq> NL) p
      in if length l < length p then l @ [NL] else l)"


lemma fgets1_pos: "2 \<le> n \<Longrightarrow> s \<noteq> [] \<Longrightarrow> 0 < length (fgets1 n s)"
  by (cases s) (auto simp: fgets1_def Let_def take_Cons split: nat.splits)

function fgets_lines :: "nat \<Rightarrow> string \<Rightarrow> string list" where
  "fgets_lines n s =
     (if s = [] \<or> n < 2 then []
      else fgets1 n s # fgets_lines n (drop (length (fgets1 n s)) s))"
  by pat_completeness auto

termination
proof (relation "measure (\<lambda>(n, s). length s)")
  fix n :: nat and s :: string
  assume a: "\<not> (s = [] \<or> n < 2)"
  then have "0 < length (fgets1 n s)" by (intro fgets1_pos) simp_all
  with a show "((n, drop (length (fgets1 n s)) s), (n, s)) \<in> measure (\<lambda>(n, s). length s)" by simp
qed simp

declare fgets_lines.simps [simp del]

text \<open>A line as a program writes it: no newline but the last byte.\<close>

definition is_line :: "string \<Rightarrow> bool" where
  "is_line l \<longleftrightarrow> l \<noteq> [] \<and> last l = NL \<and> NL \<notin> set (butlast l)"

lemma is_line_iff: "is_line l \<longleftrightarrow> (\<exists>b. l = b @ [NL] \<and> NL \<notin> set b)"
  unfolding is_line_def by (metis append_butlast_last_id butlast_snoc last_snoc snoc_eq_iff_butlast)

lemma fgets1_line:
  assumes "NL \<notin> set b" "length b + 1 < n"
  shows "fgets1 n (b @ NL # r) = b @ [NL]"
proof -
  have t: "take (n - 1) (b @ NL # r) = b @ take (n - 1 - length b) (NL # r)" using assms by simp
  have "0 < n - 1 - length b" using assms(2) by linarith
  then obtain k where k: "n - 1 - length b = Suc k" by (rule gr0_implies_Suc [THEN exE])
  have "takeWhile (\<lambda>c. c \<noteq> NL) (b @ NL # take k r) = b"
    using assms(1) by (simp add: takeWhile_append)
  then show ?thesis unfolding fgets1_def t k by simp
qed

lemma fgets_lines_concat:
  assumes "list_all is_line ls" "list_all (\<lambda>l. length l < n) ls"
  shows "fgets_lines n (concat ls) = ls"
  using assms
proof (induction ls)
  case (Cons l ls)
  then obtain b where l: "l = b @ [NL]" "NL \<notin> set b" by (auto simp: is_line_iff)
  have "fgets1 n (concat (l # ls)) = l" using l Cons.prems fgets1_line [of b n "concat ls"] by simp
  moreover have "2 \<le> n" using Cons.prems l by simp
  ultimately show ?case using Cons l by (subst fgets_lines.simps) simp
qed (simp add: fgets_lines.simps)

subsection \<open>Trimming\<close>

definition trim :: "string \<Rightarrow> string" where
  "trim s = rev (dropWhile isspace (rev (dropWhile isspace s)))"

definition trimmed :: "string \<Rightarrow> bool" where
  "trimmed s \<longleftrightarrow> (s \<noteq> [] \<longrightarrow> \<not> isspace (hd s) \<and> \<not> isspace (last s))"

lemma dropWhile_hd: "s \<noteq> [] \<Longrightarrow> \<not> P (hd s) \<Longrightarrow> dropWhile P s = s"
  by (cases s) auto

lemma trim_id: "trimmed s \<Longrightarrow> trim s = s"
  by (cases "s = []") (simp_all add: trim_def trimmed_def dropWhile_hd hd_rev)

lemma isspace_NL [simp]: "isspace NL"
  by (simp add: isspace_def)

lemma trim_NL: "trimmed s \<Longrightarrow> trim (s @ [NL]) = s"
proof (cases s)
  case (Cons c t)
  assume a: "trimmed s"
  with Cons have "dropWhile isspace (s @ [NL]) = s @ [NL]" by (simp add: trimmed_def)
  moreover have "dropWhile isspace s = s" using a Cons by (simp add: trimmed_def)
  ultimately show ?thesis using trim_id [OF a] by (simp add: trim_def)
qed (simp add: trim_def)

lemma trimmed_show_int: "trimmed (show_int i)"
  unfolding trimmed_def using show_int_no_space [of _ i] by (metis hd_in_set last_in_set)

subsection \<open>Fields of a line\<close>

text \<open>
  \<open>sscanf(s, "%w1s %w2s ...", ...)\<close>: white space is skipped in front of every field, a field is at
  most \<open>w\<close> bytes without white space, and reading ends with the input.  The result is the fields
  read and what is left.
\<close>

fun sscanf_s :: "nat list \<Rightarrow> string \<Rightarrow> string list \<times> string" where
  "sscanf_s [] s = ([], s)"
| "sscanf_s (w # ws) s =
     (let t = dropWhile isspace s; f = take w (takeWhile (\<lambda>c. \<not> isspace c) t) in
      if f = [] then ([], t)
      else let r = sscanf_s ws (drop (length f) t) in (f # fst r, snd r))"

lemma sscanf_s_length: "length (fst (sscanf_s ws s)) \<le> length ws"
  by (induction ws s rule: sscanf_s.induct) (auto simp: Let_def)

lemma sscanf_s_width: "i < length (fst (sscanf_s ws s)) \<Longrightarrow> fst (sscanf_s ws s) ! i \<noteq> [] \<and> length (fst (sscanf_s ws s) ! i) \<le> ws ! i"
proof (induction ws s arbitrary: i rule: sscanf_s.induct)
  case (2 w ws s)
  then show ?case by (cases i) (auto simp: Let_def split: if_splits)
qed simp

end
