(* ===== verification/AgentConfig.thy ===== *)
theory AgentConfig
  imports TextLines AgentJson
begin

section \<open>Configuration of the agent (clients/src/config.c)\<close>

text \<open>
  The configuration of the agent and its file: defaults, reading, writing through a temporary
  file, the JSON answer to \<open>config_get\<close>, and the remote changes \<open>config_set\<close> allows.  A file
  system is a map from paths to contents; host name and interface addresses are parameters.
  A string field is the C string in the array, at most one byte shorter than the array.
\<close>

type_synonym fsys = "string \<Rightarrow> string option"

record ctc_config =
  server_host :: string
  server_hosts :: string
  server_port :: int
  agent_id :: string
  cfg_name :: string
  token :: string
  metrics_interval :: int
  heartbeat_interval :: int
  log_level :: int
  use_tls :: int
  tls_skip_verify :: int
  server_fingerprint :: string
  discover_enable :: int
  discover_port :: int
  bound_server_id :: string
  bound_server_ip :: string
  bound_server_port :: int
  approved :: int

subsection \<open>Defaults\<close>

definition generic_hostname :: "string option \<Rightarrow> bool" where
  "generic_hostname h =
     (case h of
        None \<Rightarrow> True
      | Some h \<Rightarrow>
          h = [] \<or>
          map tolower (take 127 h) \<in> set [''localhost'', ''localhost.localdomain'', ''openwrt'', ''istoreos'',
            ''router'', ''ubuntu'', ''debian'', ''fedora'', ''linux''])"

text \<open>
  The interface list of \<open>getifaddrs\<close>: \<open>None\<close> for an entry without an IPv4 address, otherwise the
  address in host order and what \<open>inet_ntop\<close> prints of it.
\<close>

type_synonym ifaddr = "(32 word \<times> string option) option"

fun primary_ipv4 :: "ifaddr list \<Rightarrow> string option" where
  "primary_ipv4 [] = None"
| "primary_ipv4 (None # r) = primary_ipv4 r"
| "primary_ipv4 (Some (a, t) # r) =
     (if drop_bit 24 a = 127 then primary_ipv4 r
      else case t of None \<Rightarrow> primary_ipv4 r | Some s \<Rightarrow> Some s)"

record host_env =
  env_hostname :: "string option"
  env_ifaddrs :: "ifaddr list option"

definition ctc_config_defaults :: "host_env \<Rightarrow> ctc_config" where
  "ctc_config_defaults e =
     (let cfg = \<lparr>server_host = ''127.0.0.1'', server_hosts = [], server_port = 9000, agent_id = [], cfg_name = [],
                 token = [], metrics_interval = 30, heartbeat_interval = 10, log_level = 1, use_tls = 0,
                 tls_skip_verify = 0, server_fingerprint = [], discover_enable = 0, discover_port = 0,
                 bound_server_id = [], bound_server_ip = [], bound_server_port = 0, approved = 0\<rparr>
      in
        case env_hostname e of
          None \<Rightarrow> cfg
        | Some h \<Rightarrow>
            let host = take 127 h;
                ip = (if generic_hostname (Some host)
                      then (case env_ifaddrs e of None \<Rightarrow> None | Some l \<Rightarrow> primary_ipv4 l) else None);
                who = (case ip of Some s \<Rightarrow> s | None \<Rightarrow> host)
            in cfg\<lparr>agent_id := snprintf_s 128 who, cfg_name := snprintf_s 128 who\<rparr>)"

subsection \<open>Reading\<close>

definition config_apply :: "string \<Rightarrow> string \<Rightarrow> ctc_config \<Rightarrow> ctc_config" where
  "config_apply k v cfg =
     (if k = ''server_host'' then
        (let cfg = cfg\<lparr>server_hosts := snprintf_s 512 v\<rparr> in
         if CHR '','' \<in> set v then cfg\<lparr>server_host := take 127 (takeWhile (\<lambda>c. c \<noteq> CHR '','') v)\<rparr>
         else cfg\<lparr>server_host := snprintf_s 128 v\<rparr>)
      else if k = ''server_port'' then cfg\<lparr>server_port := atoi v\<rparr>
      else if k = ''agent_id'' then cfg\<lparr>agent_id := snprintf_s 128 v\<rparr>
      else if k = ''name'' then cfg\<lparr>cfg_name := snprintf_s 128 v\<rparr>
      else if k = ''token'' then cfg\<lparr>token := snprintf_s 256 v\<rparr>
      else if k = ''metrics_interval'' then cfg\<lparr>metrics_interval := atoi v\<rparr>
      else if k = ''heartbeat_interval'' then cfg\<lparr>heartbeat_interval := atoi v\<rparr>
      else if k = ''log_level'' then cfg\<lparr>log_level := atoi v\<rparr>
      else if k = ''use_tls'' then cfg\<lparr>use_tls := atoi v\<rparr>
      else if k = ''tls_skip_verify'' then cfg\<lparr>tls_skip_verify := atoi v\<rparr>
      else if k = ''server_fingerprint'' then cfg\<lparr>server_fingerprint := snprintf_s 128 v\<rparr>
      else if k = ''discover_enable'' then cfg\<lparr>discover_enable := atoi v\<rparr>
      else if k = ''discover_port'' then cfg\<lparr>discover_port := atoi v\<rparr>
      else if k = ''bound_server_id'' then cfg\<lparr>bound_server_id := snprintf_s 128 v\<rparr>
      else if k = ''bound_server_ip'' then cfg\<lparr>bound_server_ip := snprintf_s 64 v\<rparr>
      else if k = ''bound_server_port'' then cfg\<lparr>bound_server_port := atoi v\<rparr>
      else if k = ''approved'' then cfg\<lparr>approved := atoi v\<rparr>
      else cfg)"

definition config_line :: "ctc_config \<Rightarrow> string \<Rightarrow> ctc_config" where
  "config_line cfg buf =
     (let line = cstr buf in
      if is_prefix ''#'' line \<or> is_prefix '';'' line then cfg
      else
        (case strchr line CHR ''='' of
           None \<Rightarrow> cfg
         | Some eq \<Rightarrow> config_apply (trim (takeWhile (\<lambda>c. c \<noteq> CHR ''='') line)) (trim (drop 1 eq)) cfg))"

definition ctc_config_load :: "host_env \<Rightarrow> fsys \<Rightarrow> string \<Rightarrow> ctc_config \<times> int" where
  "ctc_config_load e fs path =
     (let cfg = ctc_config_defaults e in
      case fs path of
        None \<Rightarrow> (cfg, -1)
      | Some content \<Rightarrow> (foldl config_line cfg (fgets_lines 512 content), 0))"

subsection \<open>Writing\<close>

definition kv_line :: "string \<Rightarrow> string \<Rightarrow> string" where
  "kv_line k v = k @ CHR ''='' # v @ [NL]"

definition config_lines :: "ctc_config \<Rightarrow> string list" where
  "config_lines cfg =
     [''# ctforge agent config'' @ [NL],
      kv_line ''server_host'' (server_host cfg),
      kv_line ''server_port'' (show_int (server_port cfg)),
      kv_line ''agent_id'' (agent_id cfg),
      kv_line ''name'' (cfg_name cfg),
      kv_line ''token'' (token cfg),
      kv_line ''metrics_interval'' (show_int (metrics_interval cfg)),
      kv_line ''heartbeat_interval'' (show_int (heartbeat_interval cfg)),
      kv_line ''log_level'' (show_int (log_level cfg)),
      kv_line ''use_tls'' (show_int (use_tls cfg)),
      kv_line ''tls_skip_verify'' (show_int (tls_skip_verify cfg)),
      kv_line ''server_fingerprint'' (server_fingerprint cfg),
      kv_line ''discover_enable'' (show_int (discover_enable cfg)),
      kv_line ''discover_port'' (show_int (discover_port cfg)),
      kv_line ''bound_server_id'' (bound_server_id cfg),
      kv_line ''bound_server_ip'' (bound_server_ip cfg),
      kv_line ''bound_server_port'' (show_int (bound_server_port cfg)),
      kv_line ''approved'' (show_int (approved cfg))]"

text \<open>
  Writing goes to \<open>path.tmp\<close> and is made visible by \<open>rename\<close>; \<open>open_ok\<close> and \<open>rename_ok\<close> are the
  answers of the system.
\<close>

definition ctc_config_save ::
  "(string \<Rightarrow> bool) \<Rightarrow> bool \<Rightarrow> ctc_config \<Rightarrow> string \<Rightarrow> fsys \<Rightarrow> fsys \<times> int"
where
  "ctc_config_save open_ok rename_ok cfg path fs =
     (let tmp = snprintf_s 512 (path @ ''.tmp'') in
      if \<not> open_ok tmp then (fs, -1)
      else
        let fs = fs(tmp \<mapsto> concat (config_lines cfg)) in
        if \<not> rename_ok then (fs, -1)
        else ((fs(path := fs tmp))(tmp := (if tmp = path then fs tmp else None)), 0))"

subsection \<open>Remote access\<close>

definition ctc_config_to_json :: "bool \<Rightarrow> ctc_config \<Rightarrow> string option" where
  "ctc_config_to_json mem_ok cfg =
     (if \<not> mem_ok then None
      else Some (snprintf_s 2048 (
        CHR ''{'' # DQ # ''config'' @ DQ # '':{'' @
        json_str_field ''server_host'' (server_host cfg) @ '','' @
        json_str_field ''server_port'' (show_int (server_port cfg)) @ '','' @
        json_str_field ''agent_id'' (agent_id cfg) @ '','' @
        json_str_field ''name'' (cfg_name cfg) @ '','' @
        json_str_field ''metrics_interval'' (show_int (metrics_interval cfg)) @ '','' @
        json_str_field ''heartbeat_interval'' (show_int (heartbeat_interval cfg)) @ '','' @
        json_str_field ''log_level'' (show_int (log_level cfg)) @ '','' @
        json_str_field ''use_tls'' (show_int (use_tls cfg)) @ '','' @
        json_str_field ''discover_enable'' (show_int (discover_enable cfg)) @ '','' @
        json_str_field ''discover_port'' (show_int (discover_port cfg)) @ ''}}'')))"

definition ctc_config_set :: "ctc_config \<Rightarrow> string \<Rightarrow> string \<Rightarrow> ctc_config \<times> int" where
  "ctc_config_set cfg key v =
     (if key = ''server_host'' then (cfg\<lparr>server_host := snprintf_s 128 v\<rparr>, 0)
      else if key = ''server_port'' then (cfg\<lparr>server_port := atoi v\<rparr>, 0)
      else if key = ''name'' then (cfg\<lparr>cfg_name := snprintf_s 128 v\<rparr>, 0)
      else if key = ''metrics_interval''
        then (if atoi v \<ge> 5 then cfg\<lparr>metrics_interval := atoi v\<rparr> else cfg, 0)
      else if key = ''heartbeat_interval''
        then (if atoi v \<ge> 3 then cfg\<lparr>heartbeat_interval := atoi v\<rparr> else cfg, 0)
      else if key = ''log_level'' then (cfg\<lparr>log_level := atoi v\<rparr>, 0)
      else if key = ''discover_enable''
        then (cfg\<lparr>discover_enable := (if atoi v \<noteq> 0 then 1 else 0)\<rparr>, 0)
      else if key = ''discover_port''
        then (if atoi v > 0 \<and> atoi v < 65536 then cfg\<lparr>discover_port := atoi v\<rparr> else cfg, 0)
      else if key = ''server_fingerprint'' then (cfg\<lparr>server_fingerprint := snprintf_s 128 v\<rparr>, 0)
      else (cfg, -1))"

subsection \<open>Saving and loading\<close>

lemma config_apply_keys:
  "config_apply ''server_host'' v cfg =
     (if CHR '','' \<in> set v
      then cfg\<lparr>server_hosts := snprintf_s 512 v, server_host := take 127 (takeWhile (\<lambda>c. c \<noteq> CHR '','') v)\<rparr>
      else cfg\<lparr>server_hosts := snprintf_s 512 v, server_host := snprintf_s 128 v\<rparr>)"
  "config_apply ''server_port'' v cfg = cfg\<lparr>server_port := atoi v\<rparr>"
  "config_apply ''agent_id'' v cfg = cfg\<lparr>agent_id := snprintf_s 128 v\<rparr>"
  "config_apply ''name'' v cfg = cfg\<lparr>cfg_name := snprintf_s 128 v\<rparr>"
  "config_apply ''token'' v cfg = cfg\<lparr>token := snprintf_s 256 v\<rparr>"
  "config_apply ''metrics_interval'' v cfg = cfg\<lparr>metrics_interval := atoi v\<rparr>"
  "config_apply ''heartbeat_interval'' v cfg = cfg\<lparr>heartbeat_interval := atoi v\<rparr>"
  "config_apply ''log_level'' v cfg = cfg\<lparr>log_level := atoi v\<rparr>"
  "config_apply ''use_tls'' v cfg = cfg\<lparr>use_tls := atoi v\<rparr>"
  "config_apply ''tls_skip_verify'' v cfg = cfg\<lparr>tls_skip_verify := atoi v\<rparr>"
  "config_apply ''server_fingerprint'' v cfg = cfg\<lparr>server_fingerprint := snprintf_s 128 v\<rparr>"
  "config_apply ''discover_enable'' v cfg = cfg\<lparr>discover_enable := atoi v\<rparr>"
  "config_apply ''discover_port'' v cfg = cfg\<lparr>discover_port := atoi v\<rparr>"
  "config_apply ''bound_server_id'' v cfg = cfg\<lparr>bound_server_id := snprintf_s 128 v\<rparr>"
  "config_apply ''bound_server_ip'' v cfg = cfg\<lparr>bound_server_ip := snprintf_s 64 v\<rparr>"
  "config_apply ''bound_server_port'' v cfg = cfg\<lparr>bound_server_port := atoi v\<rparr>"
  "config_apply ''approved'' v cfg = cfg\<lparr>approved := atoi v\<rparr>"
  by (simp_all add: config_apply_def)

definition good_str :: "nat \<Rightarrow> string \<Rightarrow> bool" where
  "good_str n s \<longleftrightarrow> length s < n \<and> trimmed s \<and> NL \<notin> set s \<and> is_cstr s"

definition good_config :: "ctc_config \<Rightarrow> bool" where
  "good_config cfg \<longleftrightarrow>
     good_str 128 (server_host cfg) \<and> CHR '','' \<notin> set (server_host cfg) \<and>
     good_str 128 (agent_id cfg) \<and> good_str 128 (cfg_name cfg) \<and> good_str 256 (token cfg) \<and>
     good_str 128 (server_fingerprint cfg) \<and> good_str 128 (bound_server_id cfg) \<and> good_str 64 (bound_server_ip cfg) \<and>
     list_all int32 [server_port cfg, metrics_interval cfg, heartbeat_interval cfg, log_level cfg, use_tls cfg,
       tls_skip_verify cfg, discover_enable cfg, discover_port cfg, bound_server_port cfg, approved cfg]"

definition is_key :: "string \<Rightarrow> bool" where
  "is_key k \<longleftrightarrow> k \<noteq> [] \<and> length k < 20 \<and> list_all (\<lambda>c. islower c \<or> c = CHR ''_'') k"

lemma is_key_facts:
  assumes "is_key k"
  shows "trimmed k" "CHR ''='' \<notin> set k" "is_cstr k" "NL \<notin> set k" "\<not> is_prefix ''#'' (k @ r)" "\<not> is_prefix '';'' (k @ r)"
proof -
  have c: "\<And>c. c \<in> set k \<Longrightarrow> islower c \<or> c = CHR ''_''" and k: "k \<noteq> []"
    using assms by (auto simp: is_key_def list_all_iff)
  have bad: "\<not> (islower c \<or> c = CHR ''_'')" if "c \<in> {CHR ''='', NUL, NL, CHR ''#'', CHR '';'', CHR '' '', CHR 0x09, CHR 0x0B, CHR 0x0C, CHR 0x0D}" for c
    using that by (auto simp: islower_def)
  show "CHR ''='' \<notin> set k" "is_cstr k" "NL \<notin> set k" using c bad unfolding is_cstr_def by blast+
  have "\<not> isspace c" if "c \<in> set k" for c
    using c [OF that] bad [of c] unfolding isspace_def by auto
  then show "trimmed k" using k by (simp add: trimmed_def)
  obtain x xs where "k = x # xs" using k by (cases k) auto
  then show "\<not> is_prefix ''#'' (k @ r)" "\<not> is_prefix '';'' (k @ r)" using c [of x] bad [of x] by auto
qed

lemma config_line_kv:
  assumes "is_key k" "trimmed v" "is_cstr v"
  shows "config_line cfg (kv_line k v) = config_apply k v cfg"
proof -
  note f = is_key_facts [OF assms(1)]
  have "cstr (kv_line k v) = kv_line k v" using f(3) assms(3) by (simp add: kv_line_def)
  moreover have "strchr (kv_line k v) CHR ''='' = Some (CHR ''='' # v @ [NL])"
    using f(2) by (simp add: kv_line_def strchr_here)
  moreover have "takeWhile (\<lambda>c. c \<noteq> CHR ''='') (kv_line k v) = k"
    using f(2) by (auto simp: kv_line_def takeWhile_append)
  ultimately show ?thesis using f(5,6) trim_id [OF f(1)] trim_NL [OF assms(2)]
    by (simp add: config_line_def kv_line_def)
qed

lemma kv_line_is_line:
  assumes "is_key k" "NL \<notin> set v" shows "is_line (kv_line k v)"
  using assms is_key_facts(4) [OF assms(1)] by (auto simp: is_line_iff kv_line_def)

definition config_fields :: "ctc_config \<Rightarrow> (string \<times> string) list" where
  "config_fields cfg =
     [(''server_host'', server_host cfg), (''server_port'', show_int (server_port cfg)),
      (''agent_id'', agent_id cfg), (''name'', cfg_name cfg), (''token'', token cfg),
      (''metrics_interval'', show_int (metrics_interval cfg)), (''heartbeat_interval'', show_int (heartbeat_interval cfg)),
      (''log_level'', show_int (log_level cfg)), (''use_tls'', show_int (use_tls cfg)),
      (''tls_skip_verify'', show_int (tls_skip_verify cfg)), (''server_fingerprint'', server_fingerprint cfg),
      (''discover_enable'', show_int (discover_enable cfg)), (''discover_port'', show_int (discover_port cfg)),
      (''bound_server_id'', bound_server_id cfg), (''bound_server_ip'', bound_server_ip cfg),
      (''bound_server_port'', show_int (bound_server_port cfg)), (''approved'', show_int (approved cfg))]"

lemma config_lines_fields:
  "config_lines cfg = (''# ctforge agent config'' @ [NL]) # map (\<lambda>(k, v). kv_line k v) (config_fields cfg)"
  by (simp add: config_lines_def config_fields_def)

lemma config_keys: "list_all (\<lambda>(k, v). is_key k) (config_fields cfg)"
  by (simp add: config_fields_def is_key_def islower_def)

lemma good_str_show_int: "int32 i \<Longrightarrow> good_str 256 (show_int i)"
  using length_show_int32 [of i] trimmed_show_int [of i] by (simp add: good_str_def)

lemma good_str_mono: "good_str m s \<Longrightarrow> m \<le> n \<Longrightarrow> good_str n s"
  by (simp add: good_str_def)

lemma config_values: "good_config cfg \<Longrightarrow> list_all (\<lambda>(k, v). good_str 256 v) (config_fields cfg)"
  by (simp add: config_fields_def good_config_def good_str_show_int)
     (auto intro: good_str_mono [of 128 _ 256] good_str_mono [of 64 _ 256])

text \<open>A file of a comment and of key lines is read field by field.\<close>

lemma read_fields:
  assumes "list_all (\<lambda>(k, v). is_key k) kvs" "list_all (\<lambda>(k, v). good_str 256 v) kvs"
  shows "foldl config_line cfg (fgets_lines 512 (concat ((''# ctforge agent config'' @ [NL]) # map (\<lambda>(k, v). kv_line k v) kvs)))
       = foldl (\<lambda>c (k, v). config_apply k v c) cfg kvs"
proof -
  let ?ls = "(''# ctforge agent config'' @ [NL]) # map (\<lambda>(k, v). kv_line k v) kvs"
  have "list_all is_line ?ls"
    using assms by (auto simp: list_all_iff is_line_def good_str_def intro!: kv_line_is_line [unfolded is_line_def] dest!: bspec)
  moreover have "list_all (\<lambda>l. length l < 512) ?ls"
    using assms by (fastforce simp: list_all_iff kv_line_def good_str_def is_key_def)
  ultimately have "fgets_lines 512 (concat ?ls) = ?ls" by (rule fgets_lines_concat)
  moreover have "config_line c (''# ctforge agent config'' @ [NL]) = c" for c
    by (simp add: config_line_def cstr_def)
  moreover have "foldl config_line c (map (\<lambda>(k, v). kv_line k v) kvs) = foldl (\<lambda>c (k, v). config_apply k v c) c kvs" for c
    using assms
  proof (induction kvs arbitrary: c)
    case (Cons kv kvs)
    then show ?case by (cases kv) (simp add: config_line_kv good_str_def)
  qed simp
  ultimately show ?thesis by simp
qed

lemma apply_fields:
  assumes "good_config cfg"
  shows "foldl (\<lambda>c (k, v). config_apply k v c) d (config_fields cfg) = cfg\<lparr>server_hosts := server_host cfg\<rparr>"
  using assms by (simp add: config_fields_def config_apply_keys good_config_def good_str_def)

lemma load_saved:
  assumes "good_config cfg" "fs path = Some (concat (config_lines cfg))"
  shows "ctc_config_load e fs path = (cfg\<lparr>server_hosts := server_host cfg\<rparr>, 0)"
  using read_fields [OF config_keys config_values [OF assms(1)], where cfg = "ctc_config_defaults e"]
    apply_fields [OF assms(1)] assms(2)
  by (simp add: ctc_config_load_def config_lines_fields)

text \<open>
  C20.  Saving and loading the agent's configuration: after a successful save, a load of the
  same path gives the saved configuration back, with one exception that holds for every
  configuration: the list of candidate servers is not written, so \<open>server_hosts\<close> comes back as
  the single \<open>server_host\<close>.  The strings must fit their arrays, be trimmed and hold no newline.
\<close>

theorem config_save_load:
  assumes "good_config cfg" "ctc_config_save (\<lambda>_. True) True cfg path fs = (fs', rc)"
  shows "rc = 0 \<and> ctc_config_load e fs' path = (cfg\<lparr>server_hosts := server_host cfg\<rparr>, 0)"
proof -
  have "rc = 0" "fs' path = Some (concat (config_lines cfg))"
    using assms(2) by (auto simp: ctc_config_save_def Let_def split: if_splits)
  with load_saved [OF assms(1)] show ?thesis by simp
qed

definition sample_config :: ctc_config where
  "sample_config =
     \<lparr>server_host = ''10.0.0.1'', server_hosts = [], server_port = 9000, agent_id = ''a'', cfg_name = ''n'',
      token = ''t'', metrics_interval = 30, heartbeat_interval = 10, log_level = 1, use_tls = 1,
      tls_skip_verify = 0, server_fingerprint = ''ab'', discover_enable = 0, discover_port = 9001,
      bound_server_id = ''s'', bound_server_ip = ''10.0.0.1'', bound_server_port = 9000, approved = 1\<rparr>"

lemma sample_config_good: "good_config sample_config"
  by (simp add: good_config_def sample_config_def good_str_def trimmed_def isspace_def int32_def)

theorem config_save_load_witness:
  "ctc_config_load \<lparr>env_hostname = None, env_ifaddrs = None\<rparr>
       (fst (ctc_config_save (\<lambda>_. True) True sample_config ''/c'' (\<lambda>_. None))) ''/c''
     = (sample_config\<lparr>server_hosts := ''10.0.0.1''\<rparr>, 0)"
proof -
  have h: "server_host sample_config = ''10.0.0.1''" by (simp add: sample_config_def)
  show ?thesis
    using config_save_load [OF sample_config_good, of "''/c''" "\<lambda>_. None"] unfolding h
    by (metis prod.collapse)
qed

text \<open>
  C38.  Remote changes of the configuration: \<open>ctc_config_set\<close> refuses to change \<open>use_tls\<close> (and
  the agent id and the token), and it does leave the field alone; but it takes a fingerprint
  that holds a newline, the save writes it as it is, and the next load reads the rest as a line
  of its own: TLS is switched off.
\<close>

theorem config_set_injects_line:
  assumes "good_config cfg"
    and "ctc_config_set cfg ''server_fingerprint'' (NL # ''use_tls=0'') = (cfg', rc)"
    and "ctc_config_save (\<lambda>_. True) True cfg' path fs = (fs', rc')"
  shows "snd (ctc_config_set cfg ''use_tls'' v) = -1 \<and> rc = 0 \<and> use_tls cfg' = use_tls cfg \<and>
    ctc_config_load e fs' path = (cfg\<lparr>server_hosts := server_host cfg, server_fingerprint := [], use_tls := 0\<rparr>, 0)"
proof -
  let ?kvs = "take 10 (config_fields cfg) @ [(''server_fingerprint'', []), (''use_tls'', ''0'')] @ drop 11 (config_fields cfg)"
  have c: "cfg' = cfg\<lparr>server_fingerprint := NL # ''use_tls=0''\<rparr>" "rc = 0"
    using assms(2) by (simp_all add: ctc_config_set_def)
  have "concat (config_lines cfg') = concat ((''# ctforge agent config'' @ [NL]) # map (\<lambda>(k, v). kv_line k v) ?kvs)"
    by (simp add: c config_lines_fields config_fields_def kv_line_def)
  moreover have "fs' path = Some (concat (config_lines cfg'))"
    using assms(3) by (auto simp: ctc_config_save_def Let_def split: if_splits)
  moreover have "list_all (\<lambda>(k, v). is_key k) ?kvs"
    using config_keys [of cfg] by (auto simp: list_all_iff is_key_def islower_def dest!: in_set_takeD in_set_dropD)
  moreover have "list_all (\<lambda>(k, v). good_str 256 v) ?kvs"
    using config_values [OF assms(1)]
    by (auto simp: list_all_iff good_str_def trimmed_def isspace_def dest!: in_set_takeD in_set_dropD)
  moreover have "foldl (\<lambda>c (k, v). config_apply k v c) d ?kvs
      = cfg\<lparr>server_hosts := server_host cfg, server_fingerprint := [], use_tls := 0\<rparr>" for d
  proof -
    have "atoi ''0'' = 0" by code_simp
    then show ?thesis using assms(1)
      by (simp add: config_fields_def config_apply_keys good_config_def good_str_def)
  qed
  ultimately have "ctc_config_load e fs' path = (cfg\<lparr>server_hosts := server_host cfg, server_fingerprint := [], use_tls := 0\<rparr>, 0)"
    using read_fields [of ?kvs "ctc_config_defaults e"] by (simp add: ctc_config_load_def)
  then show ?thesis using c by (simp add: ctc_config_set_def)
qed

theorem config_set_injects_line_witness:
  "use_tls sample_config = 1 \<and>
   use_tls (fst (ctc_config_load \<lparr>env_hostname = None, env_ifaddrs = None\<rparr>
     (fst (ctc_config_save (\<lambda>_. True) True
       (fst (ctc_config_set sample_config ''server_fingerprint'' (NL # ''use_tls=0''))) ''/c'' (\<lambda>_. None))) ''/c'')) = 0"
  using config_set_injects_line [where path = "''/c''" and fs = "\<lambda>_. None" and v = "[]" and
    e = "\<lparr>env_hostname = None, env_ifaddrs = None\<rparr>", OF sample_config_good surjective_pairing surjective_pairing]
  by (simp add: sample_config_def)

end
