(* ===== verification/Frames.thy ===== *)
theory Frames
  imports AgentJson
begin

section \<open>Frames of the control connection (clients/src/net.c)\<close>

text \<open>
  Messages between agent and server: a four-byte big-endian length and a JSON object.  The
  answers of the calls to \<open>ctc_tls_write\<close> and \<open>ctc_tls_read\<close> are a parameter: \<open>ans k n\<close> is the
  return value of the \<open>k\<close>th call, made for \<open>n\<close> bytes, and whether \<open>errno\<close> is \<open>EINTR\<close> after it.
  The loops over them repeat on \<open>EINTR\<close> and so may not end; they are partial functions.
\<close>

type_synonym io_answers = "nat \<Rightarrow> nat \<Rightarrow> int \<times> bool"

definition CTC_MAX_MSG :: int where
  "CTC_MAX_MSG = 33554432"

definition CTC_PROTO_VERSION :: int where
  "CTC_PROTO_VERSION = 1"

text \<open>The result is the return value, the number of calls so far and the bytes written.\<close>

partial_function (option) write_all ::
  "io_answers \<Rightarrow> nat \<Rightarrow> byte list \<Rightarrow> byte list \<Rightarrow> (int \<times> nat \<times> byte list) option"
where
  "write_all ans k p sent =
     (if p = [] then Some (0, k, sent)
      else
        let w = fst (ans k (length p)); eintr = snd (ans k (length p)) in
        if w \<le> 0 then
          if eintr then write_all ans (k + 1) p sent else Some (-1, k + 1, sent)
        else write_all ans (k + 1) (drop (nat w) p) (sent @ take (nat w) p))"

text \<open>The result is the return value, the number of calls, the rest of the input and the bytes read.\<close>

partial_function (option) read_all ::
  "io_answers \<Rightarrow> nat \<Rightarrow> byte list \<Rightarrow> nat \<Rightarrow> byte list \<Rightarrow> (int \<times> nat \<times> byte list \<times> byte list) option"
where
  "read_all ans k input n buf =
     (if n = 0 then Some (0, k, input, buf)
      else
        let r = fst (ans k n); eintr = snd (ans k n) in
        if r \<le> 0 then
          if eintr then read_all ans (k + 1) input n buf else Some (-1, k + 1, input, buf)
        else read_all ans (k + 1) (drop (nat r) input) (n - nat r) (buf @ take (nat r) input))"

declare write_all.simps [code] read_all.simps [code]

definition htonl :: "nat \<Rightarrow> byte list" where
  "htonl n = map char_of [n div 16777216, n div 65536 mod 256, n div 256 mod 256, n mod 256]"

definition ntohl :: "byte list \<Rightarrow> nat" where
  "ntohl b = of_char (b ! 0) * 16777216 + of_char (b ! 1) * 65536 + of_char (b ! 2) * 256 + of_char (b ! 3)"

definition send_frame :: "io_answers \<Rightarrow> nat \<Rightarrow> string \<Rightarrow> (int \<times> nat \<times> byte list) option" where
  "send_frame ans k json =
     (let len = int (length json) mod 2 ^ 32 in
      if len = 0 \<or> len > CTC_MAX_MSG then Some (-1, k, [])
      else
        (case write_all ans k (htonl (nat len)) [] of
           None \<Rightarrow> None
         | Some (rc, k, sent) \<Rightarrow>
             if rc < 0 then Some (-1, k, sent) else write_all ans k (take (nat len) json) sent))"

text \<open>
  The \<open>snprintf\<close> calls of \<open>ctc_send\<close> into a buffer of \<open>cap\<close> bytes: \<open>n\<close> grows by the length of
  every part, and a call at an offset past the buffer writes outside it.
\<close>

fun put_parts :: "nat \<Rightarrow> string \<Rightarrow> string list \<Rightarrow> string outcome" where
  "put_parts cap t [] = Ret (take (cap - 1) t)"
| "put_parts cap t (p # ps) = (if length t > cap then Undef else put_parts cap (t @ p) ps)"

definition opt_len :: "string option \<Rightarrow> nat" where
  "opt_len s = (case s of None \<Rightarrow> 0 | Some t \<Rightarrow> length t)"

definition opt_part :: "string \<Rightarrow> string option \<Rightarrow> string list" where
  "opt_part key s =
     (case s of
        None \<Rightarrow> []
      | Some t \<Rightarrow> if t = [] then [] else [CHR '','' # DQ # key @ DQ # CHR '':'' # DQ # t @ [DQ]])"

definition send_parts :: "string \<Rightarrow> string option \<Rightarrow> string option \<Rightarrow> string option \<Rightarrow> string list" where
  "send_parts etype msgid session_id payload_json =
     [CHR ''{'' # DQ # ''type'' @ DQ # CHR '':'' # DQ # etype
        @ DQ # CHR '','' # DQ # ''version'' @ DQ # CHR '':'' # show_int CTC_PROTO_VERSION]
     @ opt_part ''id'' msgid
     @ opt_part ''session_id'' session_id
     @ (case payload_json of
          None \<Rightarrow> []
        | Some p \<Rightarrow> [CHR '','' # DQ # ''payload'' @ DQ # CHR '':'' # p])
     @ [''}'']"

definition ctc_send ::
  "(nat \<Rightarrow> bool) \<Rightarrow> io_answers \<Rightarrow> nat \<Rightarrow> string \<Rightarrow> string option \<Rightarrow> string option \<Rightarrow> string option
     \<Rightarrow> (int \<times> nat \<times> byte list) outcome option"
where
  "ctc_send alloc ans k mtype msgid session_id payload_json =
     (case json_escape alloc (Some mtype) of
        Exited \<Rightarrow> Some Exited
      | Undef \<Rightarrow> Some Undef
      | Ret et \<Rightarrow>
          let cap = 256 + opt_len msgid + opt_len session_id + opt_len payload_json in
          (case et of
             None \<Rightarrow> Some (Ret (-1, k, []))
           | Some etype \<Rightarrow>
               if \<not> alloc cap then Some (Ret (-1, k, []))
               else
                 (case put_parts cap [] (send_parts etype msgid session_id payload_json) of
                    Ret buf \<Rightarrow> map_option Ret (send_frame ans k buf)
                  | Exited \<Rightarrow> Some Exited
                  | Undef \<Rightarrow> Some Undef)))"

definition ctc_send_simple ::
  "(nat \<Rightarrow> bool) \<Rightarrow> io_answers \<Rightarrow> nat \<Rightarrow> string \<Rightarrow> string option \<Rightarrow> (int \<times> nat \<times> byte list) outcome option"
where
  "ctc_send_simple alloc ans k mtype payload_json = ctc_send alloc ans k mtype None None payload_json"

text \<open>The bytes up to a quote that does not follow a backslash; \<open>prv\<close> is the byte before.\<close>

fun upto_quote :: "char \<Rightarrow> string \<Rightarrow> string" where
  "upto_quote prv [] = []"
| "upto_quote prv (c # cs) = (if c = DQ \<and> prv \<noteq> BSL then [] else c # upto_quote c cs)"

definition dup_field_raw :: "string \<Rightarrow> string \<Rightarrow> string option" where
  "dup_field_raw json key =
     (let pat = snprintf_s 64 (DQ # key @ [DQ]) in
      case strstr json pat of
        None \<Rightarrow> None
      | Some p \<Rightarrow>
          let p = dropWhile (\<lambda>c. c = CHR '' '' \<or> c = CHR '':'' \<or> c = CHR 0x09) (drop (length pat) p) in
          (case p of
             c # r \<Rightarrow>
               if c = DQ then Some (upto_quote c r)
               else Some (takeWhile (\<lambda>c. c \<noteq> CHR '','' \<and> c \<noteq> CHR ''}'') p)
           | [] \<Rightarrow> Some []))"

fun payload_scan :: "int \<Rightarrow> bool \<Rightarrow> bool \<Rightarrow> string \<Rightarrow> string option" where
  "payload_scan depth in_str esc [] = None"
| "payload_scan depth in_str esc (c # cs) =
     (if esc then map_option (Cons c) (payload_scan depth in_str False cs)
      else if c = BSL then map_option (Cons c) (payload_scan depth in_str True cs)
      else if c = DQ then map_option (Cons c) (payload_scan depth (\<not> in_str) esc cs)
      else if in_str then map_option (Cons c) (payload_scan depth in_str esc cs)
      else if c = CHR ''{'' \<or> c = CHR ''['' then map_option (Cons c) (payload_scan (depth + 1) in_str esc cs)
      else if c = CHR ''}'' \<or> c = CHR '']'' then
        (if depth - 1 = 0 then Some [c] else map_option (Cons c) (payload_scan (depth - 1) in_str esc cs))
      else map_option (Cons c) (payload_scan depth in_str esc cs))"

definition dup_payload_raw :: "string \<Rightarrow> string option" where
  "dup_payload_raw json =
     (let pat = DQ # ''payload'' @ [DQ] in
      case strstr json pat of
        None \<Rightarrow> None
      | Some p \<Rightarrow>
          (case dropWhile (\<lambda>c. c = CHR '' '' \<or> c = CHR '':'') (drop (length pat) p) of
             [] \<Rightarrow> None
           | c # r \<Rightarrow> if c \<noteq> CHR ''{'' \<and> c \<noteq> CHR ''['' then None else payload_scan 0 False False (c # r)))"

record ctc_message =
  msg_id :: "string option"
  msg_type :: "string option"
  msg_session_id :: "string option"
  msg_payload :: "string option"

definition ctc_message_free :: "ctc_message \<Rightarrow> ctc_message" where
  "ctc_message_free m = m\<lparr>msg_id := None, msg_type := None, msg_session_id := None, msg_payload := None\<rparr>"

definition ctc_recv ::
  "bool \<Rightarrow> io_answers \<Rightarrow> nat \<Rightarrow> byte list \<Rightarrow> ctc_message \<Rightarrow> (int \<times> nat \<times> byte list \<times> ctc_message) option"
where
  "ctc_recv mem_ok ans k input out =
     (case read_all ans k input 4 [] of
        None \<Rightarrow> None
      | Some (rc, k, input, be) \<Rightarrow>
          if rc < 0 then Some (-1, k, input, out)
          else
            let len = ntohl be in
            if len = 0 \<or> int len > CTC_MAX_MSG then Some (-1, k, input, out)
            else if \<not> mem_ok then Some (-1, k, input, out)
            else
              (case read_all ans k input len [] of
                 None \<Rightarrow> None
               | Some (rc, k, input, bytes) \<Rightarrow>
                   if rc < 0 then Some (-1, k, input, out)
                   else
                     let buf = cstr bytes;
                         out = out\<lparr>msg_id := dup_field_raw buf ''id'', msg_type := dup_field_raw buf ''type'',
                                   msg_session_id := dup_field_raw buf ''session_id'',
                                   msg_payload := dup_payload_raw buf\<rparr>
                     in
                       if msg_type out = None then Some (-1, k, input, ctc_message_free out)
                       else Some (0, k, input, out)))"

subsection \<open>Transfers that are cut and interrupted\<close>

text \<open>
  The contract of the calls: a positive answer moves at most the bytes asked for, a call fails
  only by interruption, and interruptions do not go on for ever.
\<close>

definition good_io :: "io_answers \<Rightarrow> bool" where
  "good_io ans \<longleftrightarrow>
     (\<forall>k n. 0 < n \<longrightarrow> fst (ans k n) \<le> int n \<and> (fst (ans k n) \<le> 0 \<longrightarrow> snd (ans k n))) \<and>
     (\<forall>k. \<exists>j\<ge>k. \<forall>n>0. 0 < fst (ans j n))"

lemma write_all_wait:
  assumes "good_io ans" "p \<noteq> []"
  shows "\<exists>k'. 0 < fst (ans k' (length p)) \<and> write_all ans k p sent = write_all ans k' p sent"
proof -
  from assms(1) obtain j where "k \<le> j" and j: "\<And>n. n > 0 \<Longrightarrow> 0 < fst (ans j n)"
    unfolding good_io_def by blast
  then show ?thesis
  proof (induction k rule: inc_induct)
    case base
    with assms(2) show ?case by blast
  next
    case (step k)
    show ?case
    proof (cases "0 < fst (ans k (length p))")
      case False
      then have "snd (ans k (length p))" using assms by (auto simp: good_io_def not_less)
      then have "write_all ans k p sent = write_all ans (Suc k) p sent"
        using False assms(2) by (subst write_all.simps) (simp add: not_less)
      with step show ?thesis by simp
    qed blast
  qed
qed

lemma write_all_complete:
  "good_io ans \<Longrightarrow> \<exists>k'. write_all ans k p sent = Some (0, k', sent @ p)"
proof (induction "length p" arbitrary: k p sent rule: less_induct)
  case less
  show ?case
  proof (cases "p = []")
    case True
    then show ?thesis by (subst write_all.simps) simp
  next
    case False
    then obtain j where j: "0 < fst (ans j (length p))" "write_all ans k p sent = write_all ans j p sent"
      using write_all_wait [OF less.prems] by blast
    let ?w = "nat (fst (ans j (length p)))"
    have "length (drop ?w p) < length p" using j(1) False by simp
    then obtain k' where "write_all ans (j + 1) (drop ?w p) (sent @ take ?w p) = Some (0, k', sent @ p)"
      using less.hyps less.prems by (metis append.assoc append_take_drop_id)
    then show ?thesis using j False by (subst j(2), subst write_all.simps) (simp add: Let_def)
  qed
qed

lemma read_all_wait:
  assumes "good_io ans" "0 < n"
  shows "\<exists>k'. 0 < fst (ans k' n) \<and> read_all ans k input n buf = read_all ans k' input n buf"
proof -
  from assms(1) obtain j where "k \<le> j" and j: "\<And>n. n > 0 \<Longrightarrow> 0 < fst (ans j n)"
    unfolding good_io_def by blast
  then show ?thesis
  proof (induction k rule: inc_induct)
    case base
    with assms(2) show ?case by blast
  next
    case (step k)
    show ?case
    proof (cases "0 < fst (ans k n)")
      case False
      then have "snd (ans k n)" using assms by (auto simp: good_io_def not_less)
      then have "read_all ans k input n buf = read_all ans (Suc k) input n buf"
        using False assms(2) by (subst read_all.simps) (simp add: not_less)
      with step show ?thesis by simp
    qed blast
  qed
qed

lemma read_all_complete:
  "good_io ans \<Longrightarrow> length d = n \<Longrightarrow> \<exists>k'. read_all ans k (d @ rest) n buf = Some (0, k', rest, buf @ d)"
proof (induction n arbitrary: k d buf rule: less_induct)
  case (less n)
  show ?case
  proof (cases "n = 0")
    case True
    with less.prems show ?thesis by (subst read_all.simps) simp
  next
    case False
    then obtain j where j: "0 < fst (ans j n)" "read_all ans k (d @ rest) n buf = read_all ans j (d @ rest) n buf"
      using read_all_wait [OF less.prems(1)] by blast
    let ?r = "nat (fst (ans j n))"
    have "fst (ans j n) \<le> int n" using less.prems(1) False by (simp add: good_io_def)
    then have r: "?r \<le> n" "0 < ?r" using j(1) by linarith+
    then obtain k' where
      "read_all ans (j + 1) (drop ?r d @ rest) (n - ?r) (buf @ take ?r d) = Some (0, k', rest, (buf @ take ?r d) @ drop ?r d)"
      using less.IH [of "n - ?r" "drop ?r d" "j + 1" "buf @ take ?r d"] less.prems by auto
    then show ?thesis using j r False less.prems(2)
      by (subst j(2), subst read_all.simps) (simp add: Let_def)
  qed
qed

lemma ntohl_htonl:
  assumes "n < 2 ^ 32" shows "ntohl (htonl n) = n"
proof -
  from assms have "n div 16777216 < 256" by simp
  then have "ntohl (htonl n) = n div 16777216 * 16777216 + n div 65536 mod 256 * 65536 + n div 256 mod 256 * 256 + n mod 256"
    by (simp add: ntohl_def htonl_def of_char_of)
  moreover have "n div 65536 = n div 256 div 256" "n div 16777216 = n div 65536 div 256"
    by (simp_all add: div_mult2_eq [symmetric])
  ultimately show ?thesis
    using mult_div_mod_eq [of 256 n] mult_div_mod_eq [of 256 "n div 256"] mult_div_mod_eq [of 256 "n div 65536"]
    by linarith
qed

lemma length_htonl [simp]: "length (htonl n) = 4"
  by (simp add: htonl_def)

subsection \<open>Payload texts\<close>

text \<open>JSON values as the agent prints them: numbers and names, strings, arrays and objects.\<close>

datatype jtree = JAtom string | JStr string | JArr "jtree list" | JObj "(string \<times> jtree) list"

definition quoted :: "string \<Rightarrow> string" where
  "quoted s = DQ # esc_string s @ [DQ]"

fun jrender :: "jtree \<Rightarrow> string" where
  "jrender (JAtom a) = a"
| "jrender (JStr s) = quoted s"
| "jrender (JArr vs) = CHR ''['' # commas (map jrender vs) @ '']''"
| "jrender (JObj kvs) = CHR ''{'' # commas (map (\<lambda>kv. quoted (fst kv) @ CHR '':'' # jrender (snd kv)) kvs) @ ''}''"

definition atom_char :: "char \<Rightarrow> bool" where
  "atom_char c \<longleftrightarrow> isalnum c \<or> c = CHR ''-'' \<or> c = CHR ''.'' \<or> c = CHR ''+''"

fun jwf :: "jtree \<Rightarrow> bool" where
  "jwf (JAtom a) = list_all atom_char a"
| "jwf (JStr s) = True"
| "jwf (JArr vs) = list_all jwf vs"
| "jwf (JObj kvs) = list_all (\<lambda>kv. jwf (snd kv)) kvs"

fun jcontents :: "jtree \<Rightarrow> string" where
  "jcontents (JArr vs) = commas (map jrender vs)"
| "jcontents (JObj kvs) = commas (map (\<lambda>kv. quoted (fst kv) @ CHR '':'' # jrender (snd kv)) kvs)"
| "jcontents _ = []"

text \<open>
  A scanner that looks for the end of a JSON value passes over the texts of its parts and comes
  back to where it was.  \<open>passes\<close> tells so of a text; what has to be shown of a scanner is that it
  does for characters without a meaning, strings and bracketed text.
\<close>

locale json_passes =
  fixes passes :: "string \<Rightarrow> bool"
  assumes nil: "passes []"
    and app: "passes s \<Longrightarrow> passes t \<Longrightarrow> passes (s @ t)"
    and char: "atom_char c \<or> c = CHR '','' \<or> c = CHR '':'' \<Longrightarrow> passes [c]"
    and quot: "passes (quoted s)"
    and brace: "passes t \<Longrightarrow> passes (CHR ''{'' # t @ ''}'')"
    and bracket: "passes t \<Longrightarrow> passes (CHR ''['' # t @ '']'')"
begin

lemma comma_list: "list_all passes ts \<Longrightarrow> passes (commas ts)"
proof (induction ts rule: commas.induct)
  case (3 s t ts)
  then have "passes (s @ [CHR '',''] @ commas (t # ts))" by (intro app char) simp_all
  then show ?case by simp
qed (simp_all add: nil)

lemma atom: "list_all atom_char a \<Longrightarrow> passes a"
proof (induction a)
  case (Cons c a)
  then have "atom_char c" "passes a" by simp_all
  then show ?case using app [OF char, of c a] by simp
qed (simp add: nil)

lemma field: "passes t \<Longrightarrow> passes (quoted k @ CHR '':'' # t)"
  using app [OF quot app [OF char], of "CHR '':''" t k] by simp

lemma rendered: "jwf v \<Longrightarrow> passes (jrender v)"
proof (induction v)
  case (JAtom a)
  then show ?case by (simp add: atom)
next
  case (JStr s)
  show ?case by (simp add: quot)
next
  case (JArr vs)
  then have "passes (commas (map jrender vs))" by (intro comma_list) (auto simp: list_all_iff)
  then show ?case by (simp add: bracket)
next
  case (JObj kvs)
  have "passes (quoted k @ CHR '':'' # jrender v)" if "(k, v) \<in> set kvs" for k v
    using JObj.IH [OF that] JObj.prems that by (intro field) (force simp: list_all_iff snds.simps)
  then have "passes (commas (map (\<lambda>kv. quoted (fst kv) @ CHR '':'' # jrender (snd kv)) kvs))"
    by (intro comma_list) (auto simp: list_all_iff)
  then show ?case by (simp add: brace)
qed

lemma contents: "jwf v \<Longrightarrow> passes (jcontents v)"
  by (cases v) (auto simp: list_all_iff nil intro!: comma_list rendered field)

end

text \<open>A text is neutral when the scanner passes over it at the depth it came with.\<close>

definition prep :: "string \<Rightarrow> string option \<Rightarrow> string option" where
  "prep t x = (case x of None \<Rightarrow> None | Some r \<Rightarrow> Some (t @ r))"

lemma prep_simps:
  "prep [] x = x" "prep s (prep t x) = prep (s @ t) x" "map_option (Cons c) x = prep [c] x"
  "prep s (Some r) = Some (s @ r)"
  by (auto simp: prep_def split: option.splits)

definition neutral :: "string \<Rightarrow> bool" where
  "neutral t \<longleftrightarrow> (\<forall>d r. 1 \<le> d \<longrightarrow> payload_scan d False False (t @ r) = prep t (payload_scan d False False r))"

lemma neutralD: "neutral t \<Longrightarrow> 1 \<le> d \<Longrightarrow> payload_scan d False False (t @ r) = prep t (payload_scan d False False r)"
  by (simp add: neutral_def)

lemma neutral_Nil: "neutral []"
  by (simp add: neutral_def prep_simps)

lemma neutral_append: "neutral s \<Longrightarrow> neutral t \<Longrightarrow> neutral (s @ t)"
  by (simp add: neutral_def prep_simps)

lemma atom_char_facts:
  assumes "atom_char c \<or> c = CHR '','' \<or> c = CHR '':''"
  shows "c \<notin> set [BSL, DQ, CHR ''{'', CHR ''['', CHR ''}'', CHR '']'', NUL, NL]"
  using assms by (auto simp: atom_char_def isalnum_def isdigit_def isupper_def islower_def)

lemma neutral_char: "atom_char c \<or> c = CHR '','' \<or> c = CHR '':'' \<Longrightarrow> neutral [c]"
  using atom_char_facts [of c] by (simp add: neutral_def prep_simps)

lemma scan_in_string_char:
  "payload_scan d True False (esc_char c @ t) = prep (esc_char c) (payload_scan d True False t)"
proof (cases "esc_rep c")
  case None
  then have "c \<noteq> BSL" "c \<noteq> DQ" "esc_char c = [c]" by (auto simp: esc_rep_def esc_char_def)
  then show ?thesis by (simp add: prep_simps)
next
  case (Some e)
  show ?thesis
  proof (cases "is_ctl c")
    case True
    then have "(of_char c :: nat) div 16 < 16" and e: "esc_char c = [BSL, CHR ''u'', CHR ''0'', CHR ''0'',
        hexdigit (of_char c div 16), hexdigit (of_char c mod 16)]"
      by (auto simp: is_ctl_def esc_char_def esc_rep_def)
    then show ?thesis
      using hexdigit_plain [of "of_char c div 16"] hexdigit_plain [of "of_char c mod 16"]
      unfolding e by (simp add: prep_simps)
  next
    case False
    with Some have "\<exists>x. esc_char c = [BSL, x]"
      by (auto simp: esc_char_def esc_rep_def is_ctl_def split: if_splits)
    then show ?thesis by (auto simp: prep_simps)
  qed
qed

lemma payload_scan_in_string:
  "payload_scan d True False (esc_string s @ r) = prep (esc_string s) (payload_scan d True False r)"
  by (induction s) (simp_all add: esc_string_def scan_in_string_char prep_simps)

lemma neutral_quoted: "neutral (quoted s)"
  by (simp add: neutral_def quoted_def payload_scan_in_string prep_simps)

lemma neutral_bracket:
  assumes "neutral t" "c = CHR ''{'' \<or> c = CHR ''[''" "e = CHR ''}'' \<or> e = CHR '']''"
  shows "neutral (c # t @ [e])"
proof -
  have "payload_scan d False False (c # t @ e # r) = prep (c # t @ [e]) (payload_scan d False False r)"
    if "1 \<le> d" for d r
  proof -
    have "payload_scan d False False (c # t @ e # r) = prep [c] (payload_scan (d + 1) False False (t @ e # r))"
      using assms(2) by (auto simp: prep_simps)
    also have "\<dots> = prep (c # t) (payload_scan (d + 1) False False (e # r))"
      using that by (simp add: neutralD [OF assms(1)] prep_simps)
    also have "payload_scan (d + 1) False False (e # r) = prep [e] (payload_scan d False False r)"
      using assms(3) that by (auto simp: prep_simps)
    finally show ?thesis by (simp add: prep_simps)
  qed
  then show ?thesis by (simp add: neutral_def)
qed

definition is_container :: "jtree \<Rightarrow> bool" where
  "is_container v \<longleftrightarrow> (case v of JArr _ \<Rightarrow> True | JObj _ \<Rightarrow> True | _ \<Rightarrow> False)"

interpretation pscan: json_passes neutral
  by unfold_locales (simp_all add: neutral_Nil neutral_append neutral_char neutral_quoted neutral_bracket)

lemma payload_scan_container:
  assumes "jwf v" "is_container v"
  shows "payload_scan 0 False False (jrender v @ r) = Some (jrender v)"
proof -
  from assms(2) obtain c e where v: "jrender v = c # jcontents v @ [e]" "c = CHR ''{'' \<or> c = CHR ''[''"
    "e = CHR ''}'' \<or> e = CHR '']''" by (cases v) (auto simp: is_container_def)
  have "payload_scan 0 False False (jrender v @ r) = prep [c] (payload_scan 1 False False (jcontents v @ e # r))"
    using v by (auto simp: prep_simps)
  also have "\<dots> = prep (c # jcontents v) (payload_scan 1 False False (e # r))"
    by (simp add: neutralD [OF pscan.contents [OF assms(1)]] prep_simps)
  also have "payload_scan 1 False False (e # r) = Some [e]" using v(3) by auto
  finally show ?thesis using v(1) by (simp add: prep_simps)
qed

subsection \<open>Fields of a message\<close>

lemma strstr_quoted:
  assumes "DQ \<notin> set x" "DQ \<notin> set key"
  shows "strstr (DQ # x @ DQ # r) (DQ # key @ [DQ])
       = (if x = key then Some (DQ # x @ DQ # r) else strstr (DQ # r) (DQ # key @ [DQ]))"
proof (cases "x = key")
  case True
  then show ?thesis using is_prefix_append [of "key @ [DQ]" r] by simp
next
  case False
  then have "\<not> is_prefix (key @ [DQ]) (x @ DQ # r)" using prefix_quote assms by blast
  moreover have "strstr (x @ DQ # r) (DQ # key @ [DQ]) = strstr (DQ # r) (DQ # key @ [DQ])"
    using assms(1) by (rule strstr_first_char)
  ultimately show ?thesis using False by simp
qed

lemma upto_quote_plain: "plain s \<Longrightarrow> prv \<noteq> BSL \<Longrightarrow> upto_quote prv (s @ DQ # r) = s"
proof (induction s arbitrary: prv)
  case (Cons c s)
  have "plain s" "c \<noteq> DQ" "c \<noteq> BSL" using Cons.prems(1) unfolding plain_def by auto
  with Cons.IH [of c] show ?case by simp
qed simp

definition clean :: "string \<Rightarrow> bool" where
  "clean s \<longleftrightarrow> list_all (\<lambda>c. 32 \<le> (of_char c :: nat) \<and> c \<noteq> DQ \<and> c \<noteq> BSL) s"

lemma clean_facts:
  assumes "clean s" shows "plain s" "DQ \<notin> set s" "is_cstr s" "esc_string s = s"
proof -
  have "list_all (\<lambda>c. c \<noteq> NUL \<and> c \<noteq> DQ \<and> c \<noteq> BSL) s"
    using assms unfolding clean_def by (rule list.pred_mono_strong) auto
  then show "plain s" "DQ \<notin> set s" "is_cstr s"
    unfolding plain_def is_cstr_def list_all_iff by blast+
  show "esc_string s = s" using assms
  proof (induction s)
    case (Cons c s)
    then have "32 \<le> (of_char c :: nat)" "c \<noteq> DQ" "c \<noteq> BSL" "esc_string s = s" by (simp_all add: clean_def)
    moreover from this have "c \<noteq> NL" "c \<noteq> CHR 0x0D" "c \<noteq> CHR 0x09" by auto
    ultimately have "esc_char c = [c]" "esc_string s = s" by (simp_all add: esc_char_def esc_rep_def)
    then show ?case by (simp add: esc_string_def)
  qed (simp add: esc_string_def)
qed

lemma put_parts_fits: "length t + length (concat ps) < cap \<Longrightarrow> put_parts cap t ps = Ret (t @ concat ps)"
  by (induction ps arbitrary: t) simp_all

lemma cstr_esc_string: "is_cstr (esc_string s)"
proof -
  have "is_cstr (esc_char c)" for c
  proof -
    have h: "(of_char c :: nat) < 32 \<Longrightarrow> of_char c div 16 < (16 :: nat)" by linarith
    have n: "d < 16 \<Longrightarrow> hexdigit d \<noteq> NUL" for d
      using hexdigit_facts(1) [of d] by (auto simp: isxdigit_def isdigit_def)
    show ?thesis using n [OF h] n [of "of_char c mod 16"]
      by (cases "(of_char c :: nat) < 32") (simp_all add: esc_char_def esc_rep_def, auto)
  qed
  then show ?thesis by (auto simp: is_cstr_def esc_string_def)
qed

lemma NL_esc_string: "NL \<notin> set (esc_string s)"
proof -
  have "NL \<notin> set (esc_char c)" for c
  proof -
    have h: "(of_char c :: nat) < 32 \<Longrightarrow> of_char c div 16 < (16 :: nat)" by linarith
    have n: "d < 16 \<Longrightarrow> hexdigit d \<noteq> NL" for d
      using hexdigit_facts(1) [of d] by (auto simp: isxdigit_def isdigit_def)
    show ?thesis using n [OF h] n [of "of_char c mod 16"] by (auto simp: esc_char_def esc_rep_def)
  qed
  then show ?thesis by (auto simp: esc_string_def)
qed

text \<open>A rendered value is one line of text.\<close>

interpretation jline: json_passes "\<lambda>t. is_cstr t \<and> NL \<notin> set t"
  using atom_char_facts cstr_esc_string
  by unfold_locales (auto simp: quoted_def NL_esc_string is_cstr_def)

lemma cstr_jrender: "jwf v \<Longrightarrow> is_cstr (jrender v)"
  using jline.rendered by blast

definition message_text :: "string \<Rightarrow> string \<Rightarrow> string \<Rightarrow> string \<Rightarrow> string" where
  "message_text t i s p = concat (send_parts t (Some i) (Some s) (Some p))"

text \<open>The pieces between the quotes of a message.\<close>

lemma message_text_pieces:
  "message_text t i s p =
     CHR ''{'' # DQ # ''type'' @ DQ # '':'' @ DQ # t @ DQ # '','' @ DQ # ''version'' @ DQ # '':1'' @
     (if i = [] then [] else CHR '','' # DQ # ''id'' @ DQ # '':'' @ DQ # i @ [DQ]) @
     (if s = [] then [] else CHR '','' # DQ # ''session_id'' @ DQ # '':'' @ DQ # s @ [DQ]) @
     CHR '','' # DQ # ''payload'' @ DQ # CHR '':'' # p @ ''}''"
proof -
  have "show_int CTC_PROTO_VERSION = ''1''" by code_simp
  then show ?thesis by (simp add: message_text_def send_parts_def opt_part_def)
qed

text \<open>A key is found at the first piece between quotes that equals it.\<close>

lemma strstr_pieces:
  assumes "DQ \<notin> set key" "DQ \<notin> set x" "list_all (\<lambda>x. DQ \<notin> set x \<and> x \<noteq> key) xs"
  shows "strstr (x @ concat (map (Cons DQ) xs) @ DQ # key @ DQ # r) (DQ # key @ [DQ]) = Some (DQ # key @ DQ # r)"
  using assms(2,3)
proof (induction xs arbitrary: x)
  case Nil
  then show ?case using strstr_quoted [OF assms(1,1), of r] strstr_first_char [OF Nil.prems(1), of "DQ # key @ DQ # r" "key @ [DQ]"]
    by simp
next
  case (Cons y ys)
  let ?t = "concat (map (Cons DQ) ys) @ DQ # key @ DQ # r"
  obtain t where t: "?t = DQ # t" by (cases ys) auto
  have "strstr (x @ DQ # y @ ?t) (DQ # key @ [DQ]) = strstr (DQ # y @ DQ # t) (DQ # key @ [DQ])"
    unfolding t by (rule strstr_first_char) (rule Cons.prems)
  also have "\<dots> = strstr (DQ # t) (DQ # key @ [DQ])"
    using strstr_quoted [of y key t] Cons.prems(2) assms(1) by (simp del: strstr.simps)
  also have "\<dots> = strstr ([] @ ?t) (DQ # key @ [DQ])" by (simp only: t append_Nil)
  also have "\<dots> = Some (DQ # key @ DQ # r)" by (rule Cons.IH) (use Cons.prems in simp_all)
  finally show ?case by simp
qed

lemma dup_field_at:
  assumes "json = x @ concat (map (Cons DQ) xs) @ DQ # key @ DQ # CHR '':'' # DQ # v @ DQ # r"
    and "DQ \<notin> set key" "DQ \<notin> set x" "list_all (\<lambda>x. DQ \<notin> set x \<and> x \<noteq> key) xs"
    and "plain v" "length key < 60"
  shows "dup_field_raw json key = Some v"
  using strstr_pieces [OF assms(2-4), of "CHR '':'' # DQ # v @ DQ # r"] upto_quote_plain [OF assms(5), of DQ r] assms(1,6)
  by (simp add: dup_field_raw_def)

lemma message_fields:
  assumes "clean t" "clean i" "clean s"
    and "t \<notin> {''id'', ''session_id'', ''payload''}" "i \<notin> {''session_id'', ''payload''}" "s \<noteq> ''payload''"
  shows "dup_field_raw (message_text t i s p) ''type'' = Some t"
    and "i \<noteq> [] \<Longrightarrow> dup_field_raw (message_text t i s p) ''id'' = Some i"
    and "s \<noteq> [] \<Longrightarrow> dup_field_raw (message_text t i s p) ''session_id'' = Some s"
    and "strstr (message_text t i s p) (DQ # ''payload'' @ [DQ]) = Some (DQ # ''payload'' @ DQ # CHR '':'' # p @ ''}'')"
proof -
  note c = clean_facts(1,2) [OF assms(1)] clean_facts(1,2) [OF assms(2)] clean_facts(1,2) [OF assms(3)]
  let ?pre = "[''type'', '':'', t, '','', ''version'']"
  let ?id = "if i = [] then [] else ['':1,'', ''id'', '':'', i]"
  let ?sid = "if s = [] then [] else [if i = [] then '':1,'' else '','', ''session_id'', '':'', s]"
  show "dup_field_raw (message_text t i s p) ''type'' = Some t"
    by (rule dup_field_at [where x = "''{''" and xs = "[]"])
       (use c in \<open>simp_all add: message_text_pieces\<close>)
  show "dup_field_raw (message_text t i s p) ''id'' = Some i" if "i \<noteq> []"
    by (rule dup_field_at [where x = "''{''" and xs = "?pre @ ['':1,'']"])
       (use c assms(4) that in \<open>simp_all add: message_text_pieces\<close>)
  show "dup_field_raw (message_text t i s p) ''session_id'' = Some s" if "s \<noteq> []"
    by (rule dup_field_at [where x = "''{''" and xs = "?pre @ ?id @ [if i = [] then '':1,'' else '','']"])
       (use c assms(4,5) that in \<open>simp_all add: message_text_pieces\<close>)
  have "message_text t i s p = ''{'' @ concat (map (Cons DQ) (?pre @ ?id @ ?sid @ [if i = [] \<and> s = [] then '':1,'' else '','']))
      @ DQ # ''payload'' @ DQ # CHR '':'' # p @ ''}''"
    by (simp add: message_text_pieces)
  then show "strstr (message_text t i s p) (DQ # ''payload'' @ [DQ]) = Some (DQ # ''payload'' @ DQ # CHR '':'' # p @ ''}'')"
    using strstr_pieces [of "''payload''" "''{''" "?pre @ ?id @ ?sid @ [if i = [] \<and> s = [] then '':1,'' else '','']"] c assms(4-6)
    by simp
qed

lemma cstr_message: "clean t \<Longrightarrow> clean i \<Longrightarrow> clean s \<Longrightarrow> is_cstr p \<Longrightarrow> is_cstr (message_text t i s p)"
  using clean_facts(3) [of t] clean_facts(3) [of i] clean_facts(3) [of s] by (simp add: message_text_pieces)

lemma json_escape_clean: "clean t \<Longrightarrow> json_escape (\<lambda>_. True) (Some t) = Ret (Some t)"
proof -
  assume t: "clean t"
  then have "\<not> (\<exists>c. t = [c] \<and> is_ctl c)" by (auto simp: clean_def is_ctl_def)
  then show ?thesis using json_escape_text [of t] clean_facts(4) [OF t] by simp
qed

lemma send_frame_complete:
  assumes "good_io ans" "json \<noteq> []" "int (length json) \<le> CTC_MAX_MSG"
  shows "\<exists>k'. send_frame ans k json = Some (0, k', htonl (length json) @ json)"
proof -
  have l: "int (length json) mod 2 ^ 32 = int (length json)"
    using assms(3) by (intro mod_pos_pos_trivial) (simp_all add: CTC_MAX_MSG_def)
  obtain k1 where "write_all ans k (htonl (length json)) [] = Some (0, k1, htonl (length json))"
    using write_all_complete [OF assms(1)] by (metis append_Nil)
  moreover obtain k2 where "write_all ans k1 json (htonl (length json)) = Some (0, k2, htonl (length json) @ json)"
    using write_all_complete [OF assms(1)] by blast
  ultimately show ?thesis using assms(2,3) l by (simp add: send_frame_def)
qed

lemma recv_frame:
  assumes "good_io ans" "is_cstr json" "json \<noteq> []" "int (length json) \<le> CTC_MAX_MSG"
    and "dup_field_raw json ''type'' = Some t"
  shows "\<exists>k'. ctc_recv True ans k (htonl (length json) @ json @ rest) out
       = Some (0, k', rest, out\<lparr>msg_id := dup_field_raw json ''id'', msg_type := Some t,
           msg_session_id := dup_field_raw json ''session_id'', msg_payload := dup_payload_raw json\<rparr>)"
proof -
  obtain k1 where r1: "read_all ans k (htonl (length json) @ json @ rest) 4 [] = Some (0, k1, json @ rest, htonl (length json))"
    using read_all_complete [OF assms(1), of "htonl (length json)" 4] by (metis append_Nil length_htonl)
  obtain k2 where r2: "read_all ans k1 (json @ rest) (length json) [] = Some (0, k2, rest, json)"
    using read_all_complete [OF assms(1) refl] by (metis append_Nil)
  have "length json < 2 ^ 32" using assms(4) by (simp add: CTC_MAX_MSG_def)
  then have "ntohl (htonl (length json)) = length json" by (rule ntohl_htonl)
  with r1 r2 assms(2-5) show ?thesis by (simp add: ctc_recv_def)
qed

text \<open>
  C29.  Frames: a message that \<open>ctc_send\<close> writes is what \<open>ctc_recv\<close> returns at the other end,
  however the transport cuts the transfer and however often it is interrupted, and the bytes
  behind the frame are left for the next one.  Both calls return.  Type and payload come back
  unchanged, and so do the id and the session id when they are given; the payload is any
  JSON array or object.  The identifiers must not be the name of a field that stands behind
  them, because the fields are searched by text.
\<close>

theorem frame_roundtrip:
  assumes "good_io w" "good_io r" "jwf v" "is_container v"
    and "clean t" "clean i" "clean s" "length t < 190"
    and "t \<notin> {''id'', ''session_id'', ''payload''}" "i \<notin> {''session_id'', ''payload''}" "s \<noteq> ''payload''"
    and "int (length i + length s + length (jrender v)) + 256 \<le> CTC_MAX_MSG"
  shows "\<exists>k bytes k' m.
      ctc_send (\<lambda>_. True) w 0 t (Some i) (Some s) (Some (jrender v)) = Some (Ret (0, k, bytes)) \<and>
      ctc_recv True r 0 (bytes @ rest) m0 = Some (0, k', rest, m) \<and>
      msg_type m = Some t \<and> msg_payload m = Some (jrender v) \<and>
      (i \<noteq> [] \<longrightarrow> msg_id m = Some i) \<and> (s \<noteq> [] \<longrightarrow> msg_session_id m = Some s)"
proof -
  let ?m = "message_text t i s (jrender v)"
  note f = message_fields [OF assms(5-7,9-11), of "jrender v"]
  have len: "length ?m < 256 + length i + length s + length (jrender v)" "?m \<noteq> []"
    using assms(8) by (simp_all add: message_text_pieces)
  then have fits: "int (length ?m) \<le> CTC_MAX_MSG" using assms(12) by linarith
  have "put_parts (256 + length i + length s + length (jrender v)) [] (send_parts t (Some i) (Some s) (Some (jrender v))) = Ret ?m"
    using put_parts_fits [of "[]"] len(1) by (simp add: message_text_def)
  moreover obtain k where "send_frame w 0 ?m = Some (0, k, htonl (length ?m) @ ?m)"
    using send_frame_complete [OF assms(1) len(2) fits] by blast
  ultimately have s1: "ctc_send (\<lambda>_. True) w 0 t (Some i) (Some s) (Some (jrender v)) = Some (Ret (0, k, htonl (length ?m) @ ?m))"
    by (simp add: ctc_send_def json_escape_clean [OF assms(5)] opt_len_def)
  have "is_cstr ?m" using assms(5-7) cstr_jrender [OF assms(3)] by (rule cstr_message)
  then obtain k' where r1: "ctc_recv True r 0 (htonl (length ?m) @ ?m @ rest) m0
       = Some (0, k', rest, m0\<lparr>msg_id := dup_field_raw ?m ''id'', msg_type := Some t,
           msg_session_id := dup_field_raw ?m ''session_id'', msg_payload := dup_payload_raw ?m\<rparr>)"
    using recv_frame [OF assms(2) _ len(2) fits f(1)] by blast
  obtain c x where "jrender v = c # x" "c = CHR ''{'' \<or> c = CHR ''[''"
    using assms(4) by (cases v) (auto simp: is_container_def)
  then have "dup_payload_raw ?m = Some (jrender v)"
    using f(4) payload_scan_container [OF assms(3,4), of "''}''"] by (auto simp: dup_payload_raw_def)
  with s1 r1 f(2,3) show ?thesis by auto
qed

theorem frame_roundtrip_witness:
  "\<exists>k bytes k' m.
      ctc_send (\<lambda>_. True) (\<lambda>_ n. (1, False)) 0 ''ack'' (Some ''7'') (Some ''s'')
        (Some (jrender (JObj [(''ok'', JAtom ''true'')]))) = Some (Ret (0, k, bytes)) \<and>
      ctc_recv True (\<lambda>_ n. (int n, False)) 0 (bytes @ ''x'')
        \<lparr>msg_id = None, msg_type = None, msg_session_id = None, msg_payload = None\<rparr> = Some (0, k', ''x'', m) \<and>
      msg_type m = Some ''ack'' \<and> msg_id m = Some ''7'' \<and> msg_session_id m = Some ''s'' \<and>
      msg_payload m = Some (jrender (JObj [(''ok'', JAtom ''true'')]))"
  using frame_roundtrip [of "\<lambda>_ n. (1, False)" "\<lambda>_ n. (int n, False)" "JObj [(''ok'', JAtom ''true'')]" "''ack''" "''7''" "''s''" "''x''"
    "\<lparr>msg_id = None, msg_type = None, msg_session_id = None, msg_payload = None\<rparr>"]
  by (auto simp: good_io_def is_container_def clean_def CTC_MAX_MSG_def atom_char_def isalnum_def islower_def quoted_def
      esc_string_def esc_char_def esc_rep_def)

end
