(* ===== verification/Connect.thy ===== *)
theory Connect
  imports Tls AgentConfig Frames
begin

section \<open>Connecting to a server (clients/src/agent.c)\<close>

text \<open>
  \<open>connect_host\<close>, \<open>connect_host_with_tls\<close>, \<open>connect_server\<close> and \<open>do_register\<close>.  The network is a
  parameter: \<open>dial k host port\<close> is the address list \<open>getaddrinfo\<close> gives to the \<open>k\<close>th connection
  attempt, each address with the descriptor \<open>socket\<close> returns for it and whether \<open>connect\<close>
  succeeds; \<open>tls_of k\<close> holds the TLS answers of that attempt.  The state records the open
  descriptors, the number of attempts and the TLS table.
\<close>

record net_env =
  dial :: "nat \<Rightarrow> string \<Rightarrow> string \<Rightarrow> (int \<times> bool) list option"
  tls_of :: "nat \<Rightarrow> tls_env"

record net_state =
  open_fds :: "int list"
  attempts :: nat
  tls_st :: tls_state

text \<open>The loop over the addresses: the first descriptor that connects, -1 when none does.\<close>

fun try_addrs :: "(int \<times> bool) list \<Rightarrow> int" where
  "try_addrs [] = -1"
| "try_addrs ((fd, connected) # r) =
     (if fd < 0 then (if r = [] then fd else try_addrs r)
      else if connected then fd
      else try_addrs r)"

definition connect_host :: "net_env \<Rightarrow> ctc_config \<Rightarrow> string \<Rightarrow> net_state \<Rightarrow> net_state \<times> int" where
  "connect_host e cfg host st =
     (let k = attempts st; st = st\<lparr>attempts := k + 1\<rparr> in
      case dial e k host (snprintf_s 16 (show_int (server_port cfg))) of
        None \<Rightarrow> (st, -1)
      | Some addrs \<Rightarrow>
          let fd = try_addrs addrs in
          (if fd < 0 then st else st\<lparr>open_fds := fd # open_fds st\<rparr>, fd))"

definition close_fd :: "int \<Rightarrow> net_state \<Rightarrow> net_state" where
  "close_fd fd st = st\<lparr>open_fds := remove1 fd (open_fds st)\<rparr>"

definition fingerprint_arg :: "ctc_config \<Rightarrow> string option" where
  "fingerprint_arg cfg = (if server_fingerprint cfg = [] then None else Some (server_fingerprint cfg))"

definition connect_host_with_tls ::
  "net_env \<Rightarrow> ctc_config \<Rightarrow> string \<Rightarrow> net_state \<Rightarrow> (net_state \<times> int) outcome"
where
  "connect_host_with_tls e cfg host st =
     (let k = attempts st; (st, fd) = connect_host e cfg host st in
      if fd < 0 then Ret (st, -1)
      else if use_tls cfg = 0 then Ret (st, fd)
      else
        and_then (ctc_tls_wrap (tls_of e k) fd (fingerprint_arg cfg) (tls_st st)) (\<lambda>(t, tls_rc).
          let st = st\<lparr>tls_st := t\<rparr> in
          if tls_rc \<ge> 0 then Ret (st, fd)
          else Ret (connect_host e cfg host (close_fd fd st))))"

definition trim_blanks :: "string \<Rightarrow> string" where
  "trim_blanks s =
     (let blank = (\<lambda>c. c = CHR '' '' \<or> c = CHR 0x09)
      in rev (dropWhile blank (rev (dropWhile blank s))))"

fun try_hosts :: "net_env \<Rightarrow> ctc_config \<Rightarrow> string list \<Rightarrow> net_state \<Rightarrow> (net_state \<times> int) outcome" where
  "try_hosts e cfg [] st = Ret (st, -1)"
| "try_hosts e cfg (h # hs) st =
     (let ip = trim_blanks h in
      if ip = [] then try_hosts e cfg hs st
      else
        and_then (connect_host_with_tls e cfg ip st) (\<lambda>(st, fd).
          if fd \<ge> 0 then Ret (st, fd) else try_hosts e cfg hs st))"

definition connect_server :: "net_env \<Rightarrow> ctc_config \<Rightarrow> net_state \<Rightarrow> (net_state \<times> int) outcome" where
  "connect_server e cfg st =
     (if CHR '','' \<notin> set (server_hosts cfg) then connect_host_with_tls e cfg (server_host cfg) st
      else try_hosts e cfg (strtok_all (snprintf_s 512 (server_hosts cfg)) '','') st)"

subsection \<open>Registration\<close>

record host_names =
  nodename :: string
  sysname :: string
  machine :: string

definition CTC_VERSION :: string where
  "CTC_VERSION = ''0.2.0''"

definition register_text :: "host_names \<Rightarrow> string \<Rightarrow> ctc_config \<Rightarrow> string" where
  "register_text un now_ms cfg =
     (let payload = snprintf_s 1024 (
            CHR ''{'' # json_str_field ''agent_id'' (agent_id cfg) @ '','' @
            json_str_field ''name'' (cfg_name cfg) @ '','' @
            json_str_field ''hostname'' (nodename un) @ '','' @
            json_str_field ''os'' (sysname un) @ '','' @
            json_str_field ''arch'' (machine un) @ '','' @
            json_str_field ''version'' CTC_VERSION @ ''}'')
      in snprintf_s 1400 (
            CHR ''{'' # json_str_field ''id'' (''reg-'' @ now_ms) @ '','' @
            json_str_field ''type'' ''register'' @ '','' @
            DQ # ''version'' @ DQ # CHR '':'' # show_int CTC_PROTO_VERSION @ '','' @
            json_str_field ''token'' (token cfg) @ '','' @
            DQ # ''payload'' @ DQ # CHR '':'' # payload @ ''}''))"

text \<open>
  Two single writes, which must take everything at once, and one answer.  \<open>w1\<close> and \<open>w2\<close> are
  the results of the writes, \<open>input\<close> what the server sends.
\<close>

definition do_register ::
  "int \<Rightarrow> int \<Rightarrow> bool \<Rightarrow> io_answers \<Rightarrow> byte list \<Rightarrow> string \<Rightarrow> (int \<times> byte list) option"
where
  "do_register w1 w2 mem_ok ans input full =
     (if w1 \<noteq> 4 then Some (-1, input)
      else if w2 \<noteq> int (length full) then Some (-1, input)
      else
        (case ctc_recv mem_ok ans 0 input \<lparr>msg_id = None, msg_type = None, msg_session_id = None, msg_payload = None\<rparr> of
           None \<Rightarrow> None
         | Some (rc, k, input, resp) \<Rightarrow>
             if rc < 0 then Some (-1, input)
             else Some (if msg_type resp = Some ''ack'' then 0 else -1, input)))"

subsection \<open>Descriptors and TLS sessions\<close>

definition fds_after :: "int \<Rightarrow> int list \<Rightarrow> int list" where
  "fds_after fd fds = (if fd < 0 then fds else fd # fds)"

lemma connect_host_state:
  assumes "connect_host e cfg h st = (st', fd)"
  shows "open_fds st' = fds_after fd (open_fds st)" "tls_st st' = tls_st st"
  using assms by (auto simp: connect_host_def fds_after_def Let_def split: option.splits if_splits)

lemma wrap_map:
  assumes "ctc_tls_wrap te fd fp t = Ret (t', rc)"
  shows "(rc = -1 \<and> g_map t' = g_map t) \<or>
    (\<exists>ssl. rc = 0 \<and> g_map t' = map_set fd ssl (g_map t) \<and>
      (\<forall>h. fp = Some h \<longrightarrow> h \<noteq> [] \<longrightarrow> check_fingerprint te h = Ret 0))"
  using assms by (auto simp: ctc_tls_wrap_def Let_def and_then_Ret split: if_splits option.splits)

lemma check_fingerprint_0:
  "check_fingerprint te h = Ret 0 \<Longrightarrow> \<exists>der. peer_cert te = Some der \<and> hex2bin h 32 = Some (sha256 te der)"
  by (auto simp: check_fingerprint_def split: option.splits if_splits)

definition no_sessions :: "net_state \<Rightarrow> bool" where
  "no_sessions st \<longleftrightarrow> list_all (\<lambda>s. \<not> slot_used s) (g_map (tls_st st)) \<and> g_map (tls_st st) \<noteq> []"

lemma no_sessions_facts:
  assumes "no_sessions st"
  shows "tlsmap.uniq (g_map (tls_st st))" "ssl_of (g_map (tls_st st)) fd = None" "\<not> list_all slot_used (g_map (tls_st st))"
proof -
  show "tlsmap.uniq (g_map (tls_st st))"
    using assms by (auto simp: no_sessions_def tlsmap.uniq_def list_all_length)
  show "ssl_of (g_map (tls_st st)) fd = None"
    using assms by (auto simp: no_sessions_def ssl_of_None tlsmap.lookup_None list_all_iff)
  show "\<not> list_all slot_used (g_map (tls_st st))"
    using assms by (cases "g_map (tls_st st)") (auto simp: no_sessions_def)
qed

definition pinned :: "net_env \<Rightarrow> ctc_config \<Rightarrow> bool" where
  "pinned e cfg \<longleftrightarrow>
     (\<exists>k der. peer_cert (tls_of e k) = Some der \<and> hex2bin (server_fingerprint cfg) 32 = Some (sha256 (tls_of e k) der))"

lemma with_tls_state:
  assumes "no_sessions st" "use_tls cfg \<noteq> 0" "server_fingerprint cfg \<noteq> []"
    and "connect_host_with_tls e cfg h st = Ret (st', fd)"
  shows "open_fds st' = fds_after fd (open_fds st)"
    and "no_sessions st' \<or> (fd \<ge> 0 \<and> pinned e cfg \<and> ctc_tls_active (g_map (tls_st st')) fd)"
proof -
  obtain st1 fd1 where c: "connect_host e cfg h st = (st1, fd1)" by (cases "connect_host e cfg h st")
  note c1 = connect_host_state [OF c]
  have ns1: "no_sessions st1" using assms(1) c1 by (simp add: no_sessions_def)
  have "open_fds st' = fds_after fd (open_fds st) \<and>
      (no_sessions st' \<or> (fd \<ge> 0 \<and> pinned e cfg \<and> ctc_tls_active (g_map (tls_st st')) fd))"
  proof (cases "fd1 < 0")
    case True
    then show ?thesis using assms(4) c c1 ns1 by (auto simp: connect_host_with_tls_def fds_after_def)
  next
    case False
    then obtain t rc where w: "ctc_tls_wrap (tls_of e (attempts st)) fd1 (fingerprint_arg cfg) (tls_st st1) = Ret (t, rc)"
      and r: "Ret (st', fd) = (if rc \<ge> 0 then Ret (st1\<lparr>tls_st := t\<rparr>, fd1)
          else Ret (connect_host e cfg h (close_fd fd1 (st1\<lparr>tls_st := t\<rparr>))))"
      using assms(2,4) c by (auto simp: connect_host_with_tls_def Let_def and_then_Ret split: prod.splits)
    from wrap_map [OF w] show ?thesis
    proof (elim disjE exE conjE)
      assume "rc = -1" "g_map t = g_map (tls_st st1)"
      then have h: "connect_host e cfg h (close_fd fd1 (st1\<lparr>tls_st := t\<rparr>)) = (st', fd)" using r by simp
      have "no_sessions st'" using connect_host_state(2) [OF h] ns1 \<open>g_map t = g_map (tls_st st1)\<close>
        by (simp add: no_sessions_def close_fd_def)
      then show ?thesis using connect_host_state(1) [OF h] c1 False by (simp add: close_fd_def fds_after_def)
    next
      fix ssl
      assume rc: "rc = 0" and m: "g_map t = map_set fd1 ssl (g_map (tls_st st1))"
        and fp: "\<forall>h. fingerprint_arg cfg = Some h \<longrightarrow> h \<noteq> [] \<longrightarrow> check_fingerprint (tls_of e (attempts st)) h = Ret 0"
      have s: "st' = st1\<lparr>tls_st := t\<rparr>" "fd = fd1" using r rc by simp_all
      have "check_fingerprint (tls_of e (attempts st)) (server_fingerprint cfg) = Ret 0"
        using fp assms(3) by (simp add: fingerprint_arg_def)
      then have "pinned e cfg" unfolding pinned_def by (metis check_fingerprint_0)
      moreover have "ctc_tls_active (g_map t) fd1"
        using ssl_of_map_set [OF no_sessions_facts(1,2) [OF ns1], of fd1 ssl fd1] no_sessions_facts(3) [OF ns1] m
        by (simp add: ctc_tls_active_def)
      ultimately show ?thesis using s c1 False by (simp add: fds_after_def)
    qed
  qed
  then show "open_fds st' = fds_after fd (open_fds st)"
    and "no_sessions st' \<or> (fd \<ge> 0 \<and> pinned e cfg \<and> ctc_tls_active (g_map (tls_st st')) fd)" by auto
qed

lemma try_hosts_state:
  assumes "no_sessions st" "use_tls cfg \<noteq> 0" "server_fingerprint cfg \<noteq> []"
    and "try_hosts e cfg hs st = Ret (st', fd)"
  shows "open_fds st' = fds_after fd (open_fds st) \<and>
    (no_sessions st' \<or> (fd \<ge> 0 \<and> pinned e cfg \<and> ctc_tls_active (g_map (tls_st st')) fd))"
  using assms(1,4)
proof (induction hs arbitrary: st)
  case Nil
  then show ?case by (auto simp: fds_after_def)
next
  case (Cons h hs)
  show ?case
  proof (cases "trim_blanks h = []")
    case False
    with Cons.prems(2) obtain st1 fd1 where c: "connect_host_with_tls e cfg (trim_blanks h) st = Ret (st1, fd1)"
      and r: "(if fd1 \<ge> 0 then Ret (st1, fd1) else try_hosts e cfg hs st1) = Ret (st', fd)"
      by (auto simp: Let_def and_then_Ret)
    note s = with_tls_state [OF Cons.prems(1) assms(2,3) c]
    show ?thesis
    proof (cases "fd1 \<ge> 0")
      case True
      with r s show ?thesis by auto
    next
      case F: False
      with r s Cons.IH [of st1] show ?thesis by (auto simp: fds_after_def)
    qed
  qed (use Cons in \<open>simp add: Let_def\<close>)
qed

definition sample_net :: "byte list \<Rightarrow> net_env" where
  "sample_net digest =
     \<lparr>dial = (\<lambda>k _ _. Some [(if k = 0 then 3 else 4, True)]),
      tls_of = (\<lambda>_. \<lparr>ctx_new_ok = True, ssl_new = Some 0, connect_ok = True, peer_cert = Some ''d'', sha256 = (\<lambda>_. digest)\<rparr>)\<rparr>"

definition sample_st :: net_state where
  "sample_st = \<lparr>open_fds = [], attempts = 0, tls_st = \<lparr>g_ctx = False, g_map = [\<lparr>slot_fd = 0, slot_ssl = None\<rparr>]\<rparr>\<rparr>"

definition pin_config :: ctc_config where
  "pin_config = sample_config\<lparr>server_fingerprint := bin2hex (replicate 32 CHR ''a'')\<rparr>"

lemma pin_config_facts:
  "use_tls pin_config = 1" "server_hosts pin_config = []" "server_fingerprint pin_config \<noteq> []"
  "hex2bin (server_fingerprint pin_config) 32 = Some (replicate 32 CHR ''a'')"
proof -
  have "bin2hex (replicate (Suc 31) CHR ''a'') \<noteq> []" by (simp only: bin2hex_def replicate_Suc) simp
  then show "server_fingerprint pin_config \<noteq> []" by (simp add: pin_config_def)
qed (simp_all add: pin_config_def sample_config_def hex2bin_bin2hex)



text \<open>
  C39.  A certificate with another digest than the configured one: the upgrade refuses the
  connection, but \<open>connect_host_with_tls\<close> dials again and returns the new descriptor without
  TLS, so the agent goes on in clear text although TLS and pinning are configured.
\<close>

theorem mismatch_goes_plaintext:
  assumes "no_sessions st" "use_tls cfg \<noteq> 0" "server_fingerprint cfg \<noteq> []" "CHR '','' \<notin> set (server_hosts cfg)"
    and "dial e (attempts st) (server_host cfg) (snprintf_s 16 (show_int (server_port cfg))) = Some [(fd1, True)]" "0 \<le> fd1"
    and "dial e (attempts st + 1) (server_host cfg) (snprintf_s 16 (show_int (server_port cfg))) = Some [(fd2, True)]" "0 \<le> fd2"
    and "tls_of e (attempts st) = \<lparr>ctx_new_ok = True, ssl_new = Some s, connect_ok = True, peer_cert = Some der, sha256 = hash\<rparr>"
    and "der \<noteq> []" "int (length der) \<le> 8192" "hex2bin (server_fingerprint cfg) 32 \<noteq> Some (hash der)"
  shows "\<exists>st'. connect_server e cfg st = Ret (st', fd2) \<and> ctc_tls_io (g_map (tls_st st')) fd2 = Plain fd2 \<and>
    open_fds st' = fd2 # open_fds st"
proof -
  let ?st1 = "st\<lparr>attempts := attempts st + 1, open_fds := fd1 # open_fds st\<rparr>"
  have c1: "connect_host e cfg (server_host cfg) st = (?st1, fd1)"
    using assms(5,6) by (simp add: connect_host_def)
  have "check_fingerprint (tls_of e (attempts st)) (server_fingerprint cfg) = Ret (-1)"
    using assms(9-12) by (auto simp: check_fingerprint_def split: option.splits)
  then obtain t where w: "ctc_tls_wrap (tls_of e (attempts st)) fd1 (fingerprint_arg cfg) (tls_st st) = Ret (t, -1)"
    and t: "g_map t = g_map (tls_st st)"
    using assms(3,9) by (auto simp: ctc_tls_wrap_def fingerprint_arg_def)
  let ?st2 = "close_fd fd1 (?st1\<lparr>tls_st := t\<rparr>)"
  have "connect_host e cfg (server_host cfg) ?st2 = (?st2\<lparr>attempts := attempts st + 2, open_fds := fd2 # open_fds st\<rparr>, fd2)"
    using assms(7,8) by (simp add: connect_host_def close_fd_def)
  then have "connect_server e cfg st = Ret (?st2\<lparr>attempts := attempts st + 2, open_fds := fd2 # open_fds st\<rparr>, fd2)"
    using c1 w assms(2,4,6) by (simp add: connect_server_def connect_host_with_tls_def)
  moreover have "ssl_of (g_map t) fd2 = None" using no_sessions_facts(2) [OF assms(1)] t by simp
  ultimately show ?thesis by (simp add: ctc_tls_io_def close_fd_def)
qed

theorem mismatch_goes_plaintext_witness:
  "\<exists>st'. connect_server (sample_net []) pin_config sample_st = Ret (st', 4) \<and>
     ctc_tls_io (g_map (tls_st st')) 4 = Plain 4 \<and> open_fds st' = [4]"
proof -
  have "no_sessions sample_st" by (simp add: no_sessions_def sample_st_def slot_used_def)
  then show ?thesis
    using mismatch_goes_plaintext [of sample_st pin_config "sample_net []" 3 4 0 "''d''" "\<lambda>_. []"]
    by (simp add: pin_config_facts sample_st_def sample_net_def)
qed

end
