(* ===== verification/Binding.thy ===== *)
theory Binding
  imports Connect
begin

section \<open>Finding a server and binding to it (clients/src/binding.c)\<close>

text \<open>
  The binding of an agent to one server: the four lines of the configuration file that hold it,
  the approval handshake, the LAN scan and \<open>ctc_scan_server\<close>, which ties them together.
  Everything a peer or the system answers during one attempt is a record \<open>hs_env\<close>.
\<close>

record ctc_binding =
  b_server_id :: string
  b_server_ip :: string
  b_server_port :: int
  b_approved :: int

definition no_binding :: ctc_binding where
  "no_binding = \<lparr>b_server_id = [], b_server_ip = [], b_server_port = 0, b_approved = 0\<rparr>"

subsection \<open>System information\<close>

definition pretty_name :: "string \<Rightarrow> string" where
  "pretty_name line =
     (let v = takeWhile (\<lambda>c. c \<noteq> NL) (drop 12 line) in
      if is_prefix [DQ] v then takeWhile (\<lambda>c. c \<noteq> DQ) (drop 1 v) else v)"

definition ctc_sysinfo :: "fsys \<Rightarrow> string option \<Rightarrow> nat \<Rightarrow> nat \<Rightarrow> string \<times> string" where
  "ctc_sysinfo fs release os_sz k_sz =
     (let f = (case fs ''/etc/os-release'' of Some c \<Rightarrow> Some c | None \<Rightarrow> fs ''/usr/lib/os-release'');
          os_version =
            (case f of
               None \<Rightarrow> []
             | Some content \<Rightarrow>
                 (case find (\<lambda>l. is_prefix ''PRETTY_NAME='' l) (map cstr (fgets_lines 512 content)) of
                    None \<Rightarrow> []
                  | Some line \<Rightarrow> snprintf_s os_sz (pretty_name line)));
          kernel = (case release of None \<Rightarrow> [] | Some r \<Rightarrow> snprintf_s k_sz r)
      in (os_version, kernel))"

subsection \<open>The binding in the configuration file\<close>

definition binding_line :: "ctc_binding \<Rightarrow> string \<Rightarrow> ctc_binding" where
  "binding_line b buf =
     (let line = cstr buf in
      if is_prefix ''#'' line then b
      else
        (case strchr line CHR ''='' of
           None \<Rightarrow> b
         | Some eq \<Rightarrow>
             let k = takeWhile (\<lambda>c. c \<noteq> CHR ''='') line; v = takeWhile (\<lambda>c. c \<noteq> NL) (drop 1 eq) in
             if k = ''bound_server_id'' then b\<lparr>b_server_id := snprintf_s 128 v\<rparr>
             else if k = ''bound_server_ip'' then b\<lparr>b_server_ip := snprintf_s 64 v\<rparr>
             else if k = ''bound_server_port'' then b\<lparr>b_server_port := atoi v\<rparr>
             else if k = ''approved'' then b\<lparr>b_approved := atoi v\<rparr>
             else b))"

definition ctc_binding_load :: "fsys \<Rightarrow> string \<Rightarrow> ctc_binding \<times> int" where
  "ctc_binding_load fs path =
     (case fs path of
        None \<Rightarrow> (no_binding, -1)
      | Some content \<Rightarrow> (foldl binding_line no_binding (fgets_lines 512 content), 0))"

definition binding_out :: "ctc_binding \<Rightarrow> nat \<Rightarrow> string" where
  "binding_out b i =
     (if i = 0 then kv_line ''bound_server_id'' (b_server_id b)
      else if i = 1 then kv_line ''bound_server_ip'' (b_server_ip b)
      else if i = 2 then kv_line ''bound_server_port'' (show_int (b_server_port b))
      else kv_line ''approved'' (show_int (b_approved b)))"

text \<open>Which of the four lines a line of the old file is.\<close>

definition binding_key :: "string \<Rightarrow> nat option" where
  "binding_key line =
     (if is_prefix ''bound_server_id='' line then Some 0
      else if is_prefix ''bound_server_ip='' line then Some 1
      else if is_prefix ''bound_server_port='' line then Some 2
      else if is_prefix ''approved='' line then Some 3
      else None)"

fun binding_copy :: "ctc_binding \<Rightarrow> string list \<Rightarrow> nat list \<Rightarrow> string \<Rightarrow> string \<times> nat list" where
  "binding_copy b [] wrote out = (out, wrote)"
| "binding_copy b (buf # bufs) wrote out =
     (case binding_key (cstr buf) of
        Some i \<Rightarrow> binding_copy b bufs (i # wrote) (out @ binding_out b i)
      | None \<Rightarrow> binding_copy b bufs wrote (out @ cstr buf))"

definition ctc_binding_save ::
  "(string \<Rightarrow> bool) \<Rightarrow> bool \<Rightarrow> ctc_binding \<Rightarrow> string \<Rightarrow> fsys \<Rightarrow> fsys \<times> int"
where
  "ctc_binding_save open_ok rename_ok b path fs =
     (let tmp = snprintf_s 512 (path @ ''.tmp'') in
      if \<not> open_ok tmp then (fs, -1)
      else
        let (out, wrote) = (case fs path of
                              None \<Rightarrow> ([], [])
                            | Some content \<Rightarrow> binding_copy b (fgets_lines 512 content) [] []);
            out = out @ concat (map (binding_out b) (filter (\<lambda>i. i \<notin> set wrote) [0, 1, 2, 3]));
            fs = fs(tmp \<mapsto> out)
        in
          if \<not> rename_ok then (fs, -1)
          else ((fs(path := fs tmp))(tmp := (if tmp = path then fs tmp else None)), 0))"

subsection \<open>Handshake\<close>

record hs_env =
  hs_fd :: int
  hs_addr_ok :: bool
  hs_connect_ok :: bool
  hs_tls :: tls_env
  hs_write :: "nat \<Rightarrow> nat \<Rightarrow> int"
  hs_ans :: io_answers
  hs_mem_ok :: bool
  hs_input :: "byte list"
  hs_names :: host_names
  hs_os_ver :: string
  hs_kernel :: string
  hs_disk :: string
  hs_time :: string

text \<open>\<open>hs_disk\<close> is the printed disk usage (the numbers of \<open>ctc_collect_metrics\<close>), \<open>hs_time\<close> the time.\<close>

definition handshake_text :: "hs_env \<Rightarrow> ctc_config \<Rightarrow> ctc_binding option \<Rightarrow> string" where
  "handshake_text e cfg binding =
     (let un = hs_names e;
          payload = snprintf_s 1536 (
            CHR ''{'' # json_str_field ''agent_id'' (agent_id cfg) @ '','' @
            json_str_field ''name'' (cfg_name cfg) @ '','' @
            json_str_field ''hostname'' (nodename un) @ '','' @
            json_str_field ''os'' (sysname un) @ '','' @
            json_str_field ''os_version'' (hs_os_ver e) @ '','' @
            json_str_field ''kernel'' (hs_kernel e) @ '','' @
            json_str_field ''arch'' (machine un) @ '','' @
            json_str_field ''version'' CTC_VERSION @ '','' @ hs_disk e @ '','' @
            json_str_field ''bound_server_id'' (case binding of None \<Rightarrow> [] | Some b \<Rightarrow> b_server_id b) @ ''}'')
      in snprintf_s 2048 (
            CHR ''{'' # json_str_field ''id'' (''hs-'' @ hs_time e) @ '','' @
            json_str_field ''type'' ''handshake_req'' @ '','' @
            DQ # ''version'' @ DQ # CHR '':'' # show_int CTC_PROTO_VERSION @ '','' @
            json_str_field ''token'' (token cfg) @ '','' @
            DQ # ''payload'' @ DQ # CHR '':'' # payload @ ''}''))"

definition handshake_ack :: "ctc_config \<Rightarrow> string option \<Rightarrow> (ctc_binding \<times> int) outcome" where
  "handshake_ack cfg payload =
     and_then (case payload of
                 None \<Rightarrow> Ret (0, [], [])
               | Some p \<Rightarrow>
                   and_then (get_field p ''server_id'' 128) (\<lambda>sid.
                   and_then (get_field p ''server_ip'' 64) (\<lambda>sip.
                     Ret (ctc_json_get_bool p ''approved'' 0, sid, sip))))
       (\<lambda>(approved, sid, sip).
         if approved \<noteq> 0 \<and> sid \<noteq> [] then
           Ret (\<lparr>b_server_id = snprintf_s 128 sid,
                 b_server_ip = snprintf_s 64 (if sip \<noteq> [] then sip else server_host cfg),
                 b_server_port = server_port cfg, b_approved = 1\<rparr>, 0)
         else Ret (no_binding, 1))"

definition ctc_handshake ::
  "hs_env \<Rightarrow> ctc_config \<Rightarrow> ctc_binding option \<Rightarrow> (ctc_binding \<times> int) outcome option"
where
  "ctc_handshake e cfg binding =
     (let full = handshake_text e cfg binding in
      if hs_write e 0 4 \<noteq> 4 then Some (Ret (no_binding, -1))
      else if hs_write e 1 (length full) \<noteq> int (length full) then Some (Ret (no_binding, -1))
      else
        (case ctc_recv (hs_mem_ok e) (hs_ans e) 0 (hs_input e)
                \<lparr>msg_id = None, msg_type = None, msg_session_id = None, msg_payload = None\<rparr> of
           None \<Rightarrow> None
         | Some (rc, k, input, resp) \<Rightarrow>
             if rc < 0 then Some (Ret (no_binding, -1))
             else if msg_type resp = Some ''handshake_ack'' then Some (handshake_ack cfg (msg_payload resp))
             else Some (Ret (no_binding, -1))))"

subsection \<open>LAN scan\<close>

definition CTC_DISCOVER_PORT :: int where
  "CTC_DISCOVER_PORT = 9001"

definition probe_packet :: "ctc_config \<Rightarrow> byte list" where
  "probe_packet cfg =
     (let text = CHR ''{'' # json_str_field ''type'' ''scan_req'' @ '','' @ json_str_field ''agent_id'' (agent_id cfg)
                 @ '','' @ json_str_field ''version'' CTC_VERSION @ ''}'';
          blen = length text;
          body = snprintf_s 256 text
      in ''CTC1'' @ [char_of (blen div 256), char_of blen] @ take blen body)"

text \<open>An answer packet: the port it names, \<open>None\<close> where the loop skips it.\<close>

definition scan_answer :: "byte list \<Rightarrow> int option" where
  "scan_answer pkt =
     (let rbuf = take 1024 pkt; n = length rbuf in
      if n < 6 then None
      else if take 4 rbuf \<noteq> ''CTC1'' then None
      else
        let bl = of_char (rbuf ! 4) * 256 + of_char (rbuf ! 5) :: nat in
        if bl = 0 \<or> bl > n - 6 then None
        else
          let resp = cstr (take bl (drop 6 rbuf)) in
          Some (sint (word_of_int (ctc_json_get_int resp ''port'' 9000) :: 32 word)))"

text \<open>The packets that arrive before the deadline, each with the sender's address.\<close>

fun scan_collect :: "nat \<Rightarrow> (string \<times> byte list) list \<Rightarrow> (string \<times> int) list \<Rightarrow> (string \<times> int) list" where
  "scan_collect mx [] out = out"
| "scan_collect mx ((from_addr, pkt) # r) out =
     (if length out \<ge> mx then out
      else
        (case scan_answer pkt of
           None \<Rightarrow> scan_collect mx r out
         | Some port \<Rightarrow>
             let ip = snprintf_s 64 from_addr in
             scan_collect mx r (if (ip, port) \<in> set out then out else out @ [(ip, port)])))"

definition scan_lan :: "(string \<times> byte list) list option \<Rightarrow> nat \<Rightarrow> (string \<times> int) list" where
  "scan_lan packets mx = (case packets of None \<Rightarrow> [] | Some ps \<Rightarrow> scan_collect mx ps [])"

subsection \<open>Scanning for a server\<close>

type_synonym peers = "nat \<Rightarrow> string \<Rightarrow> int \<Rightarrow> hs_env"
type_synonym scan_state = "tls_state \<times> nat"

text \<open>
  One attempt.  The state is the TLS table and the number of attempts; \<open>out\<close> is the binding the
  caller passes in, which an attempt that fails before the handshake leaves as it is.
\<close>

definition try_connect_handshake ::
  "peers \<Rightarrow> string \<Rightarrow> int \<Rightarrow> ctc_config \<Rightarrow> ctc_binding \<Rightarrow> ctc_binding \<Rightarrow> scan_state
     \<Rightarrow> (scan_state \<times> ctc_binding \<times> int) outcome option"
where
  "try_connect_handshake peer host port cfg binding out s =
     (let (t, k) = s; e = peer k host port; fd = hs_fd e in
      if fd < 0 \<or> \<not> hs_addr_ok e \<or> \<not> hs_connect_ok e then Some (Ret ((t, k + 1), out, -1))
      else
        run_then (Some (if use_tls cfg \<noteq> 0 then ctc_tls_wrap (hs_tls e) fd (fingerprint_arg cfg) t else Ret (t, 0)))
          (\<lambda>(t, rc).
            if rc < 0 then Some (Ret ((t, k + 1), out, -1))
            else run_then (ctc_handshake e cfg (Some binding)) (\<lambda>(b, rc).
                   Some (Ret ((ctc_tls_cleanup fd t, k + 1), b, rc)))))"

definition expected_binding :: "ctc_config \<Rightarrow> ctc_binding" where
  "expected_binding cfg = no_binding\<lparr>b_server_id := snprintf_s 128 (bound_server_id cfg)\<rparr>"

fun scan_hosts ::
  "peers \<Rightarrow> ctc_config \<Rightarrow> string list \<Rightarrow> ctc_binding \<Rightarrow> scan_state \<Rightarrow> (scan_state \<times> ctc_binding \<times> int) outcome option"
where
  "scan_hosts peer cfg [] out s = Some (Ret (s, out, -1))"
| "scan_hosts peer cfg (h # hs) out s =
     (let ip = trim_blanks h in
      if ip = [] then scan_hosts peer cfg hs out s
      else
        run_then (try_connect_handshake peer ip (server_port cfg) cfg (expected_binding cfg) out s) (\<lambda>(s, out, rc).
          if rc = 0 \<and> (bound_server_id cfg = [] \<or> b_server_id out = bound_server_id cfg) then Some (Ret (s, out, 0))
          else if rc = 1 then Some (Ret (s, out, 1))
          else scan_hosts peer cfg hs out s))"

fun scan_cands ::
  "peers \<Rightarrow> ctc_config \<Rightarrow> (string \<times> int) list \<Rightarrow> bool \<Rightarrow> ctc_binding \<Rightarrow> scan_state
     \<Rightarrow> (scan_state \<times> ctc_config \<times> ctc_binding \<times> int) outcome option"
where
  "scan_cands peer cfg [] saw_pending out s = Some (Ret (s, cfg, out, if saw_pending then 1 else -1))"
| "scan_cands peer cfg ((ip, port) # cs) saw_pending out s =
     run_then (try_connect_handshake peer ip port cfg (expected_binding cfg) no_binding s) (\<lambda>(s, got, rc).
       if rc = 0 then
         if bound_server_id cfg \<noteq> [] \<and> b_server_id got \<noteq> bound_server_id cfg
         then scan_cands peer cfg cs saw_pending out s
         else
           let out = (if b_server_ip got = [] then got\<lparr>b_server_ip := snprintf_s 64 ip\<rparr> else got)
           in Some (Ret (s, cfg\<lparr>server_host := snprintf_s 128 ip, server_port := port\<rparr>, out, 0))
       else scan_cands peer cfg cs (saw_pending \<or> rc = 1) out s)"

definition scan_network ::
  "peers \<Rightarrow> (string \<times> byte list) list option \<Rightarrow> ctc_config \<Rightarrow> ctc_binding \<Rightarrow> scan_state
     \<Rightarrow> (scan_state \<times> ctc_config \<times> ctc_binding \<times> int) outcome option"
where
  "scan_network peer packets cfg out s =
     (case scan_lan packets 16 of
        [] \<Rightarrow>
          if server_hosts cfg = [] then Some (Ret (s, cfg, out, -1))
          else run_then (scan_hosts peer cfg (strtok_all (snprintf_s 512 (server_hosts cfg)) '','') out s)
                 (\<lambda>(s, out, rc). Some (Ret (s, cfg, out, rc)))
      | cands \<Rightarrow> scan_cands peer cfg cands False out s)"

definition ctc_scan_server ::
  "peers \<Rightarrow> (string \<times> byte list) list option \<Rightarrow> ctc_config \<Rightarrow> scan_state
     \<Rightarrow> (scan_state \<times> ctc_config \<times> ctc_binding \<times> int) outcome option"
where
  "ctc_scan_server peer packets cfg s =
     (if bound_server_id cfg \<noteq> [] \<and> bound_server_ip cfg \<noteq> [] then
        run_then (try_connect_handshake peer (bound_server_ip cfg)
                    (if bound_server_port cfg > 0 then bound_server_port cfg else server_port cfg)
                    cfg (expected_binding cfg) no_binding s)
          (\<lambda>(s, out, rc).
            if rc = 0 then
              if b_server_id out = bound_server_id cfg then Some (Ret (s, cfg, out, 0))
              else Some (Ret (s, cfg, no_binding, -1))
            else if rc = 1 then Some (Ret (s, cfg, out, 1))
            else scan_network peer packets cfg out s)
      else scan_network peer packets cfg no_binding s)"

text \<open>What \<open>ctc_conn_run\<close> does with an approval (agent.c, lines 573 to 584).\<close>

definition adopt_binding :: "ctc_config \<Rightarrow> ctc_binding \<Rightarrow> ctc_config" where
  "adopt_binding cfg got =
     (let cfg = cfg\<lparr>bound_server_id := snprintf_s 128 (b_server_id got),
                    bound_server_ip := snprintf_s 64 (if b_server_ip got \<noteq> [] then b_server_ip got else server_host cfg),
                    bound_server_port := (if b_server_port got \<noteq> 0 then b_server_port got else server_port cfg),
                    approved := 1\<rparr>
      in cfg\<lparr>server_host := snprintf_s 128 (bound_server_ip cfg), server_port := bound_server_port cfg\<rparr>)"

subsection \<open>Identity and address of the server found\<close>

lemma handshake_ack_approved:
  "handshake_ack cfg p = Ret (b, 0) \<Longrightarrow> b_approved b = 1 \<and> b_server_port b = server_port cfg \<and> b_server_id b \<noteq> []"
  by (auto simp: handshake_ack_def and_then_Ret snprintf_s_def split: option.splits if_splits)

lemma handshake_approved:
  "ctc_handshake e cfg bd = Some (Ret (b, 0)) \<Longrightarrow> b_approved b = 1 \<and> b_server_port b = server_port cfg \<and> b_server_id b \<noteq> []"
  by (auto simp: ctc_handshake_def Let_def split: option.splits if_splits dest!: handshake_ack_approved)

lemma try_connect_approved:
  "try_connect_handshake peer h p cfg bd out s = Some (Ret (s', b, 0)) \<Longrightarrow>
     b_approved b = 1 \<and> b_server_port b = server_port cfg \<and> b_server_id b \<noteq> []"
  by (auto simp: try_connect_handshake_def Let_def run_then_Ret split: prod.splits if_splits dest!: handshake_approved)

definition found_ok :: "ctc_config \<Rightarrow> ctc_binding \<Rightarrow> bool" where
  "found_ok cfg out \<longleftrightarrow>
     b_approved out = 1 \<and> b_server_port out = server_port cfg \<and> b_server_id out \<noteq> [] \<and>
     (bound_server_id cfg = [] \<or> b_server_id out = bound_server_id cfg)"

lemma scan_hosts_found:
  "scan_hosts peer cfg hs out s = Some (Ret (s', b, 0)) \<Longrightarrow> found_ok cfg b"
proof (induction hs arbitrary: out s)
  case (Cons h hs)
  show ?case
  proof (cases "trim_blanks h = []")
    case False
    with Cons.prems obtain s1 b1 rc where
      t: "try_connect_handshake peer (trim_blanks h) (server_port cfg) cfg (expected_binding cfg) out s = Some (Ret (s1, b1, rc))"
      and r: "(if rc = 0 \<and> (bound_server_id cfg = [] \<or> b_server_id b1 = bound_server_id cfg) then Some (Ret (s1, b1, 0))
          else if rc = 1 then Some (Ret (s1, b1, 1)) else scan_hosts peer cfg hs b1 s1) = Some (Ret (s', b, 0))"
      by (auto simp: Let_def run_then_Ret)
    show ?thesis using r Cons.IH try_connect_approved [of peer _ _ cfg _ out s s1 b1] t
      by (auto simp: found_ok_def split: if_splits)
  qed (use Cons in \<open>simp add: Let_def\<close>)
qed simp

lemma scan_cands_found:
  "scan_cands peer cfg cs pend out s = Some (Ret (s', cfg', b, 0)) \<Longrightarrow>
     found_ok cfg b \<and> (\<exists>(ip, port)\<in>set cs. cfg' = cfg\<lparr>server_host := snprintf_s 128 ip, server_port := port\<rparr>)"
proof (induction cs arbitrary: pend out s)
  case (Cons c cs)
  obtain ip port where c: "c = (ip, port)" by (cases c)
  with Cons.prems obtain s1 got rc where
    t: "try_connect_handshake peer ip port cfg (expected_binding cfg) no_binding s = Some (Ret (s1, got, rc))"
    by (auto simp: run_then_Ret)
  show ?case
  proof (cases "rc = 0 \<and> (bound_server_id cfg = [] \<or> b_server_id got = bound_server_id cfg)")
    case True
    then have "found_ok cfg got" using try_connect_approved t by (auto simp: found_ok_def)
    then show ?thesis using Cons.prems t True c by (auto simp: Let_def found_ok_def split: if_splits)
  next
    case False
    then show ?thesis using Cons.prems t c Cons.IH [of pend out s1] Cons.IH [of "pend \<or> rc = 1" out s1]
      by (auto split: if_splits)
  qed
qed (simp split: if_splits)

lemma scan_found:
  assumes "ctc_scan_server peer packets cfg s = Some (Ret (s', cfg', out, 0))"
  shows "found_ok cfg out"
proof -
  have net: "scan_network peer packets cfg o' s1 = Some (Ret (s', cfg', out, 0)) \<Longrightarrow> found_ok cfg out" for o' s1
    by (auto simp: scan_network_def run_then_Ret split: list.splits if_splits dest!: scan_hosts_found scan_cands_found)
  show ?thesis
  proof (cases "bound_server_id cfg \<noteq> [] \<and> bound_server_ip cfg \<noteq> []")
    case True
    with assms obtain s1 b1 rc where
      t: "try_connect_handshake peer (bound_server_ip cfg) (if bound_server_port cfg > 0 then bound_server_port cfg else server_port cfg)
            cfg (expected_binding cfg) no_binding s = Some (Ret (s1, b1, rc))"
      and r: "(if rc = 0 then if b_server_id b1 = bound_server_id cfg then Some (Ret (s1, cfg, b1, 0)) else Some (Ret (s1, cfg, no_binding, -1))
          else if rc = 1 then Some (Ret (s1, cfg, b1, 1)) else scan_network peer packets cfg b1 s1) = Some (Ret (s', cfg', out, 0))"
      by (auto simp: ctc_scan_server_def run_then_Ret)
    have "rc = 0 \<Longrightarrow> b_approved b1 = 1 \<and> b_server_port b1 = server_port cfg \<and> b_server_id b1 \<noteq> []"
      using t try_connect_approved by blast
    then show ?thesis using r net [of b1 s1] by (auto simp: found_ok_def split: if_splits)
  next
    case False
    with assms net show ?thesis by (simp add: ctc_scan_server_def)
  qed
qed

subsection \<open>A run\<close>

definition sample_ack_payload :: string where
  "sample_ack_payload = CHR ''{'' # json_str_field ''server_id'' ''S1'' @ '','' @ DQ # ''approved'' @ DQ # '':true}''"

definition sample_ack :: string where
  "sample_ack = CHR ''{'' # json_str_field ''type'' ''handshake_ack'' @ '','' @ DQ # ''payload'' @ DQ # CHR '':'' #
     sample_ack_payload @ ''}''"

definition sample_peer :: peers where
  "sample_peer k host port =
     \<lparr>hs_fd = 5, hs_addr_ok = True, hs_connect_ok = True,
      hs_tls = \<lparr>ctx_new_ok = True, ssl_new = Some 0, connect_ok = True, peer_cert = None, sha256 = (\<lambda>_. [])\<rparr>,
      hs_write = (\<lambda>_ n. int n), hs_ans = (\<lambda>_ n. (int n, False)), hs_mem_ok = True, hs_input = htonl (length sample_ack) @ sample_ack,
      hs_names = \<lparr>nodename = [], sysname = [], machine = []\<rparr>, hs_os_ver = [], hs_kernel = [], hs_disk = [], hs_time = []\<rparr>"

definition sample_packets :: "(string \<times> byte list) list option" where
  "sample_packets =
     Some [(''10.0.0.9'', ''CTC1'' @ [NUL, CHR 0x0B] @ CHR ''{'' # DQ # ''port'' @ DQ # '':90}'')]"

definition unbound :: ctc_config where
  "unbound = sample_config\<lparr>bound_server_id := [], bound_server_ip := [], use_tls := 0, approved := 0\<rparr>"

lemma sample_ack_facts:
  "dup_field_raw sample_ack ''type'' = Some ''handshake_ack''" "dup_payload_raw sample_ack = Some sample_ack_payload"
  "is_cstr sample_ack" "length sample_ack = 69"
  by code_simp+

lemma sample_handshake_ack:
  "handshake_ack unbound (Some sample_ack_payload)
     = Ret (\<lparr>b_server_id = ''S1'', b_server_ip = ''10.0.0.1'', b_server_port = 9000, b_approved = 1\<rparr>, 0)"
  by code_simp

lemma sample_lan: "scan_lan sample_packets 16 = [(''10.0.0.9'', 90)]"
  by code_simp

lemma sample_scan:
  "\<exists>s' out. ctc_scan_server sample_peer sample_packets unbound (\<lparr>g_ctx = False, g_map = []\<rparr>, 0)
     = Some (Ret (s', unbound\<lparr>server_host := ''10.0.0.9'', server_port := 90\<rparr>, out, 0)) \<and> b_server_id out = ''S1''"
proof -
  have "good_io (\<lambda>_ n. (int n, False))" by (auto simp: good_io_def)
  then obtain k where
    "ctc_recv True (\<lambda>_ n. (int n, False)) 0 (htonl (length sample_ack) @ sample_ack @ [])
        \<lparr>msg_id = None, msg_type = None, msg_session_id = None, msg_payload = None\<rparr>
      = Some (0, k, [], \<lparr>msg_id = None, msg_type = None, msg_session_id = None, msg_payload = None\<rparr>
         \<lparr>msg_id := dup_field_raw sample_ack ''id'', msg_type := Some ''handshake_ack'',
           msg_session_id := dup_field_raw sample_ack ''session_id'', msg_payload := dup_payload_raw sample_ack\<rparr>)"
    using recv_frame [of "\<lambda>_ n. (int n, False)" sample_ack "''handshake_ack''"] sample_ack_facts
    by (fastforce simp: CTC_MAX_MSG_def)
  then have "ctc_handshake (sample_peer 0 ''10.0.0.9'' 90) unbound b
      = Some (Ret (\<lparr>b_server_id = ''S1'', b_server_ip = ''10.0.0.1'', b_server_port = 9000, b_approved = 1\<rparr>, 0))" for b
    by (simp add: ctc_handshake_def sample_peer_def sample_ack_facts sample_handshake_ack)
  moreover have "bound_server_id unbound = []" "use_tls unbound = 0" by (simp_all add: unbound_def sample_config_def)
  moreover have "hs_fd (sample_peer 0 ''10.0.0.9'' 90) = 5" "hs_addr_ok (sample_peer 0 ''10.0.0.9'' 90)"
    "hs_connect_ok (sample_peer 0 ''10.0.0.9'' 90)" by (simp_all add: sample_peer_def)
  ultimately show ?thesis
    by (simp add: ctc_scan_server_def scan_network_def sample_lan try_connect_handshake_def)
qed



text \<open>
  The address found by a scan is lost: whatever port the answering server has named, the
  binding carries the port that was configured before the scan, and after \<open>ctc_conn_run\<close> has
  adopted the binding the agent connects to that old port.
\<close>

lemma scan_port_is_dropped:
  assumes "ctc_scan_server peer packets cfg s = Some (Ret (s', cfg', out, 0))" "server_port cfg \<noteq> 0"
  shows "server_port (adopt_binding cfg' out) = server_port cfg \<and>
    bound_server_port (adopt_binding cfg' out) = server_port cfg"
  using scan_found [OF assms(1)] assms(2) by (simp add: found_ok_def adopt_binding_def)

end
