(* ===== verification/Shell.thy ===== *)
theory Shell
  imports TextLines AgentJson
begin

section \<open>Running shell commands (clients/src/sysadmin.c, clients/src/sysops.c)\<close>

text \<open>
  Most administrative commands of the agent build a command line, hand it to \<open>popen\<close> and put the
  output into a JSON reply.  This theory has the token recognition of the POSIX shell for the
  part of the language these lines use, the two wrappers \<open>run_cmd\<close> and \<open>xrun_cmd\<close> with the
  quoting each does, and the two escape routines \<open>jesc\<close> and \<open>xesc\<close> for the output.
\<close>

subsection \<open>Tokens of the shell\<close>

text \<open>
  Token recognition after POSIX.1-2017, Shell and Utilities 2.2 and 2.3.  A character of a word is
  bare or quoted; bare ones may still be expanded, quoted ones stand for themselves.  Words are
  delimited by blanks and operators, and digits in front of a redirection are its number.
  Lines with double quotes, \<open>$\<close>, a backquote or a comment are \<open>Unmodelled\<close>; a line that ends inside
  single quotes is \<open>Unterminated\<close>, and the shell refuses it.
\<close>

datatype sh_char = Bare char | Lit char

datatype sh_tok = Word "sh_char list" | IoNum "sh_char list" | Oper string

datatype sh_line = Toks "sh_tok list" | Unterminated | Unmodelled

fun tok_cons :: "sh_tok list \<Rightarrow> sh_line \<Rightarrow> sh_line" where
  "tok_cons ts (Toks us) = Toks (ts @ us)"
| "tok_cons ts Unterminated = Unterminated"
| "tok_cons ts Unmodelled = Unmodelled"

definition sh_op :: "char \<Rightarrow> bool" where
  "sh_op c \<longleftrightarrow> c \<in> set [CHR ''|'', CHR ''&'', CHR '';'', CHR ''<'', CHR ''>'', CHR ''('', CHR '')'', NL]"

definition sh_op2 :: "char \<Rightarrow> char \<Rightarrow> bool" where
  "sh_op2 c d \<longleftrightarrow> [c, d] \<in> set [''&&'', ''||'', '';;'', ''<<'', ''>>'', ''<&'', ''>&'', ''<>'', ''>|'']"

definition sh_other :: "char \<Rightarrow> bool" where
  "sh_other c \<longleftrightarrow> c \<in> set [DQ, CHR ''$'', CHR 0x60]"

definition sh_blank :: "char \<Rightarrow> bool" where
  "sh_blank c \<longleftrightarrow> c \<in> set [CHR '' '', CHR 0x09]"

definition bare_digit :: "sh_char \<Rightarrow> bool" where
  "bare_digit x = (case x of Bare c \<Rightarrow> isdigit c | Lit c \<Rightarrow> False)"

text \<open>The word read so far becomes a token; \<open>c\<close> is the character that ends it.\<close>

definition flush :: "char \<Rightarrow> sh_char list option \<Rightarrow> sh_tok list" where
  "flush c w =
     (case w of
        None \<Rightarrow> []
      | Some x \<Rightarrow> [if c \<in> set [CHR ''<'', CHR ''>''] \<and> x \<noteq> [] \<and> list_all bare_digit x then IoNum x else Word x])"

definition word_add :: "sh_char list option \<Rightarrow> sh_char list \<Rightarrow> sh_char list option" where
  "word_add w x = Some ((case w of None \<Rightarrow> [] | Some y \<Rightarrow> y) @ x)"

fun sh_lex :: "bool \<Rightarrow> sh_char list option \<Rightarrow> string \<Rightarrow> sh_line" where
  "sh_lex True w [] = Unterminated"
| "sh_lex False w [] = Toks (flush NL w)"
| "sh_lex True w (c # cs) = (if c = SQ then sh_lex False w cs else sh_lex True (word_add w [Lit c]) cs)"
| "sh_lex False w (c # cs) =
     (if c = SQ then sh_lex True (word_add w []) cs
      else if c = BSL then
        (case cs of
           [] \<Rightarrow> sh_lex False (word_add w [Lit BSL]) []
         | d # ds \<Rightarrow> if d = NL then sh_lex False w ds else sh_lex False (word_add w [Lit d]) ds)
      else if sh_other c \<or> (c = CHR ''#'' \<and> w = None) then Unmodelled
      else if sh_blank c then tok_cons (flush c w) (sh_lex False None cs)
      else if sh_op c then
        (case cs of
           [] \<Rightarrow> tok_cons (flush c w @ [Oper [c]]) (sh_lex False None [])
         | d # ds \<Rightarrow>
             if sh_op2 c d then tok_cons (flush c w @ [Oper [c, d]]) (sh_lex False None ds)
             else tok_cons (flush c w @ [Oper [c]]) (sh_lex False None (d # ds)))
      else sh_lex False (word_add w [Bare c]) cs)"

definition sh_tokens :: "string \<Rightarrow> sh_line" where
  "sh_tokens s = sh_lex False None s"

text \<open>Characters that are part of a bare word and are not subject to any expansion.\<close>

definition sh_inert :: "char \<Rightarrow> bool" where
  "sh_inert c \<longleftrightarrow> isalnum c \<or> c \<in> set ''-_.@/:=+,%''"

subsection \<open>The host\<close>

text \<open>
  \<open>sh_popen\<close> is what \<open>popen\<close> and the shell make of a command line: the bytes on standard output, or
  \<open>None\<close> where \<open>popen\<close> fails.  \<open>sh_alloc\<close> tells which sizes \<open>malloc\<close> and \<open>realloc\<close> serve,
  \<open>sh_access\<close> what \<open>access\<close> finds, \<open>sh_root\<close> whether the agent runs as root, \<open>sh_system\<close> the status
  of a command given to \<open>system\<close>, \<open>sh_fopen_w\<close> which files can be opened for writing, and \<open>sh_xdg\<close>
  is the environment variable XDG_RUNTIME_DIR.
\<close>

record shell_host =
  sh_popen :: "string \<Rightarrow> byte list option"
  sh_alloc :: "nat \<Rightarrow> bool"
  sh_access :: "string \<Rightarrow> bool"
  sh_root :: bool
  sh_system :: "string \<Rightarrow> int"
  sh_fopen_w :: "string \<Rightarrow> bool"
  sh_xdg :: "string option"

text \<open>
  The loop that reads the output into a buffer of \<open>cap\<close> bytes, doubled as long as it does not
  exceed \<open>lim\<close>.
\<close>

function read_output :: "shell_host \<Rightarrow> nat \<Rightarrow> nat \<Rightarrow> byte list \<Rightarrow> byte list" where
  "read_output h lim cap out =
     (if length out + 1 < cap \<or> cap = 0 then out
      else if cap > lim \<or> \<not> sh_alloc h (cap * 2) then take (cap - 1) out
      else read_output h lim (cap * 2) out)"
  by pat_completeness auto

termination
  by (relation "measure (\<lambda>(h, lim, cap, out). lim + 1 - cap)") auto

declare read_output.simps [simp del]

text \<open>
  A growing text buffer (\<open>sbuf\<close>, \<open>xbuf\<close>): it starts with \<open>cap\<close> bytes and is doubled until the text
  and its NUL fit; no result of \<open>malloc\<close> or \<open>realloc\<close> is looked at.
\<close>

function buf_cap :: "nat \<Rightarrow> nat \<Rightarrow> nat" where
  "buf_cap cap need = (if need \<le> cap \<or> cap = 0 then cap else buf_cap (cap * 2) need)"
  by pat_completeness auto

termination
  by (relation "measure (\<lambda>(cap, need). need - cap)") auto

function buf_ok :: "shell_host \<Rightarrow> nat \<Rightarrow> nat \<Rightarrow> bool" where
  "buf_ok h cap need =
     (if need \<le> cap \<or> cap = 0 then True else sh_alloc h (cap * 2) \<and> buf_ok h (cap * 2) need)"
  by pat_completeness auto

termination
  by (relation "measure (\<lambda>(h, cap, need). need - cap)") auto

declare buf_cap.simps [simp del] buf_ok.simps [simp del]

definition buf_text :: "shell_host \<Rightarrow> nat \<Rightarrow> string \<Rightarrow> string outcome" where
  "buf_text h cap s = (if sh_alloc h cap \<and> buf_ok h cap (length s + 1) then Ret s else Undef)"

text \<open>A reply printed into a buffer of its own whose allocation is not checked.\<close>

definition fmt_text :: "shell_host \<Rightarrow> nat \<Rightarrow> string \<Rightarrow> string outcome" where
  "fmt_text h cap s = (if sh_alloc h cap then Ret (snprintf_s cap s) else Undef)"

text \<open>
  Shell commands, files and the like that a handler leaves behind, in order, beside its reply.
\<close>

datatype effect = Popen string | System string | WriteFile string string | Spawn "string list" string | Chmod string | Unlink string

type_synonym reply = "(effect list \<times> string) outcome"

subsection \<open>\<open>run_cmd\<close>\<close>

text \<open>The loop of \<open>run_cmd\<close> that copies the command between single quotes, with the bytes written.\<close>

fun run_quote :: "nat \<Rightarrow> string \<Rightarrow> string \<Rightarrow> string" where
  "run_quote cap acc [] = acc"
| "run_quote cap acc (c # cs) =
     (if length acc + 8 < cap then run_quote cap (acc @ (if c = SQ then [SQ, BSL, SQ, SQ] else [c])) cs else acc)"

definition run_cmd_line :: "string \<Rightarrow> int \<Rightarrow> string" where
  "run_cmd_line cmd timeout_sec =
     (let wcap = 16384; q = run_quote wcap (''timeout '' @ show_int timeout_sec @ '' sh -c '' @ [SQ]) cmd in
      q @ snprintf_s (wcap - length q) (SQ # '' 2>/dev/null''))"

definition run_cmd :: "shell_host \<Rightarrow> string \<Rightarrow> int \<Rightarrow> string option" where
  "run_cmd h cmd timeout_sec =
     (case sh_popen h (run_cmd_line cmd timeout_sec) of
        None \<Rightarrow> None
      | Some out \<Rightarrow>
          if \<not> sh_alloc h 8192 then None
          else Some (cstr (read_output h (4 * 1024 * 1024) 8192 out)))"

subsection \<open>\<open>xrun_cmd\<close>\<close>

definition xrun_quote :: "string \<Rightarrow> string" where
  "xrun_quote cmd = concat (map (\<lambda>c. if c = SQ then [SQ, BSL, SQ] else [c]) cmd)"

definition xrun_cmd_line :: "string \<Rightarrow> int \<Rightarrow> string" where
  "xrun_cmd_line cmd timeout_sec =
     snprintf_s 8192 (''timeout '' @ show_int timeout_sec @ '' bash -c '' @ SQ # xrun_quote cmd @ SQ # '' 2>/dev/null'')"

text \<open>The quoted copy has to fit into the \<open>qcap\<close> bytes allocated for it.\<close>

definition xrun_cmd :: "shell_host \<Rightarrow> string \<Rightarrow> int \<Rightarrow> string option outcome" where
  "xrun_cmd h cmd timeout_sec =
     (let qcap = length cmd * 2 + 128 in
      if \<not> sh_alloc h qcap then Ret None
      else if length (xrun_quote cmd) \<ge> qcap then Undef
      else if length (xrun_cmd_line cmd timeout_sec) \<ge> 8192 then Ret None
      else
        (case sh_popen h (xrun_cmd_line cmd timeout_sec) of
           None \<Rightarrow> Ret None
         | Some out \<Rightarrow>
             if \<not> sh_alloc h 16384 then Ret None
             else Ret (Some (cstr (read_output h (8 * 1024 * 1024) 16384 out)))))"

subsection \<open>Escaping output\<close>

definition jesc_char :: "char \<Rightarrow> string" where
  "jesc_char c =
     (if c = DQ then [BSL, DQ]
      else if c = BSL then [BSL, BSL]
      else if c = NL then '' ''
      else if c = CHR 0x0D then [c]
      else if c = CHR 0x09 then '' ''
      else if (of_char c :: nat) < 32 then '' ''
      else [c])"

text \<open>The buffer of \<open>2 * strlen + 1\<close> bytes always suffices (\<open>length_jesc\<close>), so it is never grown.\<close>

definition jesc :: "shell_host \<Rightarrow> string \<Rightarrow> string" where
  "jesc h s = (if \<not> sh_alloc h (length s * 2 + 1) then [] else concat (map jesc_char s))"

definition xesc_char :: "char \<Rightarrow> string" where
  "xesc_char c =
     (if c = DQ \<or> c = BSL then [BSL, c]
      else if c = NL then [BSL, CHR ''n'']
      else if c = CHR 0x09 then [BSL, CHR ''t'']
      else if c = CHR 0x0D then []
      else if (of_char c :: nat) < 32 then '' ''
      else [c])"

definition xesc :: "shell_host \<Rightarrow> string \<Rightarrow> string" where
  "xesc h s = (if \<not> sh_alloc h (length s * 2 + 2) then [] else concat (map xesc_char s))"

definition safe_name :: "string \<Rightarrow> bool" where
  "safe_name s \<longleftrightarrow> s \<noteq> [] \<and> list_all (\<lambda>c. isalnum c \<or> c = CHR ''-'' \<or> c = CHR ''_'' \<or> c = CHR ''.'') s"

lemma length_jesc: "length (jesc h s) \<le> 2 * length s"
proof -
  have "length (concat (map jesc_char s)) \<le> 2 * length s" by (induction s) (auto simp: jesc_char_def)
  then show ?thesis by (simp add: jesc_def)
qed

lemma length_xesc: "length (xesc h s) \<le> 2 * length s"
proof -
  have "length (concat (map xesc_char s)) \<le> 2 * length s" by (induction s) (auto simp: xesc_char_def)
  then show ?thesis by (simp add: xesc_def)
qed

subsection \<open>Quoted text and bare words\<close>

lemma word_add_add [simp]: "word_add (word_add w x) y = word_add w (x @ y)"
  by (simp add: word_add_def)

lemma lex_quoted: "SQ \<notin> set s \<Longrightarrow> sh_lex True w (s @ SQ # r) = sh_lex False (word_add w (map Lit s)) r" if "w \<noteq> None"
  using that
proof (induction s arbitrary: w)
  case Nil
  then show ?case by (auto simp: word_add_def)
next
  case (Cons c s)
  then show ?case by (auto simp: word_add_def)
qed

lemma sh_inert_facts:
  assumes "sh_inert c"
  shows "c \<noteq> SQ" "c \<noteq> BSL" "\<not> sh_other c" "c \<noteq> CHR ''#''" "\<not> sh_blank c" "\<not> sh_op c"
  using assms
  by (auto simp: sh_inert_def sh_other_def sh_blank_def sh_op_def isalnum_def isdigit_def isupper_def islower_def)

lemma lex_bare: "list_all sh_inert s \<Longrightarrow> s \<noteq> [] \<Longrightarrow> sh_lex False w (s @ r) = sh_lex False (word_add w (map Bare s)) r"
proof (induction s arbitrary: w)
  case (Cons c s)
  then show ?case using sh_inert_facts [of c] by (cases "s = []") simp_all
qed simp

lemma lex_blank: "sh_lex False w (CHR '' '' # r) = tok_cons (flush CHR '' '' w) (sh_lex False None r)"
  by (simp add: sh_other_def sh_blank_def)

lemma lex_open: "sh_lex False w (SQ # r) = sh_lex True (word_add w []) r"
  by simp

lemma lex_bslash: "d \<noteq> NL \<Longrightarrow> sh_lex False w (BSL # d # r) = sh_lex False (word_add w [Lit d]) r"
  by simp

lemma lex_op2: "sh_op2 c d \<Longrightarrow> sh_lex False w (c # d # r) = tok_cons (flush c w @ [Oper [c, d]]) (sh_lex False None r)"
  by (auto simp: sh_op2_def sh_op_def sh_other_def sh_blank_def)

declare sh_lex.simps(4) [simp del]

definition sq_quote :: "string \<Rightarrow> string" where
  "sq_quote s = concat (map (\<lambda>c. if c = SQ then [SQ, BSL, SQ, SQ] else [c]) s)"

lemma lex_sq_quote: "sh_lex True (Some x) (sq_quote s @ SQ # r) = sh_lex False (Some (x @ map Lit s)) r"
proof (induction s arbitrary: x)
  case Nil
  then show ?case by (simp add: sq_quote_def)
next
  case (Cons c s)
  then show ?case by (cases "c = SQ") (simp_all add: sq_quote_def word_add_def lex_bslash lex_open)
qed

lemma run_quote_fits:
  "length acc + length (sq_quote s) + 8 \<le> cap \<Longrightarrow> run_quote cap acc s = acc @ sq_quote s"
proof (induction s arbitrary: acc)
  case (Cons c s)
  then show ?case by (cases "c = SQ") (auto simp: sq_quote_def)
qed (simp add: sq_quote_def)

text \<open>Words as they are written in a command line.\<close>

abbreviation bare :: "string \<Rightarrow> sh_tok" where
  "bare s \<equiv> Word (map Bare s)"

abbreviation quoted_word :: "string \<Rightarrow> sh_tok" where
  "quoted_word s \<equiv> Word (map Lit s)"

lemma show_int_inert: "list_all sh_inert (show_int i)"
  using show_int_chars [of _ i] by (auto simp: list_all_iff sh_inert_def isalnum_def)

lemma lex_inert: "sh_inert c \<Longrightarrow> sh_lex False w (c # r) = sh_lex False (word_add w [Bare c]) r"
  using lex_bare [of "[c]" w r] by simp

lemma lex_show_int: "sh_lex False w (show_int i @ r) = sh_lex False (word_add w (map Bare (show_int i))) r"
  by (rule lex_bare) (simp_all add: show_int_inert)

lemmas inert_defs = sh_inert_def isalnum_def isdigit_def isupper_def islower_def

text \<open>Evaluation of the token recognition on text that is given literally up to numbers and quoted parts.\<close>

lemmas lex_steps = lex_inert lex_show_int lex_blank lex_open lex_op2 word_add_def flush_def inert_defs sh_op2_def

lemma lex_devnull: "sh_lex False None ''2>/dev/null'' = Toks [IoNum [Bare CHR ''2''], Oper ''>'', bare ''/dev/null'']"
  by code_simp

text \<open>A command that fits reaches the inner shell as one word, byte for byte.\<close>

lemma run_cmd_line_tokens:
  assumes "length (sq_quote cmd) \<le> 16000" "int32 t"
  shows "sh_tokens (run_cmd_line cmd t)
     = Toks [bare ''timeout'', bare (show_int t), bare ''sh'', bare ''-c'', quoted_word cmd,
             IoNum [Bare CHR ''2''], Oper ''>'', bare ''/dev/null'']"
proof -
  let ?p = "''timeout '' @ show_int t @ '' sh -c '' @ [SQ]"
  have l: "length (show_int t) \<le> 11" using assms(2) by (rule length_show_int32)
  have q: "run_quote 16384 ?p cmd = ?p @ sq_quote cmd" using assms(1) l by (intro run_quote_fits) simp
  have "run_cmd_line cmd t = ''timeout '' @ show_int t @ '' sh -c '' @ SQ # sq_quote cmd @ SQ # CHR '' '' # ''2>/dev/null''"
    using assms(1) l unfolding run_cmd_line_def Let_def q by simp
  then show ?thesis
    by (simp add: sh_tokens_def lex_steps lex_sq_quote lex_devnull [simplified] del: show_int_clean)
qed

subsection \<open>A quote too many\<close>

definition sh_quiet :: "char \<Rightarrow> bool" where
  "sh_quiet c \<longleftrightarrow> c \<noteq> SQ \<and> c \<noteq> BSL \<and> c \<noteq> CHR ''#'' \<and> \<not> sh_other c"

lemma lex_in_quotes: "SQ \<notin> set r \<Longrightarrow> sh_lex True w r = Unterminated"
  by (induction r arbitrary: w) auto

lemma op2_quiet: "sh_op2 c d \<Longrightarrow> d \<noteq> SQ"
  by (auto simp: sh_op2_def)

lemma lex_left_open:
  assumes "SQ \<notin> set r"
  shows "list_all sh_quiet s \<Longrightarrow> sh_lex False w (s @ SQ # r) = Unterminated"
proof (induction s arbitrary: w rule: length_induct)
  case (1 s)
  show ?case
  proof (cases s)
    case Nil
    then show ?thesis by (simp add: lex_open lex_in_quotes assms)
  next
    case (Cons c t)
    have c: "c \<noteq> SQ" "c \<noteq> BSL" "c \<noteq> CHR ''#''" "\<not> sh_other c" "list_all sh_quiet t"
      using 1(2) Cons by (auto simp: sh_quiet_def [of c])
    have IH: "sh_lex False w' (t @ SQ # r) = Unterminated" for w' using 1(1) c(5) Cons by simp
    have IH2: "sh_lex False w' (u @ SQ # r) = Unterminated" if "t = d # u" for w' d u
      using 1(1) c(5) Cons that by simp
    show ?thesis
    proof (cases t)
      case Nil
      with IH have "sh_lex False w' (SQ # r) = Unterminated" for w' by simp
      then show ?thesis using Cons c(1-4) Nil op2_quiet [of c SQ] by (auto simp: sh_lex.simps(4) [of w c])
    next
      case (Cons d u)
      with IH have "sh_lex False w' (d # u @ SQ # r) = Unterminated" for w' by simp
      then show ?thesis using \<open>s = c # t\<close> c(1-4) Cons IH2 [OF Cons] by (simp add: sh_lex.simps(4) [of w c])
    qed
  qed
qed

lemma xrun_quote_simps [simp]:
  "xrun_quote [] = []" "xrun_quote (SQ # s) = SQ # BSL # SQ # xrun_quote s" "xrun_quote (s @ t) = xrun_quote s @ xrun_quote t"
  by (simp_all add: xrun_quote_def)

lemma xrun_quote_id: "SQ \<notin> set s \<Longrightarrow> xrun_quote s = s"
  by (induction s) (auto simp: xrun_quote_def)

text \<open>
  \<open>xrun_cmd\<close> leaves the quotes open after the quote it has escaped: a command with one quoted part
  becomes a line that ends inside quotes.
\<close>

lemma xrun_line_unterminated:
  assumes "SQ \<notin> set a" "list_all sh_inert b" "b \<noteq> []" "list_all sh_quiet c"
    and "length (a @ b @ c) \<le> 8000" "int32 t"
  shows "sh_tokens (xrun_cmd_line (a @ SQ # b @ SQ # c) t) = Unterminated"
proof -
  have q: "SQ \<notin> set b" "SQ \<notin> set c"
    using assms(2,4) sh_inert_facts(1) by (auto simp: list_all_iff sh_quiet_def)
  have x: "xrun_quote (a @ SQ # b @ SQ # c) = a @ SQ # BSL # SQ # b @ SQ # BSL # SQ # c"
    using assms(1) q by (simp add: xrun_quote_id)
  have "length (show_int t) \<le> 11" using assms(6) by (rule length_show_int32)
  then have l: "xrun_cmd_line (a @ SQ # b @ SQ # c) t
      = ''timeout '' @ show_int t @ '' bash -c '' @ SQ # a @ SQ # BSL # SQ # b @ SQ # [BSL] @ SQ # c @ SQ # '' 2>/dev/null''"
    using assms(5) unfolding xrun_cmd_line_def x by simp
  have "sh_lex False None (''timeout '' @ show_int t @ '' bash -c '' @ r) = tok_cons ts (sh_lex False None r)"
    if "ts = [bare ''timeout'', bare (show_int t), bare ''bash'', bare ''-c'']" for r ts
    using that by (cases "sh_lex False None r") (simp_all add: lex_steps del: show_int_clean)
  moreover have "sh_lex False None (SQ # a @ SQ # BSL # SQ # b @ SQ # [BSL] @ SQ # c @ SQ # '' 2>/dev/null'') = Unterminated"
    using lex_quoted [OF _ assms(1), of "Some []"] lex_quoted [of _ "[BSL]"] lex_bare [OF assms(2,3)]
      lex_left_open [OF _ assms(4), of "'' 2>/dev/null''"]
    by (simp add: lex_open lex_bslash word_add_def)
  ultimately show ?thesis unfolding sh_tokens_def l by simp
qed

end
