(* ===== verification/Admin.thy ===== *)
theory Admin
  imports Shell Frames
begin

section \<open>Administration commands of the agent (clients/src/sysadmin.c)\<close>

text \<open>
  Services, software packages, listening ports, the SSH configuration and Docker.  Every handler
  builds a command line, runs it and prints the parsed output as JSON; its result is the list of
  effects and the reply text.  What the commands print is \<open>sh_popen\<close> of the host.  The compliance
  texts of the security audit are not modelled.
\<close>

text \<open>The items of a JSON array, each printed with its comma into a buffer of \<open>n\<close> bytes.\<close>

fun join_items :: "nat \<Rightarrow> bool \<Rightarrow> string list \<Rightarrow> string" where
  "join_items n first [] = []"
| "join_items n first (s # ss) = snprintf_s n ((if first then [] else '','') @ s) @ join_items n False ss"

definition jlist :: "string \<Rightarrow> string" where
  "jlist k = DQ # k @ DQ # '':[''"

text \<open>A command given to \<open>run_cmd\<close>: the effect and the output.\<close>

definition ran :: "string \<Rightarrow> int \<Rightarrow> effect list" where
  "ran cmd t = [Popen (run_cmd_line cmd t)]"

definition opt_text :: "string option \<Rightarrow> string" where
  "opt_text s = (case s of None \<Rightarrow> [] | Some t \<Rightarrow> t)"

subsection \<open>Services\<close>

definition filter_char :: "char \<Rightarrow> bool" where
  "filter_char c \<longleftrightarrow> isalnum c \<or> c \<in> set ''-_.*@''"

definition list_units :: string where
  "list_units = ''systemctl list-units --type=service --all --no-legend --no-pager --plain''"

definition service_list_cmd :: "string \<Rightarrow> string option" where
  "service_list_cmd flt =
     (if flt \<noteq> [] then
        if \<not> list_all filter_char flt then None
        else Some (snprintf_s 512 (list_units @ '' | grep -F -- '' @ SQ # flt @ SQ # '' | head -200''))
      else Some (snprintf_s 512 (list_units @ '' | head -300'')))"

definition strip_right :: "char list \<Rightarrow> string \<Rightarrow> string" where
  "strip_right cs s = rev (dropWhile (\<lambda>c. c \<in> set cs) (rev s))"

definition service_item :: "shell_host \<Rightarrow> string \<Rightarrow> string option" where
  "service_item h line =
     (let p = dropWhile (\<lambda>c. c \<in> set [CHR '' '', CHR 0xE2, CHR 0x97, CHR 0x8F]) line in
      case sscanf_s [255, 63, 63, 63] p of
        ([name, load, act, sub], rest) \<Rightarrow>
          let rest = dropWhile isspace rest;
              desc = strip_right '' '' (snprintf_s 512 rest)
          in Some (jobj [json_str_field ''name'' (jesc h name), json_str_field ''load'' load,
                json_str_field ''active'' act, json_str_field ''sub'' sub,
                json_str_field ''description'' (jesc h desc), json_str_field ''enabled'' []])
      | _ \<Rightarrow> None)"

definition ctc_service_list_json :: "shell_host \<Rightarrow> string \<Rightarrow> reply" where
  "ctc_service_list_json h flt =
     (let none = CHR ''{'' # jlist ''services'' @ '']}'' in
      case service_list_cmd flt of
        None \<Rightarrow> Ret ([], none)
      | Some cmd \<Rightarrow>
          (case run_cmd h cmd 15 of
             None \<Rightarrow> Ret (ran cmd 15, none)
           | Some out \<Rightarrow>
               and_then (buf_text h 16384 (CHR ''{'' # jlist ''services'' @
                   join_items 1280 True (List.map_filter (service_item h) (strtok_all out [NL])) @ '']}''))
                 (\<lambda>t. Ret (ran cmd 15, t))))"

definition service_char :: "char \<Rightarrow> bool" where
  "service_char c \<longleftrightarrow> isalnum c \<or> c \<in> set ''-_.@''"

definition ok_message :: "bool \<Rightarrow> string \<Rightarrow> string" where
  "ok_message ok msg = jobj [json_raw_field ''ok'' (jbool ok), json_str_field ''message'' msg]"

definition ctc_service_action_json :: "shell_host \<Rightarrow> string \<Rightarrow> string \<Rightarrow> reply" where
  "ctc_service_action_json h name action =
     (if action \<notin> set [''start'', ''stop'', ''restart'', ''enable'', ''disable'']
      then Ret ([], json_error ''unsupported action'')
      else if \<not> list_all service_char name then Ret ([], json_error ''invalid service name'')
      else
        let cmd = snprintf_s 512 (''systemctl '' @ action @ '' '' @ SQ # name @ SQ # '' 2>&1'') in
        case run_cmd h cmd 30 of
          None \<Rightarrow> Ret (ran cmd 30, ok_message False ''command failed'')
        | Some out \<Rightarrow>
            let eo = jesc h out in
            and_then (fmt_text h (length eo + 128) (ok_message True eo)) (\<lambda>t. Ret (ran cmd 30, t)))"

subsection \<open>Packages\<close>

definition pkg_manager :: "shell_host \<Rightarrow> string" where
  "pkg_manager h =
     (if sh_access h ''/usr/bin/dnf'' then ''dnf''
      else if sh_access h ''/usr/bin/yum'' then ''yum''
      else if sh_access h ''/usr/bin/apt'' then ''apt''
      else ''unknown'')"

definition update_item :: "string \<Rightarrow> string \<Rightarrow> string \<Rightarrow> string \<Rightarrow> string" where
  "update_item name arch ver repo =
     jobj [json_str_field ''name'' name, json_str_field ''arch'' arch, json_str_field ''version'' [],
           json_str_field ''update'' ver, json_str_field ''repo'' repo]"

text \<open>\<open>sscanf(line, "%255[^/]/%127s %127s %31s", pkg, suite, ver, arch) >= 3\<close>.\<close>

definition apt_item :: "string \<Rightarrow> string option" where
  "apt_item line =
     (let pkg = take 255 (takeWhile (\<lambda>c. c \<noteq> CHR ''/'') line) in
      case drop (length pkg) line of
        c # r \<Rightarrow>
          if pkg = [] \<or> c \<noteq> CHR ''/'' then None
          else
            (case fst (sscanf_s [127, 127, 31] r) of
               [suite, ver] \<Rightarrow> Some (update_item pkg [] ver suite)
             | [suite, ver, arch] \<Rightarrow> Some (update_item pkg arch ver suite)
             | _ \<Rightarrow> None)
      | [] \<Rightarrow> None)"

definition dnf_item :: "string \<Rightarrow> string option" where
  "dnf_item line =
     (case fst (sscanf_s [255, 127, 127] line) of
        [name, ver, repo] \<Rightarrow>
          if repo = ''updates'' \<or> strstr repo ''-updates'' \<noteq> None \<or> strstr repo ''epel'' \<noteq> None \<or>
             strstr repo ''base'' \<noteq> None \<or> strstr repo ''appstream'' \<noteq> None \<or> repo \<noteq> [] then
            (case strrchr name CHR ''.'' of
               None \<Rightarrow> Some (update_item name [] ver repo)
             | Some dot \<Rightarrow> Some (update_item (take (length name - length dot) name) (snprintf_s 32 (drop 1 dot)) ver repo))
          else None
      | _ \<Rightarrow> None)"

definition update_line :: "string \<Rightarrow> string \<Rightarrow> string option" where
  "update_line mgr line =
     (let line = dropWhile (\<lambda>c. c = CHR '' '') line in
      if line = [] \<or> is_prefix ''Last metadata'' line \<or> is_prefix ''Obsoleting'' line then None
      else if mgr = ''apt'' then apt_item line else dnf_item line)"

text \<open>The count is written over the zero of the header in place; the buffer is not grown for it.\<close>

definition patch_count :: "string \<Rightarrow> nat \<Rightarrow> string outcome" where
  "patch_count t count =
     (let zero = DQ # ''count'' @ DQ # '':0''; patch = DQ # ''count'' @ DQ # CHR '':'' # show_int (int count) in
      case strstr t zero of
        None \<Rightarrow> Ret t
      | Some r \<Rightarrow>
          let t' = take (length t - length r) t @ patch @ drop (length zero) r in
          if length t' + 1 > buf_cap 16384 (length t + 1) then Undef else Ret t')"

definition ctc_pkg_updates_json :: "shell_host \<Rightarrow> reply" where
  "ctc_pkg_updates_json h =
     (let mgr = pkg_manager h;
          head = CHR ''{'' # json_str_field ''manager'' mgr @ '','' @ json_raw_field ''count'' ''0'' @ '','' @ jlist ''updates''
      in if mgr \<notin> set [''dnf'', ''yum'', ''apt''] then Ret ([], head @ '']}'')
         else
           let cmd = snprintf_s 512
                 (if mgr = ''apt''
                  then ''apt list --upgradable 2>/dev/null | grep -v '' @ SQ # ''^Listing'' @ SQ # '' | head -300''
                  else mgr @ '' -q check-update --noplugins 2>/dev/null | grep -v '' @ SQ # ''^$'' @ SQ # '' | head -300'');
               items = List.map_filter (update_line mgr) (strtok_all (opt_text (run_cmd h cmd 60)) [NL])
           in and_then (buf_text h 16384 (snprintf_s 128 head @ join_items 1024 True items @ '']}'')) (\<lambda>t.
                and_then (patch_count t (length items)) (\<lambda>t. Ret (ran cmd 60, t))))"

text \<open>The texts between pairs of double quotes.\<close>

function quoted_parts :: "string \<Rightarrow> string list" where
  "quoted_parts s =
     (case strchr s DQ of
        None \<Rightarrow> []
      | Some p \<Rightarrow>
          (case strchr (drop 1 p) DQ of
             None \<Rightarrow> []
           | Some e \<Rightarrow> take (length (drop 1 p) - length e) (drop 1 p) # quoted_parts (drop 1 e)))"
  by pat_completeness auto

termination
proof (relation "measure length")
  fix s p e assume "strchr s DQ = Some p" "strchr (drop 1 p) DQ = Some e"
  then show "(drop 1 e, s) \<in> measure length" using length_strchr [of s DQ p] length_strchr [of "drop 1 p" DQ e] by simp
qed simp

declare quoted_parts.simps [simp del]

definition pkg_char :: "char \<Rightarrow> bool" where
  "pkg_char c \<longleftrightarrow> isalnum c \<or> c \<in> set ''-_.+''"

fun pkg_names :: "string \<Rightarrow> string list \<Rightarrow> string" where
  "pkg_names names [] = names"
| "pkg_names names (p # ps) =
     (if p \<noteq> [] \<and> length p \<le> 128 \<and> list_all pkg_char p \<and> length names + length p + 2 < 768
      then pkg_names (names @ (if names \<noteq> [] then '' '' else []) @ p) ps
      else pkg_names names ps)"

definition pkg_result :: "bool \<Rightarrow> string \<Rightarrow> string \<Rightarrow> string" where
  "pkg_result ok output msg =
     jobj [json_raw_field ''ok'' (jbool ok), json_str_field ''output'' output, json_str_field ''message'' msg]"

definition pkg_upgrade_cmd :: "string \<Rightarrow> string option \<Rightarrow> string + string" where
  "pkg_upgrade_cmd mgr packages =
     (if mgr \<in> set [''dnf'', ''yum''] then
        (case packages of
           Some js \<Rightarrow>
             if strchr js DQ \<noteq> None then
               let names = pkg_names [] (quoted_parts js) in
               if names = [] then Inl ''no valid packages''
               else Inr (snprintf_s 1024 (mgr @ '' -y upgrade '' @ names @ '' 2>&1 | tail -40''))
             else Inr (snprintf_s 1024 (mgr @ '' -y upgrade 2>&1 | tail -40''))
         | None \<Rightarrow> Inr (snprintf_s 1024 (mgr @ '' -y upgrade 2>&1 | tail -40'')))
      else if mgr = ''apt'' then Inr ''DEBIAN_FRONTEND=noninteractive apt-get -y upgrade 2>&1 | tail -40''
      else Inl ''no supported package manager'')"

definition ctc_pkg_upgrade_json :: "shell_host \<Rightarrow> string option \<Rightarrow> reply" where
  "ctc_pkg_upgrade_json h packages =
     (case pkg_upgrade_cmd (pkg_manager h) packages of
        Inl msg \<Rightarrow> Ret ([], pkg_result False [] msg)
      | Inr cmd \<Rightarrow>
          let eo = jesc h (opt_text (run_cmd h cmd 600)) in
          and_then (fmt_text h (length eo + 128) (pkg_result True eo ''done'')) (\<lambda>t. Ret (ran cmd 600, t)))"

definition history_item :: "shell_host \<Rightarrow> string \<Rightarrow> string" where
  "history_item h line =
     (let (pkg, tstr) =
        (case strstr line ''  '' of
           Some sep \<Rightarrow> (take 255 (take (length line - length sep) line), snprintf_s 128 (dropWhile (\<lambda>c. c = CHR '' '') sep))
         | None \<Rightarrow> (snprintf_s 256 line, []))
      in jobj [json_str_field ''id'' [], json_str_field ''time'' (jesc h tstr),
               json_str_field ''action'' ''install'', json_str_field ''package'' (jesc h pkg)])"

definition ctc_pkg_history_json :: "shell_host \<Rightarrow> reply" where
  "ctc_pkg_history_json h =
     (let cmd = (if pkg_manager h \<in> set [''dnf'', ''yum''] then ''rpm -qa --last 2>/dev/null | head -60''
                 else ''grep -E '' @ SQ # ''^(Install|Upgrade|Remove):'' @ SQ # '' /var/log/dpkg.log 2>/dev/null | tail -60'');
          items = map (history_item h) (strtok_all (opt_text (run_cmd h cmd 30)) [NL])
      in and_then (buf_text h 16384 (CHR ''{'' # jlist ''entries'' @ join_items 768 True items @ '']}''))
           (\<lambda>t. Ret (ran cmd 30, t)))"

subsection \<open>Listening ports and the SSH configuration\<close>

definition port_process :: "string \<Rightarrow> string" where
  "port_process proc =
     (case strstr proc ''users:('' of
        None \<Rightarrow> []
      | Some pn \<Rightarrow>
          (case strchr (drop 7 pn) DQ of
             None \<Rightarrow> []
           | Some q \<Rightarrow>
               (case strchr (drop 1 q) DQ of
                  None \<Rightarrow> []
                | Some e \<Rightarrow> take 127 (take (length (drop 1 q) - length e) (drop 1 q)))))"

text \<open>The last conversion \<open>%511[^\n]\<close> takes the rest of the line after blanks.\<close>

definition port_item :: "shell_host \<Rightarrow> string \<Rightarrow> string option" where
  "port_item h line =
     (let (fs, rest) = sscanf_s [15, 31, 31, 31, 127, 127] line;
          proc = (if length fs = 6 then take 511 (takeWhile (\<lambda>c. c \<noteq> NL) (dropWhile isspace rest)) else [])
      in if length fs < 5 then None
         else
           let proto = fs ! 0; addr = fs ! 4 in
           if proto \<noteq> ''tcp'' \<and> proto \<noteq> ''udp'' \<and> \<not> is_prefix ''tcp6'' proto \<and> \<not> is_prefix ''udp6'' proto then None
           else
             (case strrchr addr CHR '':'' of
                None \<Rightarrow> None
              | Some colon \<Rightarrow>
                  let port = atoi (drop 1 colon) in
                  if port \<le> 0 then None
                  else Some (jobj [json_str_field ''proto'' (if is_prefix ''tcp'' proto then ''tcp'' else ''udp''),
                         json_raw_field ''port'' (show_int port),
                         json_str_field ''process'' (jesc h (port_process proc)),
                         json_str_field ''address'' (jesc h (take (length addr - length colon) addr))])))"

text \<open>The items are appended to the text of the caller, who starts with \<open>first = 1\<close>.\<close>

definition collect_ports :: "shell_host \<Rightarrow> effect list \<times> string" where
  "collect_ports h =
     (let ss = ''ss -tulnp 2>/dev/null | tail -n +2 | head -100'';
          netstat = ''netstat -tulnp 2>/dev/null | tail -n +3 | head -100'';
          out1 = run_cmd h ss 15;
          (effs, out) = (if opt_text out1 = [] then (ran ss 15 @ ran netstat 15, run_cmd h netstat 15) else (ran ss 15, out1))
      in (effs, (case out of
            None \<Rightarrow> []
          | Some t \<Rightarrow> join_items 640 True (List.map_filter (port_item h) (strtok_all t [NL])))))"

definition strncaseeq :: "string \<Rightarrow> string \<Rightarrow> bool" where
  "strncaseeq s key \<longleftrightarrow> is_prefix (map tolower key) (map tolower s)"

text \<open>The value a line of sshd_config gives for a key; the key is compared as a prefix.\<close>

definition sshd_value :: "string \<Rightarrow> nat \<Rightarrow> string \<Rightarrow> string option" where
  "sshd_value key vlen line =
     (let p = dropWhile (\<lambda>c. c = CHR '' '' \<or> c = CHR 0x09) (cstr line) in
      if p = [] \<or> hd p = CHR ''#'' then None
      else if strncaseeq p key then
        Some (take (vlen - 1) (takeWhile (\<lambda>c. c \<notin> set [NL, CHR 0x0D, CHR '' '', CHR ''#''])
          (dropWhile (\<lambda>c. c \<in> set [CHR '' '', CHR 0x09, CHR ''='']) (drop (length key) p))))
      else None)"

text \<open>Every line that matches overwrites \<open>val\<close>, so the last one counts.\<close>

definition parse_sshd_config :: "byte list option \<Rightarrow> string \<Rightarrow> nat \<Rightarrow> string option" where
  "parse_sshd_config file key vlen =
     (case file of
        None \<Rightarrow> None
      | Some bytes \<Rightarrow> fold (\<lambda>l v. case sshd_value key vlen l of None \<Rightarrow> v | Some x \<Rightarrow> Some x) (fgets_lines 512 bytes) None)"

text \<open>The reply of the security audit up to the compliance checks: firewall, ports and SSH.\<close>

definition audit_firewall :: "shell_host \<Rightarrow> effect list \<times> string" where
  "audit_firewall h =
     (let fw = ''systemctl is-active firewalld 2>/dev/null''; ipt = ''iptables -S 2>/dev/null | wc -l'' in
      if strstr (opt_text (run_cmd h fw 8)) ''active'' \<noteq> None
      then (ran fw 8, jobj [json_raw_field ''active'' ''true'', json_str_field ''backend'' ''firewalld''])
      else
        let has = atoi (opt_text (run_cmd h ipt 8)) > 1 in
        (ran fw 8 @ ran ipt 8, jobj [json_raw_field ''active'' (jbool has),
           json_str_field ''backend'' (if has then ''iptables'' else ''none'')]))"

definition audit_ssh :: "byte list option \<Rightarrow> string" where
  "audit_ssh file =
     (let val = (\<lambda>k. parse_sshd_config file k 128);
          num = (\<lambda>k d. case val k of None \<Rightarrow> d | Some v \<Rightarrow> atoi v);
          port = num ''Port'' 22;
          permit_root = (case val ''PermitRootLogin'' of None \<Rightarrow> True | Some v \<Rightarrow> \<not> strncaseeq v ''no'');
          pwd_auth = (case val ''PasswordAuthentication'' of None \<Rightarrow> True | Some v \<Rightarrow> \<not> strncaseeq v ''no'');
          pubkey = (case val ''PubkeyAuthentication'' of None \<Rightarrow> True | Some v \<Rightarrow> strncaseeq v ''yes'');
          max_tries = num ''MaxAuthTries'' 6
      in jobj [json_raw_field ''port'' (show_int port), json_raw_field ''permit_root_login'' (jbool permit_root),
           json_raw_field ''password_auth'' (jbool pwd_auth), json_raw_field ''pubkey_auth'' (jbool pubkey),
           json_raw_field ''max_auth_tries'' (show_int max_tries)])"

text \<open>\<open>ctc_pong_json\<close> with the time of the agent in milliseconds.\<close>

definition ctc_pong_json :: "shell_host \<Rightarrow> int \<Rightarrow> int \<Rightarrow> string outcome" where
  "ctc_pong_json h now server_ts =
     fmt_text h 128 (jobj [json_raw_field ''timestamp'' (show_int server_ts), json_raw_field ''agent_time'' (show_int now)])"

subsection \<open>Docker\<close>

definition docker_available :: "shell_host \<Rightarrow> bool" where
  "docker_available h \<longleftrightarrow>
     (sh_access h ''/usr/bin/docker'' \<or> sh_access h ''/usr/local/bin/docker'') \<and>
     (sh_access h ''/var/run/docker.sock'' \<or> sh_access h ''/run/docker.sock'' \<or>
      (case sh_xdg h of None \<Rightarrow> False | Some xdg \<Rightarrow> sh_access h (snprintf_s 512 (xdg @ ''/docker.sock''))))"

text \<open>The parts of a line between separators, \<open>k\<close> at most; the last one ends at its separator as well.\<close>

fun split_fields :: "nat \<Rightarrow> char \<Rightarrow> string \<Rightarrow> string list" where
  "split_fields 0 sep s = []"
| "split_fields (Suc k) sep s =
     (case strchr s sep of
        None \<Rightarrow> [s]
      | Some r \<Rightarrow> take (length s - length r) s # split_fields k sep (drop 1 r))"

definition field_or_empty :: "string list \<Rightarrow> nat \<Rightarrow> string" where
  "field_or_empty fs i = (if i < length fs then fs ! i else [])"

definition container_item :: "shell_host \<Rightarrow> string \<Rightarrow> string option" where
  "container_item h line =
     (let fs = split_fields 7 CHR ''|'' line; e = (\<lambda>i. jesc h (field_or_empty fs i)) in
      if length fs < 4 then None
      else Some (jobj [json_str_field ''id'' (take 12 (e 0)), json_str_field ''name'' (e 1), json_str_field ''image'' (e 2),
             json_str_field ''status'' (e 3), json_str_field ''state'' (e 4), json_str_field ''ports'' (e 5),
             json_str_field ''created'' (e 6)]))"

definition docker_ps :: string where
  "docker_ps = ''docker ps -a --no-trunc --format '' @ SQ # ''{{.ID}}|{{.Names}}|{{.Image}}|{{.Status}}|{{.State}}|{{.Ports}}|{{.CreatedAt}}''
     @ SQ # '' 2>/dev/null | head -200''"

definition ctc_docker_list_json :: "shell_host \<Rightarrow> reply" where
  "ctc_docker_list_json h =
     (let head = CHR ''{'' # json_raw_field ''available'' ''true'' @ '','' @ jlist ''containers'' in
      if \<not> docker_available h then
        Ret ([], jobj [json_raw_field ''available'' ''false'', json_raw_field ''containers'' ''[]'',
          json_str_field ''error'' ''docker not available or daemon not running''])
      else
        (case run_cmd h docker_ps 25 of
           None \<Rightarrow> Ret (ran docker_ps 25, head @ '']}'')
         | Some out \<Rightarrow>
             and_then (buf_text h 16384 (head @ join_items 2048 True (List.map_filter (container_item h) (strtok_all out [NL])) @ '']}''))
               (\<lambda>t. Ret (ran docker_ps 25, t))))"

definition container_char :: "char \<Rightarrow> bool" where
  "container_char c \<longleftrightarrow> isalnum c \<or> c \<in> set ''_.-''"

definition docker_action_cmd :: "string \<Rightarrow> string \<Rightarrow> string" where
  "docker_action_cmd container_id action =
     snprintf_s 512 (''docker '' @ (if action = ''rm'' then ''rm -f'' else action) @ '' '' @ SQ # container_id @ SQ # '' 2>&1 | tail -3'')"

definition ctc_docker_action_json :: "shell_host \<Rightarrow> string \<Rightarrow> string \<Rightarrow> reply" where
  "ctc_docker_action_json h container_id action =
     (if \<not> docker_available h then Ret ([], json_error ''docker not available'')
      else if action \<notin> set [''start'', ''stop'', ''restart'', ''rm'', ''pause'', ''unpause'']
        then Ret ([], json_error ''invalid action'')
      else if \<not> list_all container_char container_id then Ret ([], json_error ''invalid container id'')
      else if container_id = [] then Ret ([], json_error ''missing container id'')
      else
        let cmd = docker_action_cmd container_id action;
            e = jesc h (opt_text (run_cmd h cmd 60))
        in and_then (fmt_text h (length e + 128) (ok_message True e)) (\<lambda>t. Ret (ran cmd 60, t)))"

definition ctc_docker_logs_json :: "shell_host \<Rightarrow> string \<Rightarrow> int \<Rightarrow> reply" where
  "ctc_docker_logs_json h container_id lines =
     (if \<not> docker_available h then Ret ([], json_error ''docker not available'')
      else if \<not> list_all container_char container_id then Ret ([], json_error ''invalid container id'')
      else
        let n = (if lines \<le> 0 \<or> lines > 2000 then 200 else lines);
            cmd = snprintf_s 512 (''docker logs --tail '' @ show_int n @ '' --timestamps '' @ SQ # container_id @ SQ # '' 2>&1'');
            e = jesc h (take 262144 (opt_text (run_cmd h cmd 30)))
        in and_then (fmt_text h (length e + 64) (jobj [json_str_field ''logs'' e])) (\<lambda>t. Ret (ran cmd 30, t)))"

definition image_item :: "shell_host \<Rightarrow> string \<Rightarrow> string option" where
  "image_item h line =
     (let fs = split_fields 5 CHR ''|'' line; e = (\<lambda>i. jesc h (field_or_empty fs i)) in
      if length fs < 3 then None
      else Some (jobj [json_str_field ''id'' (take 12 (e 0)), json_str_field ''repository'' (e 1), json_str_field ''tag'' (e 2),
             json_str_field ''size'' (e 3), json_str_field ''created'' (e 4)]))"

definition docker_images :: string where
  "docker_images = ''docker images --format '' @ SQ # ''{{.ID}}|{{.Repository}}|{{.Tag}}|{{.Size}}|{{.CreatedSince}}''
     @ SQ # '' 2>/dev/null | head -100''"

definition ctc_docker_images_json :: "shell_host \<Rightarrow> reply" where
  "ctc_docker_images_json h =
     (let head = CHR ''{'' # jlist ''images'' in
      if \<not> docker_available h then Ret ([], head @ '']}'')
      else
        (case run_cmd h docker_images 20 of
           None \<Rightarrow> Ret (ran docker_images 20, head @ '']}'')
         | Some out \<Rightarrow>
             and_then (buf_text h 16384 (head @ join_items 1024 True (List.map_filter (image_item h) (strtok_all out [NL])) @ '']}''))
               (\<lambda>t. Ret (ran docker_images 20, t))))"

text \<open>The text between the first \<open>[\<close> and the last \<open>]\<close>.\<close>

definition inspect_inner :: "string \<Rightarrow> string option" where
  "inspect_inner out =
     (case (strchr out CHR ''['', strrchr out CHR '']'') of
        (Some start, Some stop) \<Rightarrow>
          if length start \<le> length stop then None
          else Some (strip_right [NL, CHR '' ''] (drop 1 (take (length start - length stop) start)))
      | _ \<Rightarrow> None)"

definition ctc_docker_inspect_json :: "shell_host \<Rightarrow> string \<Rightarrow> reply" where
  "ctc_docker_inspect_json h container_id =
     (if \<not> docker_available h then Ret ([], json_error ''docker not available'')
      else if \<not> list_all container_char container_id then Ret ([], json_error ''invalid container id'')
      else if container_id = [] then Ret ([], json_error ''missing container id'')
      else
        let cmd = snprintf_s 512 (''docker inspect '' @ SQ # container_id @ SQ # '' 2>/dev/null'') in
        case run_cmd h cmd 25 of
          None \<Rightarrow> Ret (ran cmd 25, json_error ''inspect failed'')
        | Some out \<Rightarrow>
            (case inspect_inner out of
               None \<Rightarrow> Ret (ran cmd 25, json_error ''invalid inspect output'')
             | Some inner \<Rightarrow>
                 and_then (fmt_text h (length inner + 64) (jobj [json_raw_field ''data'' inner])) (\<lambda>t. Ret (ran cmd 25, t))))"

subsection \<open>Creating containers\<close>

definition safe_ok :: string where
  "safe_ok = ''abcdefghijklmnopqrstuvwxyzABCDEFGHIJKLMNOPQRSTUVWXYZ0123456789.-_/: =@''"

definition safe_field :: "string \<Rightarrow> bool" where
  "safe_field s = list_all (\<lambda>c. c \<in> set safe_ok) s"

definition get_text :: "string \<Rightarrow> string \<Rightarrow> nat \<Rightarrow> string outcome" where
  "get_text json key n = and_then (ctc_json_get_string json key n) (\<lambda>r. Ret (cstr (opt_text r)))"

text \<open>
  The text of an array: from \<open>k\<close> bytes behind the start of the key up to the next bracket, as far as
  it fits into 2048 bytes.  For \<open>k\<close> beyond the end of the payload the scan leaves the string.
\<close>

definition array_text :: "string \<Rightarrow> string \<Rightarrow> nat \<Rightarrow> string option outcome" where
  "array_text json key k =
     (case strstr json key of
        None \<Rightarrow> Ret None
      | Some r \<Rightarrow>
          if length r < k then Undef
          else
            (case strchr (drop k r) CHR '']'' of
               None \<Rightarrow> Ret None
             | Some e \<Rightarrow> Ret (Some (snprintf_s 2048 (take (length (drop k r) - length e) (drop k r))))))"

definition opt_arg :: "string \<Rightarrow> string \<Rightarrow> string" where
  "opt_arg opt v = opt @ SQ # v @ [SQ]"

fun env_args :: "string list \<Rightarrow> string list option" where
  "env_args [] = Some []"
| "env_args (kv # r) =
     (if kv \<noteq> [] \<and> length kv < 256 \<and> CHR ''='' \<in> set kv
      then if safe_field kv then map_option ((#) (opt_arg '' -e '' kv)) (env_args r) else None
      else env_args r)"

text \<open>The loops over ports and mounts end at the first part with a character outside their set.\<close>

fun checked_args :: "string \<Rightarrow> (string \<Rightarrow> bool) \<Rightarrow> (char \<Rightarrow> bool) \<Rightarrow> nat \<Rightarrow> string list \<Rightarrow> string list" where
  "checked_args opt wanted ok n [] = []"
| "checked_args opt wanted ok n (p # r) =
     (if p \<noteq> [] \<and> length p < n \<and> wanted p
      then if list_all ok p then opt_arg opt p # checked_args opt wanted ok n r else []
      else checked_args opt wanted ok n r)"

definition port_args :: "string list \<Rightarrow> string list" where
  "port_args = checked_args '' -p '' (\<lambda>p. CHR '':'' \<in> set p \<or> CHR ''/'' \<in> set p)
     (\<lambda>c. isalnum c \<or> c \<in> set '':/.-'') 128"

definition mount_args :: "string list \<Rightarrow> string list" where
  "mount_args = checked_args '' -v '' (\<lambda>p. CHR '':'' \<in> set p)
     (\<lambda>c. c \<in> set safe_ok \<or> c \<in> set '':,*'') 256"

definition array_parts :: "string option \<Rightarrow> string list" where
  "array_parts t = (case t of None \<Rightarrow> [] | Some s \<Rightarrow> quoted_parts s)"

text \<open>The pieces of the command in the order they are appended to \<open>dcmd\<close>, or the error reply.\<close>

definition docker_create_parts :: "string \<Rightarrow> (string + string list) outcome" where
  "docker_create_parts json =
     and_then (get_text json ''name'' 128) (\<lambda>name.
     and_then (get_text json ''image'' 256) (\<lambda>image.
     and_then (get_text json ''cmd'' 1024) (\<lambda>cmd.
     and_then (get_text json ''restart'' 32) (\<lambda>restart.
     and_then (get_text json ''network'' 128) (\<lambda>network.
     and_then (get_text json ''privileged'' 8) (\<lambda>privileged.
     and_then (get_text json ''auto_start'' 8) (\<lambda>autostart.
       if image = [] then Ret (Inl ''missing image'')
       else if name = [] then Ret (Inl ''missing name'')
       else if \<not> safe_field name then Ret (Inl ''invalid name'')
       else if \<not> safe_field image then Ret (Inl ''invalid image'')
       else
         and_then (array_text json (DQ # ''env'' @ DQ # '':['') 7) (\<lambda>envs.
           case env_args (array_parts envs) of
             None \<Rightarrow> Ret (Inl ''invalid env'')
           | Some es \<Rightarrow>
               and_then (array_text json (DQ # ''ports'' @ DQ # '':['') 9) (\<lambda>ports.
               and_then (array_text json (DQ # ''mounts'' @ DQ # '':['') 11) (\<lambda>mounts.
                 Ret (Inr ([opt_arg ''docker create --name '' name]
                   @ (if restart \<noteq> [] then [opt_arg '' --restart='' restart] else [])
                   @ (if network \<noteq> [] then [opt_arg '' --network='' network] else [])
                   @ (if privileged = ''true'' then ['' --privileged''] else [])
                   @ es @ port_args (array_parts ports) @ mount_args (array_parts mounts)
                   @ [opt_arg '' '' image] @ (if cmd \<noteq> [] then ['' '' @ cmd] else [])))))))))))))"

definition ok_output :: "bool \<Rightarrow> string \<Rightarrow> string" where
  "ok_output ok msg = jobj [json_raw_field ''ok'' (jbool ok), json_str_field ''output'' msg]"

definition ctc_docker_create_json :: "shell_host \<Rightarrow> string \<Rightarrow> reply" where
  "ctc_docker_create_json h json =
     (if \<not> docker_available h then Ret ([], ok_output False ''docker not available'')
      else
        and_then (docker_create_parts json) (\<lambda>r.
          case r of
            Inl msg \<Rightarrow> Ret ([], ok_output False msg)
          | Inr parts \<Rightarrow>
              and_then (put_parts 8192 [] parts) (\<lambda>dcmd.
                let e = jesc h (opt_text (run_cmd h dcmd 60)) in
                and_then (fmt_text h (length e + 128) (ok_output True e)) (\<lambda>t. Ret (ran dcmd 60, t)))))"

subsection \<open>Docker compose\<close>

definition compose_version :: "string \<Rightarrow> string" where
  "compose_version c = c @ '' version >/dev/null 2>&1''"

definition compose_cmd :: "shell_host \<Rightarrow> effect list \<times> string option" where
  "compose_cmd h =
     (let a = ''docker compose''; b = ''docker-compose'' in
      if sh_system h (compose_version a) = 0 then ([System (compose_version a)], Some a)
      else if sh_system h (compose_version b) = 0
        then ([System (compose_version a), System (compose_version b)], Some b)
      else ([System (compose_version a), System (compose_version b)], None))"

definition no_compose :: string where
  "no_compose = ''docker compose '' @ [CHR 0xE4, CHR 0xB8, CHR 0x8D, CHR 0xE5, CHR 0x8F, CHR 0xAF, CHR 0xE7, CHR 0x94, CHR 0xA8]"

definition dir_char :: "char \<Rightarrow> bool" where
  "dir_char c \<longleftrightarrow> isalnum c \<or> c \<in> set ''/_-.''"

definition compose_line :: "string \<Rightarrow> string \<Rightarrow> string \<Rightarrow> string" where
  "compose_line dir compose action =
     snprintf_s 1024 (''cd '' @ SQ # dir @ SQ # '' && '' @ compose @ '' '' @ action @ '' 2>&1 | tail -50'')"

definition compose_run :: "shell_host \<Rightarrow> effect list \<Rightarrow> string \<Rightarrow> reply" where
  "compose_run h effs cmd =
     (let e = jesc h (opt_text (run_cmd h cmd 120)) in
      and_then (fmt_text h (length e + 128) (ok_output True e)) (\<lambda>t. Ret (effs @ ran cmd 120, t)))"

text \<open>The file is written with its content, then the command runs in its directory.\<close>

definition ctc_docker_compose_json :: "shell_host \<Rightarrow> string \<Rightarrow> reply" where
  "ctc_docker_compose_json h json =
     and_then (get_text json ''action'' 32) (\<lambda>action.
     and_then (get_text json ''work_dir'' 512) (\<lambda>workdir.
     and_then (get_text json ''content'' 8192) (\<lambda>content.
       if action = [] then Ret ([], ok_output False ''missing action'')
       else
         let (effs, cc) = compose_cmd h in
         case cc of
           None \<Rightarrow> Ret (effs, ok_output False no_compose)
         | Some compose \<Rightarrow>
             if workdir \<noteq> [] \<and> (\<not> list_all dir_char workdir \<or> strstr workdir ''..'' \<noteq> None)
             then Ret (effs, ok_output False ''invalid work_dir'')
             else if content \<noteq> [] then
               let dir = (if workdir \<noteq> [] then workdir else ''/tmp/ctc-compose'');
                   mk = snprintf_s 1024 (''mkdir -p '' @ SQ # dir @ [SQ]);
                   path = snprintf_s 768 (dir @ ''/docker-compose.yml'')
               in if sh_system h mk \<noteq> 0 then Ret (effs @ [System mk], ok_output False ''mkdir failed'')
                  else if \<not> sh_fopen_w h path then Ret (effs @ [System mk], ok_output False ''write failed'')
                  else compose_run h (effs @ [System mk, WriteFile path content]) (compose_line dir compose action)
             else if workdir = [] then Ret (effs, ok_output False ''missing work_dir'')
             else compose_run h effs (compose_line workdir compose action))))"

subsection \<open>What the shell makes of the command lines\<close>

lemma lex_end: "sh_lex False (Some x) [] = Toks [Word x]"
  by (simp add: flush_def)

lemma lex_arg:
  assumes "SQ \<notin> set s"
  shows "sh_lex False None (SQ # s @ SQ # CHR '' '' # r) = tok_cons [quoted_word s] (sh_lex False None r)"
  using lex_quoted [OF _ assms, of "Some []"] by (simp add: lex_open lex_blank word_add_def flush_def)

lemma lex_word:
  assumes "list_all sh_inert s" "s \<noteq> []"
  shows "sh_lex False None (s @ CHR '' '' # r) = tok_cons [bare s] (sh_lex False None r)"
  using lex_bare [OF assms] by (simp add: lex_blank word_add_def flush_def)

lemma lex_2to1: "sh_lex False None ''2>&1'' = Toks [IoNum [Bare CHR ''2''], Oper ''>&'', bare ''1'']"
  by code_simp

definition to_stdout :: "sh_tok list" where
  "to_stdout = [IoNum [Bare CHR ''2''], Oper ''>&'', bare ''1'']"

lemma lex_2to1_tail: "sh_lex False None ''2>&1 | tail -3'' = Toks (to_stdout @ [Oper ''|'', bare ''tail'', bare ''-3''])"
    "sh_lex False None ''2>&1 | tail -40'' = Toks (to_stdout @ [Oper ''|'', bare ''tail'', bare ''-40''])"
  by code_simp+

lemma sq_quote_length: "length (sq_quote s) \<le> 4 * length s"
  by (induction s) (auto simp: sq_quote_def)

definition wrapped_in :: "string \<Rightarrow> sh_tok list \<Rightarrow> string \<Rightarrow> bool" where
  "wrapped_in line inner t \<longleftrightarrow>
     (\<exists>cmd. sh_tokens cmd = Toks inner \<and>
       sh_tokens line = Toks [bare ''timeout'', bare t, bare ''sh'', bare ''-c'', quoted_word cmd,
             IoNum [Bare CHR ''2''], Oper ''>'', bare ''/dev/null''])"

lemma wrapped_inI:
  assumes "sh_tokens cmd = Toks inner" "length cmd \<le> 4000" "int32 t"
  shows "wrapped_in (run_cmd_line cmd t) inner (show_int t)"
  using run_cmd_line_tokens [of cmd t] assms sq_quote_length [of cmd] unfolding wrapped_in_def by (intro exI [of _ cmd]) simp

lemma service_name_quotable: "list_all service_char s \<Longrightarrow> SQ \<notin> set s"
  by (induction s) (auto simp: service_char_def isalnum_def isdigit_def isupper_def islower_def)

lemma container_id_quotable: "list_all container_char s \<Longrightarrow> SQ \<notin> set s"
  by (induction s) (auto simp: container_char_def isalnum_def isdigit_def isupper_def islower_def)

lemma service_cmd_tokens:
  assumes "action \<in> set [''start'', ''stop'', ''restart'', ''enable'', ''disable'']" "list_all service_char name" "length name \<le> 400"
  shows "sh_tokens (snprintf_s 512 (''systemctl '' @ action @ '' '' @ SQ # name @ SQ # '' 2>&1''))
    = Toks ([bare ''systemctl'', bare action, quoted_word name] @ to_stdout)"
proof -
  have a: "list_all sh_inert action" "action \<noteq> []" "length action \<le> 7" using assms(1) by (auto simp: inert_defs)
  have w: "sh_lex False None (''systemctl'' @ CHR '' '' # r) = tok_cons [bare ''systemctl''] (sh_lex False None r)" for r
    by (rule lex_word) (simp_all add: inert_defs)
  show ?thesis
    using a(3) assms(3) w lex_word [OF a(1,2)] lex_arg [OF service_name_quotable [OF assms(2)]] lex_2to1
    by (simp add: sh_tokens_def to_stdout_def)
qed

lemma docker_cmd_tokens:
  assumes "action \<in> set [''start'', ''stop'', ''restart'', ''rm'', ''pause'', ''unpause'']"
    "list_all container_char i" "length i \<le> 400"
  shows "sh_tokens (docker_action_cmd i action)
    = Toks ([bare ''docker'', bare action] @ (if action = ''rm'' then [bare ''-f''] else []) @ [quoted_word i]
        @ to_stdout @ [Oper ''|'', bare ''tail'', bare ''-3''])"
proof -
  have a: "list_all sh_inert action" "action \<noteq> []" "length action \<le> 7" using assms(1) by (auto simp: inert_defs)
  have w: "sh_lex False None (''docker'' @ CHR '' '' # r) = tok_cons [bare ''docker''] (sh_lex False None r)"
    "sh_lex False None (''rm'' @ CHR '' '' # r) = tok_cons [bare ''rm''] (sh_lex False None r)"
    "sh_lex False None (''-f'' @ CHR '' '' # r) = tok_cons [bare ''-f''] (sh_lex False None r)" for r
    by (rule lex_word; simp add: inert_defs)+
  show ?thesis
    using a(3) assms(3) w lex_word [OF a(1,2)] lex_arg [OF container_id_quotable [OF assms(2)]] lex_2to1_tail(1)
    by (cases "action = ''rm''") (simp_all add: sh_tokens_def docker_action_cmd_def to_stdout_def)
qed

fun blanks :: "string list \<Rightarrow> string" where
  "blanks [] = []"
| "blanks [s] = s"
| "blanks (s # t # ts) = s @ CHR '' '' # blanks (t # ts)"

lemma blanks_snoc: "blanks (ws @ [p]) = blanks ws @ (if ws = [] then [] else '' '') @ p"
  by (induction ws rule: blanks.induct) simp_all

definition pkg_word :: "string \<Rightarrow> bool" where
  "pkg_word p \<longleftrightarrow> p \<noteq> [] \<and> length p \<le> 128 \<and> list_all pkg_char p"

lemma blanks_empty: "list_all pkg_word ws \<Longrightarrow> blanks ws = [] \<longleftrightarrow> ws = []"
  by (induction ws rule: blanks.induct) (auto simp: pkg_word_def)

lemma pkg_names_words:
  assumes "list_all pkg_word ws" "length (blanks ws) < 768"
  shows "\<exists>vs. pkg_names (blanks ws) ps = blanks (ws @ vs) \<and> set vs \<subseteq> set ps \<and> list_all pkg_word (ws @ vs) \<and>
    length (blanks (ws @ vs)) < 768"
  using assms
proof (induction ps arbitrary: ws)
  case Nil
  then show ?case by (intro exI [of _ "[]"]) simp
next
  case (Cons p ps)
  show ?case
  proof (cases "pkg_word p \<and> length (blanks ws) + length p + 2 < 768")
    case True
    then have "list_all pkg_word (ws @ [p])" "length (blanks (ws @ [p])) < 768"
      using Cons.prems by (auto simp: blanks_snoc)
    from Cons.IH [OF this] obtain vs where "pkg_names (blanks (ws @ [p])) ps = blanks (ws @ p # vs)" "set vs \<subseteq> set ps"
      "list_all pkg_word (ws @ p # vs)" "length (blanks (ws @ p # vs)) < 768" by auto
    moreover have "pkg_names (blanks ws) (p # ps) = pkg_names (blanks (ws @ [p])) ps"
      using True blanks_empty [OF Cons.prems(1)] by (simp add: blanks_snoc) (simp add: pkg_word_def)
    ultimately show ?thesis by (intro exI [of _ "p # vs"]) auto
  next
    case False
    then have "pkg_names (blanks ws) (p # ps) = pkg_names (blanks ws) ps" by (auto simp: pkg_word_def)
    then show ?thesis using Cons.IH [OF Cons.prems] by auto
  qed
qed

lemma pkg_word_inert: "pkg_word p \<Longrightarrow> list_all sh_inert p"
  by (auto simp: pkg_word_def list_all_iff pkg_char_def sh_inert_def)

lemma lex_blanks:
  "list_all pkg_word ws \<Longrightarrow> ws \<noteq> [] \<Longrightarrow>
     sh_lex False None (blanks ws @ CHR '' '' # r) = tok_cons (map bare ws) (sh_lex False None r)"
proof (induction ws rule: blanks.induct)
  case (2 s)
  then show ?case using lex_word [OF pkg_word_inert, of s] by (auto simp: pkg_word_def)
next
  case (3 s t ts)
  then show ?case using lex_word [OF pkg_word_inert, of s] by (cases "sh_lex False None r") (auto simp: pkg_word_def)
qed simp

lemma pkg_upgrade_cmd_tokens:
  assumes "pkg_upgrade_cmd mgr (Some js) = Inr cmd" "mgr \<in> set [''dnf'', ''yum'']" "DQ \<in> set js"
  shows "\<exists>ps. ps \<noteq> [] \<and> set ps \<subseteq> set (quoted_parts js) \<and> list_all pkg_word ps \<and>
    sh_tokens cmd = Toks ([bare mgr, bare ''-y'', bare ''upgrade''] @ map bare ps @ to_stdout @ [Oper ''|'', bare ''tail'', bare ''-40''])"
proof -
  obtain vs where vs: "pkg_names [] (quoted_parts js) = blanks vs" "set vs \<subseteq> set (quoted_parts js)"
    "list_all pkg_word vs" "length (blanks vs) < 768"
    using pkg_names_words [of "[]" "quoted_parts js"] by auto
  have "strchr js DQ \<noteq> None" using assms(3) by (auto simp: strchr_None)
  then have c: "vs \<noteq> []" "cmd = snprintf_s 1024 (mgr @ '' -y upgrade '' @ blanks vs @ '' 2>&1 | tail -40'')"
    using assms(1,2) vs(1,3) by (auto simp: pkg_upgrade_cmd_def Let_def split: if_splits)
  have m: "list_all sh_inert mgr" "mgr \<noteq> []" "length mgr = 3" using assms(2) by (auto simp: inert_defs)
  have w: "sh_lex False None (''-y'' @ CHR '' '' # r) = tok_cons [bare ''-y''] (sh_lex False None r)"
    "sh_lex False None (''upgrade'' @ CHR '' '' # r) = tok_cons [bare ''upgrade''] (sh_lex False None r)" for r
    by (rule lex_word; simp add: inert_defs)+
  have "sh_tokens cmd = Toks ([bare mgr, bare ''-y'', bare ''upgrade''] @ map bare vs @ to_stdout @ [Oper ''|'', bare ''tail'', bare ''-40''])"
    using m(3) vs(4) c w lex_word [OF m(1,2)] lex_blanks [OF vs(3) c(1)] lex_2to1_tail(2)
    by (simp add: sh_tokens_def)
  with vs(2,3) c(1) show ?thesis by auto
qed

subsection \<open>Properties\<close>

lemma show_int_small: "show_int 30 = ''30''" "show_int 60 = ''60''" "show_int 600 = ''600''"
  by code_simp+

lemma int32_small: "int32 30" "int32 60" "int32 600"
  by (simp_all add: int32_def)

text \<open>
  C24.  A service action reaches systemctl with the name as one argument, byte for byte: whatever
  the name, the agent runs either nothing or one line that the shell reads as
  \<open>timeout 30 sh -c <command>\<close>, and the inner shell reads the command as the words \<open>systemctl\<close>, one
  of the five allowed actions and the name, quoted.  Docker actions are the same with the container.
\<close>

theorem actions_do_not_inject:
  assumes "length name \<le> 400"
    and "ctc_service_action_json h name action = Ret (se, st)"
    and "ctc_docker_action_json h name action = Ret (de, dt)"
  shows "(se = [] \<or> action \<in> set [''start'', ''stop'', ''restart'', ''enable'', ''disable''] \<and>
        (\<exists>l. se = [Popen l] \<and> wrapped_in l ([bare ''systemctl'', bare action, quoted_word name] @ to_stdout) ''30'')) \<and>
     (de = [] \<or> name \<noteq> [] \<and> action \<in> set [''start'', ''stop'', ''restart'', ''rm'', ''pause'', ''unpause''] \<and>
        (\<exists>l. de = [Popen l] \<and> wrapped_in l
           ([bare ''docker'', bare action] @ (if action = ''rm'' then [bare ''-f''] else []) @ [quoted_word name]
             @ to_stdout @ [Oper ''|'', bare ''tail'', bare ''-3'']) ''60''))"
proof
  let ?s = "snprintf_s 512 (''systemctl '' @ action @ '' '' @ SQ # name @ SQ # '' 2>&1'')"
  have "wrapped_in (run_cmd_line ?s 30) ([bare ''systemctl'', bare action, quoted_word name] @ to_stdout) (show_int 30)"
    if "action \<in> set [''start'', ''stop'', ''restart'', ''enable'', ''disable'']" "list_all service_char name"
    using service_cmd_tokens [OF that assms(1)] int32_small by (intro wrapped_inI) simp_all
  then show "se = [] \<or> action \<in> set [''start'', ''stop'', ''restart'', ''enable'', ''disable''] \<and>
        (\<exists>l. se = [Popen l] \<and> wrapped_in l ([bare ''systemctl'', bare action, quoted_word name] @ to_stdout) ''30'')"
    using assms(2) unfolding ctc_service_action_json_def Let_def ran_def
    by (auto simp: show_int_small and_then_Ret split: if_splits option.splits)
next
  have "wrapped_in (run_cmd_line (docker_action_cmd name action) 60)
      ([bare ''docker'', bare action] @ (if action = ''rm'' then [bare ''-f''] else []) @ [quoted_word name]
             @ to_stdout @ [Oper ''|'', bare ''tail'', bare ''-3'']) (show_int 60)"
    if "action \<in> set [''start'', ''stop'', ''restart'', ''rm'', ''pause'', ''unpause'']" "list_all container_char name"
    using docker_cmd_tokens [OF that assms(1)] int32_small by (intro wrapped_inI) (simp_all add: docker_action_cmd_def)
  then show "de = [] \<or> name \<noteq> [] \<and> action \<in> set [''start'', ''stop'', ''restart'', ''rm'', ''pause'', ''unpause''] \<and>
        (\<exists>l. de = [Popen l] \<and> wrapped_in l
           ([bare ''docker'', bare action] @ (if action = ''rm'' then [bare ''-f''] else []) @ [quoted_word name]
             @ to_stdout @ [Oper ''|'', bare ''tail'', bare ''-3'']) ''60'')"
    using assms(3) unfolding ctc_docker_action_json_def Let_def ran_def
    by (auto simp: show_int_small and_then_Ret split: if_splits)
qed

definition quiet_host :: shell_host where
  "quiet_host = \<lparr>sh_popen = (\<lambda>_. Some []), sh_alloc = (\<lambda>_. True),
     sh_access = (\<lambda>p. p \<in> set [''/usr/bin/docker'', ''/run/docker.sock'', ''/usr/bin/dnf'']), sh_root = True,
     sh_system = (\<lambda>_. 0), sh_fopen_w = (\<lambda>_. True), sh_xdg = None\<rparr>"

lemma quiet_facts [simp]:
  "sh_alloc quiet_host n"
  "sh_access quiet_host p \<longleftrightarrow> p \<in> set [''/usr/bin/docker'', ''/run/docker.sock'', ''/usr/bin/dnf'']"
  by (simp_all add: quiet_host_def)

lemma quiet_runs: "run_cmd quiet_host cmd t = Some []"
  by (simp add: run_cmd_def quiet_host_def read_output.simps)

theorem actions_do_not_inject_witness:
  "\<exists>l. ctc_service_action_json quiet_host ''sshd'' ''restart'' = Ret ([Popen l], ok_message True []) \<and>
     wrapped_in l ([bare ''systemctl'', bare ''restart'', quoted_word ''sshd''] @ to_stdout) ''30''"
proof -
  obtain se st where s: "ctc_service_action_json quiet_host ''sshd'' ''restart'' = Ret (se, st)"
      "se \<noteq> []" "st = ok_message True []"
    by (simp add: ctc_service_action_json_def service_char_def isalnum_def islower_def quiet_runs jesc_def Let_def
        fmt_text_def ran_def ok_message_def jobj_def json_raw_field_def json_str_field_def jbool_def snprintf_s_def)
  obtain de dt where d: "ctc_docker_action_json quiet_host ''sshd'' ''restart'' = Ret (de, dt)"
    by (simp add: ctc_docker_action_json_def docker_available_def container_char_def isalnum_def islower_def quiet_runs jesc_def Let_def
        fmt_text_def ran_def)
  show ?thesis using actions_do_not_inject [OF _ s(1) d] s by auto
qed



subsection \<open>Two slips\<close>

text \<open>
  \<open>systemctl is-active\<close> prints \<open>inactive\<close> for a stopped firewall, which contains \<open>active\<close>: the audit
  reports the firewall as active.
\<close>

lemma stopped_firewall_reported_active:
  assumes "run_cmd h ''systemctl is-active firewalld 2>/dev/null'' 8 = Some (''inactive'' @ [NL])"
  shows "snd (audit_firewall h) = jobj [json_raw_field ''active'' ''true'', json_str_field ''backend'' ''firewalld'']"
proof -
  have "strstr (''inactive'' @ [NL]) ''active'' \<noteq> None" by code_simp
  then show ?thesis using assms by (simp add: audit_firewall_def opt_text_def)
qed

text \<open>
  The text of the mounts starts one byte too late, behind the opening quote of the first mount, so
  the parts found are the ones between the mounts.
\<close>

lemma mounts_ignored:
  "mount_args (array_parts (Some (drop 11 (DQ # ''mounts'' @ DQ # '':['' @ DQ # ''/a:/b'' @ DQ # '','' @ DQ # ''/c:/d'' @ [DQ])))) = []"
proof -
  have "quoted_parts (''/a:/b'' @ DQ # '','' @ DQ # ''/c:/d'' @ [DQ]) = ['','']"
    by (simp add: quoted_parts.simps)
  then show ?thesis by (simp add: array_parts_def mount_args_def)
qed

end
