(* ===== verification/SysOps.thy ===== *)
theory SysOps
  imports Admin "HOL-Library.Multiset"
begin

section \<open>Accounts, logs, network and remote commands (clients/src/sysops.c)\<close>

text \<open>
  The handlers run their commands with \<open>xrun_cmd\<close>, except for the change of a password and the remote
  command, which fork a child of their own.  Texts the caller passes are C strings that may be empty;
  \<open>now\<close> is the clock in milliseconds.
\<close>

definition xran :: "string \<Rightarrow> int \<Rightarrow> effect list" where
  "xran cmd t = [Popen (xrun_cmd_line cmd t)]"

subsection \<open>Accounts\<close>

text \<open>The text in front of the first mention of the name, up to the start of its line.\<close>

definition last_login :: "string option \<Rightarrow> string \<Rightarrow> string" where
  "last_login lastout name =
     (case lastout of
        None \<Rightarrow> []
      | Some out \<Rightarrow>
          (case strstr out (snprintf_s 160 (name @ '' '')) of
             None \<Rightarrow> []
           | Some pos \<Rightarrow>
               let before = take (length out - length pos) out;
                   ls = rev (takeWhile (\<lambda>c. c \<noteq> NL) (rev before))
               in if before \<noteq> [] \<and> ls \<noteq> [] \<and> length ls < 64 then ls else []))"

definition user_item :: "shell_host \<Rightarrow> string option \<Rightarrow> string \<Rightarrow> string option" where
  "user_item h lastout line =
     (let seg = split_fields 8 CHR '':'' line in
      if length seg < 7 then None
      else
        let name = snprintf_s 128 (seg ! 0); passwd = snprintf_s 64 (seg ! 1);
            uid = atoi (seg ! 2); gid = atoi (seg ! 3);
            home = snprintf_s 512 (seg ! 5); shell = snprintf_s 256 (seg ! 6);
            is_normal = (uid \<ge> 1000 \<or> uid = 0);
            has_shell = (strstr shell ''nologin'' = None \<and> strstr shell ''false'' = None);
            locked = (passwd \<noteq> [] \<and> (hd passwd = CHR ''!'' \<or> hd passwd = CHR ''*''))
        in if \<not> is_normal \<or> \<not> has_shell then None
           else Some (jobj [json_str_field ''username'' (xesc h name), json_raw_field ''uid'' (show_int uid),
                  json_raw_field ''gid'' (show_int gid), json_str_field ''home'' (xesc h home),
                  json_str_field ''shell'' (xesc h shell), json_raw_field ''locked'' (jbool locked),
                  json_str_field ''last_login'' (xesc h (last_login lastout name))]))"

definition ctc_sys_user_list_json :: "shell_host \<Rightarrow> reply" where
  "ctc_sys_user_list_json h =
     (let getent = ''getent passwd''; last_cmd = ''last -n 200 2>/dev/null'' in
      and_then (xrun_cmd h getent 10) (\<lambda>out.
        case out of
          None \<Rightarrow> Ret (xran getent 10, json_error ''getent failed'')
        | Some out \<Rightarrow>
            and_then (xrun_cmd h last_cmd 10) (\<lambda>lastout.
            and_then (buf_text h 8192 (CHR ''{'' # jlist ''users'' @
                join_items 1024 True (List.map_filter (user_item h lastout) (strtok_all out [NL])) @ '']}'')) (\<lambda>t.
              Ret (xran getent 10 @ xran last_cmd 10, t)))))"

text \<open>
  What the system answers about a child: whether \<open>pipe\<close> and \<open>fork\<close> succeed, what \<open>write\<close> returns for a
  number of bytes, and the exit code, \<open>None\<close> for a child ended by a signal.
\<close>

record child_env =
  ch_pipe :: bool
  ch_fork :: bool
  ch_write :: "nat \<Rightarrow> int"
  ch_exit :: "int option"

text \<open>
  The line for \<open>chpasswd\<close> is printed into 512 bytes, but written with the length it would have had:
  beyond the array that reads memory that is not its own.
\<close>

definition ctc_sys_user_passwd_json :: "shell_host \<Rightarrow> child_env \<Rightarrow> string \<Rightarrow> string \<Rightarrow> reply" where
  "ctc_sys_user_passwd_json h e username new_password =
     (let text = username @ '':'' @ new_password @ [NL]; sent = snprintf_s 512 text @ [NUL] in
      if \<not> safe_name username then Ret ([], json_error ''invalid username'')
      else if length new_password < 6 then Ret ([], json_error ''password too short (min 6)'')
      else if \<not> sh_root h then Ret ([], json_error ''agent must run as root to change passwords'')
      else if \<not> ch_pipe e then Ret ([], json_error ''pipe failed'')
      else if \<not> ch_fork e then Ret ([], json_error ''fork failed'')
      else if length text > 512 then Undef
      else
        let w = ch_write e (length text);
            effs = [Spawn [''chpasswd''] (take (nat w) (take (length text) sent))]
        in if w \<noteq> int (length text) then Ret (effs, json_error ''write failed'')
           else if ch_exit e \<noteq> Some 0
             then Ret (effs, json_error ''chpasswd failed (user not found or permission denied)'')
           else Ret (effs, ok_message True ''password updated''))"

definition user_lock_cmd :: "string \<Rightarrow> bool \<Rightarrow> string" where
  "user_lock_cmd username lock =
     snprintf_s 256 (''/usr/sbin/usermod -'' @ (if lock then ''L'' else ''U'') @ '' '' @ SQ # username @ SQ # '' 2>&1'')"

definition ctc_sys_user_lock_json :: "shell_host \<Rightarrow> string \<Rightarrow> bool \<Rightarrow> reply" where
  "ctc_sys_user_lock_json h username lock =
     (if \<not> safe_name username then Ret ([], json_error ''invalid username'')
      else if \<not> sh_root h then Ret ([], json_error ''agent must run as root to lock/unlock accounts'')
      else if username = ''root'' then Ret ([], json_error ''refusing to lock root account'')
      else
        let cmd = user_lock_cmd username lock in
        and_then (xrun_cmd h cmd 15) (\<lambda>out.
          let e_out = xesc h (opt_text out) in
          and_then (fmt_text h (length e_out + 128) (ok_message (out = Some []) e_out)) (\<lambda>t. Ret (xran cmd 15, t))))"

subsection \<open>System log\<close>

definition keyword_char :: "char \<Rightarrow> bool" where
  "keyword_char c \<longleftrightarrow> isalnum c \<or> c \<in> set '' -_./:=''"

definition file_keyword_char :: "char \<Rightarrow> bool" where
  "file_keyword_char c \<longleftrightarrow> isalnum c \<or> c \<in> set '' -_.''"

text \<open>The loop copies the accepted characters while fewer than 253 have been copied.\<close>

definition safe_kw :: "(char \<Rightarrow> bool) \<Rightarrow> string \<Rightarrow> string" where
  "safe_kw ok keyword = take 253 (filter ok keyword)"

definition journal_filter :: "string \<Rightarrow> string \<Rightarrow> string" where
  "journal_filter priority unit =
     take 511 ((if priority \<noteq> [] then snprintf_s 64 ('' -p '' @ priority) else [])
       @ (if safe_name unit then '' -u '' @ unit else []))"

definition sys_log_cmd :: "shell_host \<Rightarrow> string \<Rightarrow> string \<Rightarrow> string \<Rightarrow> string \<Rightarrow> int \<Rightarrow> string option" where
  "sys_log_cmd h source priority unit keyword lines0 =
     (let lines = (if lines0 \<le> 0 \<or> lines0 > 500 then 100 else lines0);
          has_journal = (sh_access h ''/usr/bin/journalctl'' \<or> sh_access h ''/bin/journalctl'')
      in if has_journal \<and> (source = ''journald'' \<or> source = []) then
           let flt = journal_filter priority unit; kw = safe_kw keyword_char keyword in
           Some (snprintf_s 2048
             (if kw \<noteq> []
              then ''journalctl --no-pager -o short-iso '' @ flt @ '' -n '' @ show_int (lines * 5)
                     @ '' 2>/dev/null | grep -F -- '' @ SQ # kw @ SQ # '' | tail -'' @ show_int lines
              else ''journalctl --no-pager -o short-iso '' @ flt @ '' -n '' @ show_int lines @ '' 2>/dev/null''))
         else
           let file = (if sh_access h ''/var/log/messages'' then ''/var/log/messages'' else ''/var/log/syslog'');
               kw = safe_kw file_keyword_char keyword
           in if \<not> sh_access h file then None
              else Some (snprintf_s 2048
                (if kw \<noteq> [] then ''grep -F -- '' @ SQ # kw @ SQ # '' '' @ file @ '' 2>/dev/null | tail -'' @ show_int lines
                 else ''tail -'' @ show_int lines @ '' '' @ file @ '' 2>/dev/null'')))"

definition strcasestr :: "string \<Rightarrow> string \<Rightarrow> bool" where
  "strcasestr s pat \<longleftrightarrow> strstr (map tolower s) (map tolower pat) \<noteq> None"

definition log_priority :: "string \<Rightarrow> string" where
  "log_priority line =
     (if strcasestr line ''error'' \<or> strcasestr line ''failed'' \<or> strcasestr line ''fatal'' then ''err''
      else if strcasestr line ''warn'' then ''warning''
      else if strcasestr line ''debug'' then ''debug''
      else ''info'')"

text \<open>Time stamp, unit and message of a line in the format \<open>short-iso\<close>.\<close>

definition log_fields :: "string \<Rightarrow> string \<times> string \<times> string" where
  "log_fields line =
     (case sscanf_s [63, 127] line of
        ([ts, host], r) \<Rightarrow>
          let rest = dropWhile isspace r in
          (case strchr rest CHR '':'' of
             None \<Rightarrow> (ts, [], rest)
           | Some colon \<Rightarrow>
               let il = length rest - length colon in
               if il < 200
               then (ts, takeWhile (\<lambda>c. c \<noteq> CHR ''['') (take il rest), dropWhile (\<lambda>c. c = CHR '' '') (drop 1 colon))
               else (ts, [], rest))
      | (fs, r) \<Rightarrow> (opt_text (case fs of [] \<Rightarrow> None | f # _ \<Rightarrow> Some f), [], line))"

text \<open>\<open>local_time\<close> is \<open>strptime\<close> and \<open>mktime\<close> in the local time zone, in seconds.\<close>

definition log_item :: "shell_host \<Rightarrow> (string \<Rightarrow> int option) \<Rightarrow> string \<Rightarrow> string option" where
  "log_item h local_time line =
     (if line \<noteq> [] \<and> hd line = CHR ''-'' \<and> strstr line ''Boot'' \<noteq> None then None
      else
        let (ts, ident, msg) = log_fields line;
            ms = (case local_time ts of None \<Rightarrow> 0 | Some s \<Rightarrow> s * 1000)
        in Some (jobj [json_raw_field ''timestamp'' (show_int ms), json_str_field ''priority'' (log_priority line),
             json_str_field ''unit'' (xesc h ident), json_str_field ''message'' (xesc h msg)]))"

definition ctc_sys_log_json ::
  "shell_host \<Rightarrow> (string \<Rightarrow> int option) \<Rightarrow> string \<Rightarrow> string \<Rightarrow> string \<Rightarrow> string \<Rightarrow> int \<Rightarrow> reply"
where
  "ctc_sys_log_json h local_time source priority unit keyword lines =
     (case sys_log_cmd h source priority unit keyword lines of
        None \<Rightarrow> Ret ([], jobj [json_raw_field ''entries'' ''[]'', json_raw_field ''total'' ''0''])
      | Some cmd \<Rightarrow>
          and_then (xrun_cmd h cmd 30) (\<lambda>out.
            let items = List.map_filter (log_item h local_time) (strtok_all (opt_text out) [NL]) in
            and_then (buf_text h 8192 (CHR ''{'' # jlist ''entries'' @ join_items 2048 True items @ ''],''
                @ json_raw_field ''total'' (show_int (int (length items))) @ ''}'')) (\<lambda>t.
              Ret (xran cmd 30, t))))"

subsection \<open>Network traffic\<close>

text \<open>
  The conversion \<open>%llu\<close>: blanks, an optional sign, digits; a value beyond 64 bits is the largest one, a
  negative one is taken modulo 2 to the 64.
\<close>

definition scan_llu :: "string \<Rightarrow> (nat \<times> string) option" where
  "scan_llu s =
     (let t = dropWhile isspace s;
          neg = (t \<noteq> [] \<and> hd t = CHR ''-'');
          u = (if t \<noteq> [] \<and> (hd t = CHR ''-'' \<or> hd t = CHR ''+'') then tl t else t);
          ds = takeWhile isdigit u; v = digits_val 0 ds
      in if ds = [] then None
         else Some (if v \<ge> 2 ^ 64 then 2 ^ 64 - 1 else if neg \<and> v \<noteq> 0 then 2 ^ 64 - v else v, drop (length ds) u))"

fun scan_llus :: "nat \<Rightarrow> string \<Rightarrow> nat list" where
  "scan_llus 0 s = []"
| "scan_llus (Suc k) s = (case scan_llu s of None \<Rightarrow> [] | Some (v, r) \<Rightarrow> v # scan_llus k r)"

text \<open>A line of /proc/net/dev: the name of the interface and the 16 counters.\<close>

definition net_dev :: "string \<Rightarrow> (string \<times> nat list) option" where
  "net_dev line =
     (let t = dropWhile isspace line; name = take 63 (takeWhile (\<lambda>c. c \<noteq> CHR '':'') t) in
      case drop (length name) t of
        [] \<Rightarrow> None
      | c # r \<Rightarrow>
          let v = scan_llus 16 r in
          if name = [] \<or> c \<noteq> CHR '':'' \<or> length v < 16 then None else Some (name, v))"

definition operstate :: "(string \<Rightarrow> byte list option) \<Rightarrow> string \<Rightarrow> string" where
  "operstate files name =
     (case files (snprintf_s 128 (''/sys/class/net/'' @ name @ ''/operstate'')) of
        None \<Rightarrow> ''unknown''
      | Some bytes \<Rightarrow>
          if bytes = [] then ''unknown'' else takeWhile (\<lambda>c. c \<noteq> NL) (cstr (fgets1 32 bytes)))"

definition traffic_item :: "shell_host \<Rightarrow> (string \<Rightarrow> byte list option) \<Rightarrow> string \<Rightarrow> string option" where
  "traffic_item h files line =
     (case net_dev (cstr line) of
        None \<Rightarrow> None
      | Some (name, v) \<Rightarrow>
          if name = ''lo'' then None
          else
            let num = (\<lambda>k i. json_raw_field k (show_int (int (v ! i)))) in
            Some (jobj [json_str_field ''name'' (xesc h name), num ''rx_bytes'' 0, num ''rx_packets'' 1, num ''rx_errs'' 2,
              num ''tx_bytes'' 8, num ''tx_packets'' 9, num ''tx_errs'' 10,
              json_raw_field ''up'' (jbool (strstr (operstate files name) ''up'' \<noteq> None))]))"

definition ctc_net_traffic_json :: "shell_host \<Rightarrow> (string \<Rightarrow> byte list option) \<Rightarrow> int \<Rightarrow> string outcome" where
  "ctc_net_traffic_json h files now =
     (case files ''/proc/net/dev'' of
        None \<Rightarrow> Ret (jobj [json_raw_field ''interfaces'' ''[]''])
      | Some bytes \<Rightarrow>
          buf_text h 8192 (snprintf_s 128 (CHR ''{'' # json_raw_field ''timestamp'' (show_int now) @ '','' @ jlist ''interfaces'')
            @ join_items 512 True (List.map_filter (traffic_item h files) (drop 2 (fgets_lines 512 bytes))) @ '']}''))"

subsection \<open>Network connections\<close>

definition tcp_states :: "(string \<times> nat) list" where
  "tcp_states =
     [(''ESTAB'', 0), (''ESTABLISHED'', 0), (''SYN-SENT'', 1), (''SYN_SENT'', 1), (''SYN-SENT'', 1),
      (''SYN-RECV'', 2), (''SYN_RECV'', 2), (''FIN-WAIT-1'', 3), (''FIN_WAIT1'', 3), (''FIN-WAIT-2'', 4), (''FIN_WAIT2'', 4),
      (''TIME-WAIT'', 5), (''TIME_WAIT'', 5), (''CLOSE'', 6), (''CLOSE-WAIT'', 7), (''CLOSE_WAIT'', 7),
      (''LAST-ACK'', 8), (''LAST_ACK'', 8), (''LISTEN'', 9), (''CLOSING'', 10)]"

definition state_index :: "string \<Rightarrow> nat" where
  "state_index state = (case map_of tcp_states state of None \<Rightarrow> 11 | Some i \<Rightarrow> i)"

definition state_keys :: "string list" where
  "state_keys = [''ESTABLISHED'', ''SYN-SENT'', ''SYN-RECV'', ''FIN-WAIT-1'', ''FIN-WAIT-2'', ''TIME-WAIT'', ''CLOSE'',
     ''CLOSE-WAIT'', ''LAST-ACK'', ''LISTEN'', ''CLOSING'', ''UNKNOWN'']"

type_synonym remote = "string \<times> nat"

text \<open>The record of an address counts up, or a new one is added while there are fewer than 128.\<close>

fun hit_remote :: "string \<Rightarrow> remote list \<Rightarrow> remote list option" where
  "hit_remote ip [] = None"
| "hit_remote ip ((a, n) # rs) = (if a = ip then Some ((a, n + 1) # rs) else map_option ((#) (a, n)) (hit_remote ip rs))"

definition add_remote :: "string \<Rightarrow> remote list \<Rightarrow> remote list" where
  "add_remote ip rs =
     (case hit_remote ip rs of
        Some rs' \<Rightarrow> rs'
      | None \<Rightarrow> if length rs < 128 then rs @ [(ip, 1)] else rs)"

record conn_stat =
  cs_states :: "nat list"
  cs_remotes :: "remote list"
  cs_total :: nat

definition conn_stat0 :: conn_stat where
  "conn_stat0 = \<lparr>cs_states = replicate 16 0, cs_remotes = [], cs_total = 0\<rparr>"

text \<open>The fields of \<open>"%31s %*s %*s %127s %127s"\<close>, the skipped ones included.\<close>

definition conn_fields :: "string \<Rightarrow> string list" where
  "conn_fields line = fst (sscanf_s [31, length line, length line, 127, 127] line)"

definition conn_line :: "string \<Rightarrow> conn_stat \<Rightarrow> conn_stat" where
  "conn_line line s =
     (case conn_fields line of
        [state, _, _, loc, peer] \<Rightarrow>
          if state = ''State'' \<or> state = ''Netid'' then s
          else
            let i = state_index state;
                s = s\<lparr>cs_total := cs_total s + 1, cs_states := (cs_states s)[i := cs_states s ! i + 1]\<rparr>
            in if (state = ''ESTAB'' \<or> state = ''ESTABLISHED'') \<and> peer \<notin> set [''*:*'', ''0.0.0.0:*'', ''[::]:*''] then
                 let ip = snprintf_s 64 peer;
                     ip = (case strrchr ip CHR '':'' of None \<Rightarrow> ip | Some c \<Rightarrow> take (length ip - length c) ip)
                 in s\<lparr>cs_remotes := add_remote ip (cs_remotes s)\<rparr>
               else s
      | _ \<Rightarrow> s)"

text \<open>The two loops that sort the records by their counts, the largest first.\<close>

definition swap_at :: "nat \<Rightarrow> nat \<Rightarrow> 'a list \<Rightarrow> 'a list" where
  "swap_at i j xs = xs[i := xs ! j, j := xs ! i]"

definition sort_step :: "nat \<Rightarrow> nat \<Rightarrow> remote list \<Rightarrow> remote list" where
  "sort_step i j rs = (if snd (rs ! j) > snd (rs ! i) then swap_at i j rs else rs)"

definition sort_inner :: "nat \<Rightarrow> remote list \<Rightarrow> remote list" where
  "sort_inner i rs = fold (sort_step i) [Suc i ..< length rs] rs"

definition sort_remotes :: "remote list \<Rightarrow> remote list" where
  "sort_remotes rs = fold sort_inner [0 ..< length rs] rs"

definition state_items :: "nat list \<Rightarrow> string list" where
  "state_items states =
     map (\<lambda>(k, n). json_raw_field k (show_int (int n))) (filter (\<lambda>(k, n). n \<noteq> 0) (zip state_keys states))"

definition remote_item :: "shell_host \<Rightarrow> remote \<Rightarrow> string" where
  "remote_item h r = jobj [json_str_field ''address'' (xesc h (fst r)), json_raw_field ''count'' (show_int (int (snd r)))]"

definition conn_text :: "shell_host \<Rightarrow> int \<Rightarrow> int \<Rightarrow> conn_stat \<Rightarrow> string" where
  "conn_text h now udp s =
     snprintf_s 256 (CHR ''{'' # json_raw_field ''timestamp'' (show_int now) @ '','' @ json_raw_field ''total_tcp'' (show_int (int (cs_total s)))
       @ '','' @ json_raw_field ''udp_count'' (show_int udp) @ '','' @ json_raw_field ''tcp_states'' ''{'')
     @ join_items 128 True (state_items (cs_states s)) @ ''},'' @ jlist ''top_remotes''
     @ join_items 256 True (map (remote_item h) (take 10 (sort_remotes (cs_remotes s)))) @ ''],'' @ jlist ''top_processes'' @ '']}''"

text \<open>Where neither command can be run, \<open>strtok_r\<close> is called on NULL with nothing saved.\<close>

definition ctc_net_conn_json :: "shell_host \<Rightarrow> int \<Rightarrow> reply" where
  "ctc_net_conn_json h now =
     (let ss = ''ss -tan 2>/dev/null | tail -n +2''; netstat = ''netstat -tan 2>/dev/null | tail -n +3'';
          udp = ''ss -uan 2>/dev/null | tail -n +2 | wc -l''
      in and_then (xrun_cmd h ss 15) (\<lambda>out1.
         and_then (if opt_text out1 = []
                   then and_then (xrun_cmd h netstat 15) (\<lambda>out2. Ret (xran ss 15 @ xran netstat 15, out2))
                   else Ret (xran ss 15, out1)) (\<lambda>(effs, out).
           case out of
             None \<Rightarrow> Undef
           | Some out \<Rightarrow>
               let s = fold conn_line (strtok_all out [NL]) conn_stat0 in
               and_then (xrun_cmd h udp 10) (\<lambda>udpout.
               and_then (buf_text h 8192 (conn_text h now (atoi (opt_text udpout)) s)) (\<lambda>t.
                 Ret (effs @ xran udp 10, t))))))"

subsection \<open>Remote commands\<close>

text \<open>
  One round of the loop that reads both pipes of the child: the time since the start, whether
  \<open>select\<close> reports anything, and for each pipe that is reported what \<open>read\<close> delivers, where no bytes
  stand for the end or an error.
\<close>

record exec_round =
  ro_ms :: int
  ro_sel :: bool
  ro_out :: "byte list option"
  ro_err :: "byte list option"

text \<open>An open pipe is the text read so far; \<open>fin\<close> tells that it is closed.\<close>

type_synonym pipe_text = "string \<times> bool"

definition pipe_step :: "byte list option \<Rightarrow> pipe_text \<Rightarrow> pipe_text" where
  "pipe_step r p =
     (case r of
        None \<Rightarrow> p
      | Some data \<Rightarrow>
          if snd p then p
          else if data = [] then (fst p, True) else (fst p @ cstr (take 4095 data), False))"

text \<open>The result has whether the deadline passed and the texts of both pipes.\<close>

partial_function (option) exec_loop ::
  "(nat \<Rightarrow> exec_round) \<Rightarrow> int \<Rightarrow> nat \<Rightarrow> pipe_text \<Rightarrow> pipe_text \<Rightarrow> (bool \<times> string \<times> string) option"
where
  "exec_loop rounds deadline k po pe =
     (if snd po \<and> snd pe then Some (False, fst po, fst pe)
      else if ro_ms (rounds k) \<ge> deadline then Some (True, fst po, fst pe)
      else if \<not> ro_sel (rounds k) then exec_loop rounds deadline (k + 1) po pe
      else exec_loop rounds deadline (k + 1) (pipe_step (ro_out (rounds k)) po) (pipe_step (ro_err (rounds k)) pe))"

declare exec_loop.simps [code]

datatype wait_status = WExited int | WSignaled int

text \<open>
  The system around the command: both pipes and the fork succeed or not, the rounds, the status
  \<open>waitpid\<close> delivers (\<open>None\<close> for a child that never ends; it depends on whether the child has been
  killed), and the duration that is measured.
\<close>

record exec_env =
  ex_pipes :: bool
  ex_fork :: bool
  ex_rounds :: "nat \<Rightarrow> exec_round"
  ex_wait :: "bool \<Rightarrow> wait_status option"
  ex_dur :: int

definition exec_failed :: "string \<Rightarrow> string" where
  "exec_failed err = jobj [json_raw_field ''ok'' ''false'', json_raw_field ''exit_code'' ''-1'', json_str_field ''stdout'' [],
     json_str_field ''stderr'' err, json_raw_field ''duration_ms'' ''0'']"

definition exec_reply :: "shell_host \<Rightarrow> bool \<Rightarrow> int \<Rightarrow> string \<Rightarrow> string \<Rightarrow> int \<Rightarrow> string outcome" where
  "exec_reply h timed_out exit_code ob eb dur =
     (let e_out = xesc h (take (128 * 1024) ob); e_err = xesc h (take (32 * 1024) eb) in
      fmt_text h (length e_out + length e_err + 256)
        (jobj [json_raw_field ''ok'' (jbool (\<not> timed_out \<and> exit_code = 0)), json_raw_field ''exit_code'' (show_int exit_code),
           json_str_field ''stdout'' e_out, json_str_field ''stderr'' e_err, json_raw_field ''duration_ms'' (show_int dur),
           json_raw_field ''timed_out'' (jbool timed_out)]))"

definition exec_code :: "bool \<Rightarrow> wait_status \<Rightarrow> int" where
  "exec_code timed_out st = (if timed_out then 124 else case st of WExited c \<Rightarrow> c | WSignaled s \<Rightarrow> 128 + s)"

definition exec_timeout :: "int \<Rightarrow> int" where
  "exec_timeout t = (if t \<le> 0 \<or> t > 300 then 60 else t)"

definition ctc_cmd_exec_json :: "shell_host \<Rightarrow> exec_env \<Rightarrow> string \<Rightarrow> int \<Rightarrow> string \<Rightarrow> reply option" where
  "ctc_cmd_exec_json h e command timeout_sec shell0 =
     (let shell = (if shell0 = [] then ''/bin/bash'' else shell0) in
      if command = [] then Some (Ret ([], exec_failed []))
      else if \<not> ex_pipes e then Some (Ret ([], exec_failed ''pipe failed''))
      else if \<not> ex_fork e then Some (Ret ([], exec_failed ''fork failed''))
      else if \<not> sh_alloc h 8192 then Some Undef
      else
        (case exec_loop (ex_rounds e) (exec_timeout timeout_sec * 1000) 0 ([], False) ([], False) of
           None \<Rightarrow> None
         | Some (timed_out, ob, eb) \<Rightarrow>
             (case ex_wait e timed_out of
                None \<Rightarrow> None
              | Some st \<Rightarrow>
                  Some (if buf_ok h 8192 (length ob + 1) \<and> buf_ok h 8192 (length eb + 1)
                    then and_then (exec_reply h timed_out (exec_code timed_out st) ob eb (ex_dur e))
                           (\<lambda>t. Ret ([Spawn [shell, ''-c'', command] []], t))
                    else Undef))))"

subsection \<open>Sorting and counting connections\<close>

lemma swap_at_facts:
  assumes "i < length xs" "j < length xs"
  shows "length (swap_at i j xs) = length xs" "mset (swap_at i j xs) = mset xs"
  using assms mset_swap [of j xs i] by (simp_all add: swap_at_def)

text \<open>The inner loop up to \<open>m\<close>: the record at \<open>i\<close> is the largest up to \<open>m\<close>, what stands in front stays.\<close>

lemma sort_inner_upto:
  assumes "i < length rs" "m \<le> length rs"
  defines "r \<equiv> fold (sort_step i) [Suc i ..< m] rs"
  shows "length r = length rs \<and> mset r = mset rs \<and> take i r = take i rs \<and> (\<forall>j. i < j \<longrightarrow> j < m \<longrightarrow> snd (r ! j) \<le> snd (r ! i))"
  using assms(2) unfolding r_def
proof (induction m)
  case (Suc m)
  show ?case
  proof (cases "i < m")
    case True
    define q where "q = fold (sort_step i) [Suc i ..< m] rs"
    have q: "length q = length rs" "mset q = mset rs" "take i q = take i rs" "\<forall>j. i < j \<longrightarrow> j < m \<longrightarrow> snd (q ! j) \<le> snd (q ! i)"
      using Suc by (simp_all add: q_def)
    have s: "[Suc i ..< Suc m] = [Suc i ..< m] @ [m]" using True by simp
    have "take i (swap_at i m q) = take i q" using True by (simp add: swap_at_def)
    then have "length (sort_step i m q) = length rs \<and> mset (sort_step i m q) = mset rs \<and> take i (sort_step i m q) = take i rs"
      using q(1-3) True Suc.prems swap_at_facts [of i q m] by (simp add: sort_step_def)
    moreover have "snd (sort_step i m q ! j) \<le> snd (sort_step i m q ! i)" if "i < j" "j < Suc m" for j
    proof (cases "j < m")
      case True
      then have "snd (q ! j) \<le> snd (q ! i)" using q(4) that(1) by simp
      then show ?thesis using True that(1) q(1) Suc.prems by (auto simp: sort_step_def swap_at_def nth_list_update)
    next
      case False
      then show ?thesis using that q(1) Suc.prems by (auto simp: less_Suc_eq sort_step_def swap_at_def nth_list_update)
    qed
    ultimately show ?thesis unfolding s by (simp add: q_def)
  qed simp
qed simp

lemma sort_remotes_upto:
  assumes "m \<le> length rs"
  defines "r \<equiv> fold sort_inner [0 ..< m] rs"
  shows "length r = length rs \<and> mset r = mset rs \<and>
    (\<forall>i j. i < m \<longrightarrow> i < j \<longrightarrow> j < length rs \<longrightarrow> snd (r ! j) \<le> snd (r ! i))"
  using assms(1) unfolding r_def
proof (induction m)
  case (Suc m)
  define q where "q = fold sort_inner [0 ..< m] rs"
  have q: "length q = length rs" "mset q = mset rs" "\<forall>i j. i < m \<longrightarrow> i < j \<longrightarrow> j < length rs \<longrightarrow> snd (q ! j) \<le> snd (q ! i)"
    using Suc by (simp_all add: q_def)
  define r where "r = sort_inner m q"
  have r: "length r = length q" "mset r = mset q" "take m r = take m q" "\<forall>j. m < j \<longrightarrow> j < length q \<longrightarrow> snd (r ! j) \<le> snd (r ! m)"
    using sort_inner_upto [of m q "length q"] Suc.prems q(1) by (simp_all add: r_def sort_inner_def)
  have front: "r ! i = q ! i" if "i < m" for i using r(3) that by (metis nth_take)
  have tail: "mset (drop m r) = mset (drop m q)"
    using r(2,3) by (metis add_left_imp_eq append_take_drop_id mset_append)
  have "snd (r ! j) \<le> snd (r ! i)" if "i < m" "m \<le> j" "j < length rs" for i j
  proof -
    have "r ! j \<in> set (drop m r)" using that r(1) q(1) by (auto simp: in_set_conv_nth intro!: exI [of _ "j - m"])
    then have "r ! j \<in> set (drop m q)" using tail by (metis set_mset_mset)
    then obtain k where "k < length q - m" "r ! j = q ! (m + k)" by (auto simp: in_set_conv_nth)
    then show ?thesis using q(1,3) that front [OF that(1)] by auto
  qed
  moreover have "snd (r ! j) \<le> snd (r ! i)" if "i < m" "i < j" "j < m" for i j
    using that q(3) front Suc.prems by simp
  ultimately have "\<forall>i j. i < Suc m \<longrightarrow> i < j \<longrightarrow> j < length rs \<longrightarrow> snd (r ! j) \<le> snd (r ! i)"
    using r(4) q(1) by (metis less_Suc_eq not_less)
  then show ?case using q(1,2) r(1,2) by (simp add: r_def q_def)
qed simp

lemma sort_remotes_sorts: "mset (sort_remotes rs) = mset rs" "sorted_wrt (\<ge>) (map snd (sort_remotes rs))"
  using sort_remotes_upto [of "length rs" rs] by (auto simp: sort_remotes_def sorted_wrt_iff_nth_less)

definition conn_ok :: "conn_stat \<Rightarrow> bool" where
  "conn_ok s \<longleftrightarrow> length (cs_states s) = 16 \<and> sum_list (cs_states s) = cs_total s \<and>
     length (cs_remotes s) \<le> 128 \<and> distinct (map fst (cs_remotes s)) \<and>
     sum_list (map snd (cs_remotes s)) \<le> cs_states s ! 0"

lemma hit_remote_facts:
  "hit_remote ip rs = Some rs' \<Longrightarrow> map fst rs' = map fst rs \<and> sum_list (map snd rs') = sum_list (map snd rs) + 1"
  "hit_remote ip rs = None \<Longrightarrow> ip \<notin> fst ` set rs"
proof (induction rs arbitrary: rs')
  case (Cons r rs)
  { case 1 then show ?case using Cons.IH(1) by (cases r) (auto split: if_splits) }
  { case 2 then show ?case using Cons.IH(2) by (cases r) (auto split: if_splits) }
qed simp_all

lemma add_remote_facts:
  assumes "length rs \<le> 128" "distinct (map fst rs)"
  shows "length (add_remote ip rs) \<le> 128" "distinct (map fst (add_remote ip rs))"
    "sum_list (map snd (add_remote ip rs)) \<le> sum_list (map snd rs) + 1"
proof -
  have l: "hit_remote ip rs = Some rs' \<Longrightarrow> length rs' = length rs" for rs'
    using hit_remote_facts(1) [of ip rs rs'] by (metis length_map)
  show "length (add_remote ip rs) \<le> 128" "distinct (map fst (add_remote ip rs))"
    "sum_list (map snd (add_remote ip rs)) \<le> sum_list (map snd rs) + 1"
    using assms l hit_remote_facts [of ip rs] by (auto simp: add_remote_def image_iff split: option.splits)
qed

lemma state_index_range: "state_index s < 12" "s = ''ESTAB'' \<or> s = ''ESTABLISHED'' \<Longrightarrow> state_index s = 0"
proof -
  have "list_all (\<lambda>(k, i). i < 12) tcp_states" by code_simp
  then show "state_index s < 12" by (auto simp: state_index_def list_all_iff dest: map_of_SomeD split: option.splits)
  have "state_index ''ESTAB'' = 0" "state_index ''ESTABLISHED'' = 0" by code_simp+
  then show "s = ''ESTAB'' \<or> s = ''ESTABLISHED'' \<Longrightarrow> state_index s = 0" by auto
qed

lemma sum_list_bump: "i < length xs \<Longrightarrow> sum_list (xs[i := xs ! i + 1]) = sum_list xs + (1 :: nat)"
  by (simp add: sum_list_update elem_le_sum_list)

lemma conn_line_ok:
  assumes "conn_ok s"
  shows "conn_ok (conn_line line s)"
proof (cases "conn_line line s = s")
  case False
  then obtain state a b loc peer where f: "conn_fields line = [state, a, b, loc, peer]"
    "state \<noteq> ''State''" "state \<noteq> ''Netid''"
    unfolding conn_line_def by (auto split: list.splits if_splits)
  let ?t = "(cs_states s)[state_index state := cs_states s ! state_index state + 1]"
  have t: "length ?t = 16" "sum_list ?t = cs_total s + 1" "cs_states s ! 0 \<le> ?t ! 0"
    "state = ''ESTAB'' \<or> state = ''ESTABLISHED'' \<Longrightarrow> ?t ! 0 = cs_states s ! 0 + 1"
    using assms sum_list_bump [of "state_index state" "cs_states s"] state_index_range [of state]
    by (auto simp: conn_ok_def nth_list_update)
  show ?thesis
  proof (cases "(state = ''ESTAB'' \<or> state = ''ESTABLISHED'') \<and> peer \<notin> set [''*:*'', ''0.0.0.0:*'', ''[::]:*'']")
    case True
    then obtain ip where "conn_line line s = s\<lparr>cs_total := cs_total s + 1, cs_states := ?t, cs_remotes := add_remote ip (cs_remotes s)\<rparr>"
      using f by (auto simp: conn_line_def Let_def)
    moreover have "length (cs_remotes s) \<le> 128" "distinct (map fst (cs_remotes s))" "sum_list (map snd (cs_remotes s)) \<le> cs_states s ! 0"
      using assms by (simp_all add: conn_ok_def)
    ultimately show ?thesis using add_remote_facts [of "cs_remotes s" ip] t(1,2) t(4) True by (simp add: conn_ok_def)
  next
    case False
    then have "conn_line line s = s\<lparr>cs_total := cs_total s + 1, cs_states := ?t\<rparr>"
      using f by (auto simp: conn_line_def Let_def)
    then show ?thesis using assms t(1-3) by (simp add: conn_ok_def)
  qed
qed (simp add: assms)

lemma conn_fold_ok: "conn_ok s \<Longrightarrow> conn_ok (fold conn_line ls s)"
  by (induction ls arbitrary: s) (auto simp: conn_line_ok)

subsection \<open>Properties\<close>


lemma exec_loop_returns:
  "ro_ms (rounds n) \<ge> d \<Longrightarrow> k \<le> n \<Longrightarrow> \<exists>r. exec_loop rounds d k po pe = Some r"
proof (induction "n - k" arbitrary: k po pe)
  case 0
  then show ?case by (subst exec_loop.simps) auto
next
  case (Suc m)
  then have IH: "\<exists>r. exec_loop rounds d (Suc k) po pe = Some r" for po pe by simp
  show ?case
  proof (cases "snd po \<and> snd pe \<or> ro_ms (rounds k) \<ge> d")
    case True
    then show ?thesis by (subst exec_loop.simps) auto
  next
    case False
    then show ?thesis using IH by (subst exec_loop.simps) auto
  qed
qed


definition slow_child :: exec_env where
  "slow_child = \<lparr>ex_pipes = True, ex_fork = True,
     ex_rounds = (\<lambda>k. \<lparr>ro_ms = int k * 1000, ro_sel = False, ro_out = None, ro_err = None\<rparr>),
     ex_wait = (\<lambda>_. Some (WSignaled 9)), ex_dur = 2000\<rparr>"


text \<open>
  The limit covers the reading only: a command that closes both of its outputs and goes on is
  waited for without a limit.
\<close>

lemma cmd_exec_waits_for_ever:
  assumes "ex_pipes e" "ex_fork e" "sh_alloc h 8192" "command \<noteq> []"
    and "ex_rounds e 0 = \<lparr>ro_ms = 0, ro_sel = True, ro_out = Some [], ro_err = Some []\<rparr>" "ex_wait e False = None"
  shows "ctc_cmd_exec_json h e command t shell = None"
proof -
  have "exec_timeout t > 0" by (simp add: exec_timeout_def)
  then have "exec_loop (ex_rounds e) (exec_timeout t * 1000) 0 ([], False) ([], False) = Some (False, [], [])"
    using assms(5) by (simp add: exec_loop.simps pipe_step_def)
  then show ?thesis using assms by (simp add: ctc_cmd_exec_json_def Let_def)
qed

text \<open>A password may contain a line break; \<open>chpasswd\<close> then gets a second account and its password.\<close>

lemma password_sets_another_account:
  assumes "sh_root h" "ch_pipe e" "ch_fork e" "ch_exit e = Some 0" "\<And>n. ch_write e n = int n"
  shows "ctc_sys_user_passwd_json h e ''bob'' (''secret'' @ NL # ''root:toor'')
    = Ret ([Spawn [''chpasswd''] (''bob:secret'' @ NL # ''root:toor'' @ [NL])], ok_message True ''password updated'')"
  using assms by (simp add: ctc_sys_user_passwd_json_def Let_def safe_name_def isalnum_def islower_def snprintf_s_def)

lemma user_lock_line:
  assumes "safe_name u" "length u \<le> 200"
  shows "sh_tokens (xrun_cmd_line (user_lock_cmd u lock) 15) = Unterminated"
proof -
  let ?a = "''/usr/sbin/usermod -'' @ (if lock then ''L'' else ''U'') @ '' ''"
  have u: "list_all sh_inert u" "u \<noteq> []" using assms(1) by (auto simp: safe_name_def list_all_iff sh_inert_def)
  have c: "user_lock_cmd u lock = ?a @ SQ # u @ SQ # '' 2>&1''" using assms(2) by (simp add: user_lock_cmd_def)
  show ?thesis unfolding c
    by (rule xrun_line_unterminated) (use u assms(2) in \<open>simp_all add: sh_quiet_def sh_other_def int32_def\<close>)
qed

text \<open>
  C34.  Locking an account does nothing and reports success.  For every valid user name but root the
  line given to the shell ends inside quotes, because \<open>xrun_cmd\<close> does not open them again; on a
  system where the shell refuses such a line and prints nothing on its standard output, the
  handler answers \<open>ok: true\<close>.
\<close>

theorem user_lock_reports_success_unrun:
  assumes "safe_name u" "length u \<le> 200" "u \<noteq> ''root''" "sh_root h" "\<And>n. sh_alloc h n"
    and "\<And>l. sh_tokens l = Unterminated \<Longrightarrow> sh_popen h l = Some []"
  shows "\<exists>l. ctc_sys_user_lock_json h u lock = Ret ([Popen l], ok_message True []) \<and> sh_tokens l = Unterminated"
proof -
  let ?l = "xrun_cmd_line (user_lock_cmd u lock) 15"
  have l: "sh_tokens ?l = Unterminated" using user_lock_line [OF assms(1,2)] .
  have q: "c \<noteq> SQ \<Longrightarrow> xrun_quote (c # s) = c # xrun_quote s" for c s by (simp add: xrun_quote_def)
  have "length (xrun_quote (user_lock_cmd u lock)) = length (user_lock_cmd u lock) + 4"
  proof -
    have "SQ \<notin> set u" using assms(1) by (auto simp: safe_name_def list_all_iff inert_defs)
    then show ?thesis using assms(2) by (simp add: user_lock_cmd_def snprintf_s_def xrun_quote_id q)
  qed
  moreover have "length ?l < 8192" by (simp add: xrun_cmd_line_def)
  ultimately have "xrun_cmd h (user_lock_cmd u lock) 15 = Ret (Some [])"
    using assms(5) assms(6) [OF l] by (simp add: xrun_cmd_def Let_def read_output.simps)
  then show ?thesis using assms(1,3,4,5) l
    by (simp add: ctc_sys_user_lock_json_def Let_def xran_def opt_text_def xesc_def fmt_text_def ok_message_def jobj_def
        json_raw_field_def json_str_field_def jbool_def)
qed

text \<open>A host with a shell that prints \<open>x\<close> for every line it accepts.\<close>

definition posix_host :: shell_host where
  "posix_host = quiet_host\<lparr>sh_popen := (\<lambda>l. if sh_tokens l = Unterminated then Some [] else Some ''x'')\<rparr>"

theorem user_lock_reports_success_unrun_witness:
  "\<exists>l. ctc_sys_user_lock_json posix_host ''alice'' True = Ret ([Popen l], ok_message True []) \<and> sh_tokens l = Unterminated"
  by (rule user_lock_reports_success_unrun)
    (simp_all add: safe_name_def isalnum_def islower_def posix_host_def quiet_host_def)

end
