(* ===== verification/Upgrade.thy ===== *)
theory Upgrade
  imports Admin
begin

section \<open>Remote upgrade and removal (clients/src/portforward.c, clients/src/uninstall.c)\<close>

text \<open>
  \<open>ctc_upgrade_json\<close> downloads a new agent, checks it, installs it and restarts the service.  The
  environment has the name \<open>mkstemp\<close> makes up, the status of the commands given to \<open>system\<close>, the
  output of the one given to \<open>popen\<close>, the bytes of the file when it is opened after the download,
  the process number and whether \<open>fork\<close> makes a child.
\<close>

record upgrade_env =
  ue_tmp :: "string option"
  ue_system :: "string \<Rightarrow> int"
  ue_popen :: "string \<Rightarrow> byte list option"
  ue_open :: "byte list option"
  ue_pid :: int
  ue_child :: bool

definition download_cmd :: "string \<Rightarrow> string \<Rightarrow> string" where
  "download_cmd url out_path =
     snprintf_s 2048 (''curl -fsSL --connect-timeout 20 --max-time 300 -o '' @ SQ # out_path @ SQ # '' '' @ SQ # url
       @ SQ # '' 2>/dev/null || wget -q -T 300 -O '' @ SQ # out_path @ SQ # '' '' @ SQ # url @ SQ # '' 2>/dev/null'')"

definition download_file :: "upgrade_env \<Rightarrow> string \<Rightarrow> string \<Rightarrow> int" where
  "download_file e url out_path = (if ue_system e (download_cmd url out_path) = 0 then 0 else -1)"

definition sha256_cmd :: "string \<Rightarrow> string" where
  "sha256_cmd path = snprintf_s 1024 (''sha256sum '' @ SQ # path @ SQ # '' 2>/dev/null | cut -d'' @ SQ # '' '' @ SQ # '' -f1'')"

definition sha256_of_file :: "upgrade_env \<Rightarrow> string \<Rightarrow> string option" where
  "sha256_of_file e path =
     (case ue_popen e (sha256_cmd path) of
        None \<Rightarrow> None
      | Some out \<Rightarrow>
          if out = [] then None
          else
            let buf = strip_right [NL, CHR '' ''] (cstr (fgets1 128 out)) in
            if length buf = 64 then Some buf else None)"

definition upgrade_target :: string where
  "upgrade_target = ''/usr/local/bin/ctforge-agent''"

definition install_cmd :: "string \<Rightarrow> string \<Rightarrow> string" where
  "install_cmd tmp stage =
     snprintf_s 1024 (''cp '' @ SQ # tmp @ SQ # '' '' @ SQ # stage @ SQ # '' && chmod 755 '' @ SQ # stage
       @ SQ # '' && mv -f '' @ SQ # stage @ SQ # '' '' @ SQ # upgrade_target @ [SQ])"

definition upgrade_reply :: "bool \<Rightarrow> string \<Rightarrow> string \<Rightarrow> string" where
  "upgrade_reply ok msg version =
     snprintf_s 1024 (jobj [json_raw_field ''ok'' (jbool ok), json_str_field ''message'' msg, json_str_field ''version'' version])"

definition elf_magic :: "byte list" where
  "elf_magic = [CHR 0x7F, CHR ''E'', CHR ''L'', CHR ''F'']"

definition ctc_upgrade_json :: "upgrade_env \<Rightarrow> string \<Rightarrow> string \<Rightarrow> string \<Rightarrow> effect list \<times> string" where
  "ctc_upgrade_json e url want_sha256 version =
     (if url = [] then ([], ok_message False ''missing url'')
      else
        (case ue_tmp e of
           None \<Rightarrow> ([], ok_message False ''mkstemp failed'')
         | Some tmp \<Rightarrow>
             let dl = [System (download_cmd url tmp)] in
             if download_file e url tmp < 0 then (dl @ [Unlink tmp], upgrade_reply False ''download failed'' version)
             else
               let check = (length want_sha256 = 64);
                   sh = (if check then [Popen (sha256_cmd tmp)] else [])
               in
               if check \<and> sha256_of_file e tmp \<noteq> Some want_sha256
               then (dl @ sh @ [Unlink tmp], upgrade_reply False ''sha256 mismatch'' version)
               else if ue_open e \<noteq> None \<and> take 4 (the (ue_open e)) \<noteq> elf_magic
               then (dl @ sh @ [Unlink tmp], upgrade_reply False ''downloaded file is not a valid ELF binary'' version)
               else
                 let stage = snprintf_s 512 (upgrade_target @ ''.new.'' @ show_int (ue_pid e));
                     ins = dl @ sh @ [Chmod tmp, System (install_cmd tmp stage), Unlink tmp]
                 in if ue_system e (install_cmd tmp stage) \<noteq> 0
                    then (ins @ [Unlink stage], upgrade_reply False ''install failed'' version)
                    else (ins @ (if ue_child e then [Spawn [''systemctl'', ''restart'', ''ctforge-agent''] []] else []),
                          upgrade_reply True ''upgraded, restarting service'' version)))"

text \<open>What \<open>ctc_do_uninstall\<close> does, in order.\<close>

definition ctc_do_uninstall :: "effect list" where
  "ctc_do_uninstall =
     [System ''systemctl stop ctforge-agent 2>/dev/null'', System ''systemctl disable ctforge-agent 2>/dev/null'',
      System ''rm -f /etc/systemd/system/ctforge-agent.service'', System ''systemctl daemon-reload 2>/dev/null'',
      Unlink ''/usr/local/bin/ctforge-agent'', System ''rm -rf /etc/ctforge'']"

lemma install_is_not_download: "install_cmd tmp stage \<noteq> download_cmd url out"
  by (simp add: install_cmd_def download_cmd_def snprintf_s_def)


definition sample_upgrade :: upgrade_env where
  "sample_upgrade = \<lparr>ue_tmp = Some ''/tmp/x'', ue_system = (\<lambda>_. 0), ue_popen = (\<lambda>_. Some (replicate 64 CHR ''a'' @ [NL])),
     ue_open = Some (elf_magic @ [CHR 0x02]), ue_pid = 7, ue_child = True\<rparr>"


text \<open>The address of the download is put between quotes unchecked: a quote in it ends them.\<close>

lemma url_runs_command:
  "\<exists>ts us. sh_tokens (download_cmd (''x'' @ SQ # '';reboot;'' @ SQ # ''y'') ''/t'') = Toks (ts @ [Oper '';'', bare ''reboot'', Oper '';''] @ us)"
proof -
  have "sh_tokens (download_cmd (''x'' @ SQ # '';reboot;'' @ SQ # ''y'') ''/t'')
    = Toks ([bare ''curl'', bare ''-fsSL'', bare ''--connect-timeout'', bare ''20'', bare ''--max-time'', bare ''300'', bare ''-o'',
        quoted_word ''/t'', quoted_word ''x''] @ [Oper '';'', bare ''reboot'', Oper '';''] @ 
       [quoted_word ''y'', IoNum [Bare CHR ''2''], Oper ''>'', bare ''/dev/null'', Oper ''||'', bare ''wget'', bare ''-q'', bare ''-T'',
        bare ''300'', bare ''-O'', quoted_word ''/t'', quoted_word ''x'', Oper '';'', bare ''reboot'', Oper '';'', quoted_word ''y'',
        IoNum [Bare CHR ''2''], Oper ''>'', bare ''/dev/null''])"
    by code_simp
  then show ?thesis by blast
qed

end
