(* ===== verification/Bridge.thy ===== *)
theory Bridge
  imports Frames TextLines
begin

section \<open>Bridge to the daemon (clients/src/ctforge.c)\<close>

text \<open>
  The agent forwards \<open>ctf_*\<close> commands to the daemon on the same host: it reads the listen address
  from the configuration file of the daemon, connects, sends one JSON-RPC line and cuts the member
  \<open>resmsg\<close> out of the answer.  The environment has the file, the answers of the sockets, the
  return values of \<open>write\<close>, the pieces \<open>read\<close> delivers (an empty one for the end or an error), the
  clock and the memory.
\<close>

definition CTFORGE_RESP_MAX :: nat where "CTFORGE_RESP_MAX = 256 * 1024"

record sock_try =
  st_fd :: int
  st_timeout :: bool
  st_connect :: bool

record bridge_env =
  be_cfg :: "byte list option"
  be_unix :: "string \<Rightarrow> sock_try"
  be_tcp :: "string \<Rightarrow> string \<Rightarrow> sock_try list option"
  be_write :: "nat \<Rightarrow> int"
  be_read :: "byte list list"
  be_now :: int
  be_alloc :: "nat \<Rightarrow> bool"

subsection \<open>Connecting\<close>

text \<open>The address in a line of the configuration file.\<close>

definition listen_line :: "nat \<Rightarrow> string \<Rightarrow> string option" where
  "listen_line buflen line =
     (case strstr (cstr line) (DQ # ''listen'' @ [DQ]) of
        None \<Rightarrow> None
      | Some p \<Rightarrow>
          (case strchr p CHR '':'' of
             None \<Rightarrow> None
           | Some colon \<Rightarrow>
               (case strchr colon DQ of
                  None \<Rightarrow> None
                | Some q1 \<Rightarrow>
                    (case strchr (drop 1 q1) DQ of
                       None \<Rightarrow> None
                     | Some q2 \<Rightarrow> Some (take (buflen - 1) (take (length (drop 1 q1) - length q2) (drop 1 q1)))))))"

fun first_listen :: "nat \<Rightarrow> string list \<Rightarrow> string option" where
  "first_listen n [] = None"
| "first_listen n (l # ls) = (case listen_line n l of None \<Rightarrow> first_listen n ls | Some a \<Rightarrow> Some a)"

definition ctforge_read_listen :: "bridge_env \<Rightarrow> nat \<Rightarrow> string option" where
  "ctforge_read_listen e buflen =
     (case be_cfg e of None \<Rightarrow> None | Some bytes \<Rightarrow> first_listen buflen (fgets_lines 512 bytes))"

text \<open>\<open>sun_path\<close> has 108 bytes.\<close>

definition ctforge_connect_unix :: "bridge_env \<Rightarrow> string \<Rightarrow> int" where
  "ctforge_connect_unix e path =
     (if length path \<ge> 108 then -1
      else
        let t = be_unix e path in
        if st_fd t < 0 \<or> \<not> st_timeout t \<or> \<not> st_connect t then -1 else st_fd t)"

fun tcp_tries :: "sock_try list \<Rightarrow> int" where
  "tcp_tries [] = -1"
| "tcp_tries (t # ts) =
     (if st_fd t < 0 then (if ts = [] then st_fd t else tcp_tries ts)
      else if st_timeout t \<and> st_connect t then st_fd t
      else tcp_tries ts)"

definition ctforge_connect_tcp :: "bridge_env \<Rightarrow> string \<Rightarrow> int \<Rightarrow> int" where
  "ctforge_connect_tcp e host port =
     (case be_tcp e host (snprintf_s 16 (show_int port)) of None \<Rightarrow> -1 | Some ts \<Rightarrow> tcp_tries ts)"

definition ctforge_connect :: "bridge_env \<Rightarrow> int" where
  "ctforge_connect e =
     (case ctforge_read_listen e 256 of
        None \<Rightarrow> -1
      | Some addr \<Rightarrow>
          if is_prefix ''unix://'' addr then ctforge_connect_unix e (drop 7 addr)
          else
            (case strrchr addr CHR '':'' of
               None \<Rightarrow> -1
             | Some colon \<Rightarrow>
                 let host = take (length addr - length colon) addr; port = atoi (drop 1 colon) in
                 if length host \<ge> 200 then -1
                 else if port \<le> 0 then -1
                 else ctforge_connect_tcp e host port))"

subsection \<open>Request and response\<close>

definition bridge_esc_char :: "char \<Rightarrow> string" where
  "bridge_esc_char c = (if c = DQ then [BSL, DQ] else if c = BSL then [BSL, BSL] else [c])"

definition ctforge_json_escape :: "(nat \<Rightarrow> bool) \<Rightarrow> string \<Rightarrow> string option" where
  "ctforge_json_escape alloc src =
     (if length src > 1024 * 1024 then None
      else if \<not> alloc (2 * length src + 1) then None
      else Some (concat (map bridge_esc_char src)))"

definition rpc_request :: "int \<Rightarrow> string \<Rightarrow> string \<Rightarrow> string" where
  "rpc_request now method params_escaped =
     jobj [json_str_field ''jsonrpc'' ''6.0'', json_raw_field ''type'' ''0'', json_raw_field ''taskid'' (show_int now),
           json_str_field ''method'' method, json_raw_field ''reqmsg'' (jobj [json_str_field ''params'' params_escaped])] @ [NL]"

text \<open>The loop that writes the request: all of it, or \<open>False\<close>.  The argument counts the calls.\<close>

function write_request :: "(nat \<Rightarrow> int) \<Rightarrow> nat \<Rightarrow> string \<Rightarrow> bool" where
  "write_request wr k req =
     (if req = [] then True
      else if wr k \<le> 0 then False
      else write_request wr (k + 1) (drop (nat (wr k)) req))"
  by pat_completeness auto

termination
  by (relation "measure (\<lambda>(wr, k, req). length req)") auto

declare write_request.simps [simp del]

text \<open>The loop that reads the response until a line break, the end or a full buffer.\<close>

fun read_response :: "byte list list \<Rightarrow> byte list \<Rightarrow> byte list" where
  "read_response [] got = got"
| "read_response (c # cs) got =
     (let d = take (CTFORGE_RESP_MAX - 1 - length got) c in
      if d = [] then got
      else if NL \<in> set (got @ d) then got @ d
      else read_response cs (got @ d))"

definition ctforge_rpc :: "bridge_env \<Rightarrow> string \<Rightarrow> string \<Rightarrow> string option" where
  "ctforge_rpc e method params =
     (if ctforge_connect e < 0 then None
      else
        (case ctforge_json_escape (be_alloc e) params of
           None \<Rightarrow> None
         | Some pe \<Rightarrow>
             let req = rpc_request (be_now e) method pe in
             if \<not> be_alloc e (length req + 1) then None
             else if \<not> write_request (be_write e) 0 req then None
             else if \<not> be_alloc e CTFORGE_RESP_MAX then None
             else
               let resp = read_response (be_read e) [] in
               if resp = [] then None else Some (takeWhile (\<lambda>c. c \<noteq> NL) (cstr resp))))"

subsection \<open>Cutting out the result\<close>

text \<open>The text up to the bracket that closes the first one; only brackets of its kind count.\<close>

fun close_scan :: "char \<Rightarrow> char \<Rightarrow> int \<Rightarrow> bool \<Rightarrow> bool \<Rightarrow> string \<Rightarrow> string" where
  "close_scan op cl depth in_str esc [] = []"
| "close_scan op cl depth in_str esc (c # cs) =
     (if esc then c # close_scan op cl depth in_str False cs
      else if c = BSL \<and> in_str then c # close_scan op cl depth in_str True cs
      else if c = DQ then c # close_scan op cl depth (\<not> in_str) esc cs
      else if in_str then c # close_scan op cl depth in_str esc cs
      else if c = op then c # close_scan op cl (depth + 1) in_str esc cs
      else if c = cl then (if depth - 1 = 0 then [c] else c # close_scan op cl (depth - 1) in_str esc cs)
      else c # close_scan op cl depth in_str esc cs)"

fun string_scan :: "bool \<Rightarrow> string \<Rightarrow> string" where
  "string_scan esc [] = []"
| "string_scan esc (c # cs) =
     (if esc then c # string_scan False cs
      else if c = BSL then c # string_scan True cs
      else if c = DQ then [c]
      else c # string_scan False cs)"

definition resmsg_value :: "string \<Rightarrow> string" where
  "resmsg_value p =
     (case p of
        [] \<Rightarrow> []
      | c # cs \<Rightarrow>
          if c = CHR ''{'' then close_scan c (CHR ''}'') 0 False False p
          else if c = CHR ''['' then close_scan c (CHR '']'') 0 False False p
          else if c = DQ then c # string_scan False cs
          else takeWhile (\<lambda>c. c \<notin> set [CHR '','', CHR ''}'', CHR '' '', CHR 0x09, NL]) p)"

definition resmsg_key :: string where
  "resmsg_key = DQ # ''resmsg'' @ DQ # '':''"

definition ctforge_extract_resmsg :: "(nat \<Rightarrow> bool) \<Rightarrow> string \<Rightarrow> string option" where
  "ctforge_extract_resmsg alloc resp =
     (case strstr resp resmsg_key of
        None \<Rightarrow> Some resp
      | Some p \<Rightarrow>
          let v = resmsg_value (dropWhile (\<lambda>c. c = CHR '' '' \<or> c = CHR 0x09) (drop (length resmsg_key) p)) in
          if v = [] then Some resp
          else if \<not> alloc (length v + 1) then None
          else Some v)"

definition ctc_ctforge_exec :: "bridge_env \<Rightarrow> string \<Rightarrow> string \<Rightarrow> string" where
  "ctc_ctforge_exec e method params =
     (if method = [] then json_error ''empty method''
      else if method \<notin> set [''lsmod'', ''insmod'', ''rmmod'', ''mod'', ''status''] then json_error ''method not allowed''
      else
        (case ctforge_rpc e method params of
           None \<Rightarrow> json_error ''cannot connect to ctforged, please check ctforged service''
         | Some resp \<Rightarrow>
             (case ctforge_extract_resmsg (be_alloc e) resp of
                None \<Rightarrow> json_error ''out of memory''
              | Some resmsg \<Rightarrow> resmsg)))"

subsection \<open>The scan for the closing bracket\<close>

definition bridged :: "char \<Rightarrow> char \<Rightarrow> string \<Rightarrow> bool" where
  "bridged op cl t \<longleftrightarrow> (\<forall>d r. 1 \<le> d \<longrightarrow> close_scan op cl d False False (t @ r) = t @ close_scan op cl d False False r)"

definition bracket_pair :: "char \<Rightarrow> char \<Rightarrow> bool" where
  "bracket_pair op cl \<longleftrightarrow> op = CHR ''{'' \<and> cl = CHR ''}'' \<or> op = CHR ''['' \<and> cl = CHR '']''"

lemma close_scan_in_string_char:
  "close_scan op cl d True False (esc_char c @ t) = esc_char c @ close_scan op cl d True False t"
proof (cases "esc_rep c")
  case None
  then have "c \<noteq> BSL" "c \<noteq> DQ" "esc_char c = [c]" by (auto simp: esc_rep_def esc_char_def)
  then show ?thesis by simp
next
  case (Some e)
  show ?thesis
  proof (cases "is_ctl c")
    case True
    then have "(of_char c :: nat) div 16 < 16" and e: "esc_char c = [BSL, CHR ''u'', CHR ''0'', CHR ''0'',
        hexdigit (of_char c div 16), hexdigit (of_char c mod 16)]"
      by (auto simp: is_ctl_def esc_char_def esc_rep_def)
    then show ?thesis
      using hexdigit_plain [of "of_char c div 16"] hexdigit_plain [of "of_char c mod 16"] unfolding e by simp
  next
    case False
    with Some have "\<exists>x. esc_char c = [BSL, x]"
      by (auto simp: esc_char_def esc_rep_def is_ctl_def split: if_splits)
    then show ?thesis by auto
  qed
qed

lemma close_scan_in_string:
  "close_scan op cl d True False (esc_string s @ r) = esc_string s @ close_scan op cl d True False r"
  by (induction s) (simp_all add: esc_string_def close_scan_in_string_char)

lemma bridged_other:
  assumes "bridged op cl t" "bracket_pair op cl" "o2 \<noteq> op" "o2 \<noteq> cl" "c2 \<noteq> op" "c2 \<noteq> cl" "{o2, c2} \<inter> {DQ, BSL} = {}"
  shows "bridged op cl (o2 # t @ [c2])"
  using assms by (auto simp: bridged_def)

lemma bridged_same:
  assumes "bridged op cl t" "bracket_pair op cl"
  shows "bridged op cl (op # t @ [cl])"
  using assms by (auto simp: bridged_def bracket_pair_def)

lemma bridged_passes:
  assumes "bracket_pair op cl"
  shows "json_passes (bridged op cl)"
proof
  show "bridged op cl []" by (simp add: bridged_def)
  show "bridged op cl s \<Longrightarrow> bridged op cl t \<Longrightarrow> bridged op cl (s @ t)" for s t by (simp add: bridged_def)
  show "bridged op cl [c]" if "atom_char c \<or> c = CHR '','' \<or> c = CHR '':''" for c
    using atom_char_facts [OF that] assms by (auto simp: bridged_def bracket_pair_def)
  show "bridged op cl (quoted s)" for s
    by (simp add: bridged_def quoted_def close_scan_in_string)
  fix t assume t: "bridged op cl t"
  consider "op = CHR ''{''" "cl = CHR ''}''" | "op = CHR ''[''" "cl = CHR '']''" using assms by (auto simp: bracket_pair_def)
  then have "bridged op cl (CHR ''{'' # t @ [CHR ''}''])" "bridged op cl (CHR ''['' # t @ [CHR '']''])"
    using bridged_same [OF t assms] bridged_other [OF t assms, of "CHR ''[''" "CHR '']''"]
      bridged_other [OF t assms, of "CHR ''{''" "CHR ''}''"] by (cases; simp)+
  then show "bridged op cl (CHR ''{'' # t @ ''}'')" "bridged op cl (CHR ''['' # t @ '']'')" by simp_all
qed

interpretation bscan: json_passes "bridged CHR ''{'' CHR ''}''"
  by (rule bridged_passes) (simp add: bracket_pair_def)

interpretation ascan: json_passes "bridged CHR ''['' CHR '']''"
  by (rule bridged_passes) (simp add: bracket_pair_def)

lemma close_scan_closes:
  assumes "bridged op cl t" "bracket_pair op cl"
  shows "close_scan op cl 0 False False (op # t @ cl # r) = op # t @ [cl]"
  using assms by (auto simp: bridged_def bracket_pair_def)

lemma resmsg_value_container:
  assumes "jwf v" "is_container v"
  shows "resmsg_value (jrender v @ r) = jrender v"
proof (cases v)
  case (JArr vs)
  with ascan.contents [OF assms(1)] show ?thesis
    using close_scan_closes [of "CHR ''[''" "CHR '']''" "jcontents v" r] by (simp add: resmsg_value_def bracket_pair_def)
next
  case (JObj kvs)
  with bscan.contents [OF assms(1)] show ?thesis
    using close_scan_closes [of "CHR ''{''" "CHR ''}''" "jcontents v" r] by (simp add: resmsg_value_def bracket_pair_def)
qed (use assms(2) in \<open>simp_all add: is_container_def\<close>)

subsection \<open>The answer\<close>

text \<open>The line the daemon answers with, in the order it adds the members.\<close>

definition daemon_line :: "int \<Rightarrow> string \<Rightarrow> jtree \<Rightarrow> string" where
  "daemon_line now method v =
     jobj [json_str_field ''jsonrpc'' ''2.0'', json_raw_field ''type'' ''0'', json_raw_field ''taskid'' (show_int now),
           json_str_field ''method'' method, json_raw_field ''resmsg'' (jrender v)]"

definition bridge_methods :: "string list" where
  "bridge_methods = [''lsmod'', ''insmod'', ''rmmod'', ''mod'', ''status'']"

lemma strstr_resmsg:
  assumes "m \<in> set bridge_methods"
  shows "strstr (daemon_line now m v) resmsg_key = Some (resmsg_key @ jrender v @ ''}'')"
proof -
  have s: "strstr (show_int now @ r) (DQ # p) = strstr r (DQ # p)" for r p
    using show_int_chars [of DQ now] by (intro strstr_first_char) (auto simp: isdigit_def)
  have "strstr (DQ # m @ DQ # r) (DQ # ''resmsg'' @ DQ # '':'') = strstr (DQ # r) (DQ # ''resmsg'' @ DQ # '':'')" for r
    using assms by (auto simp: bridge_methods_def)
  then show ?thesis
    by (simp add: daemon_line_def resmsg_key_def jobj_def json_str_field_def json_raw_field_def s)
qed

lemma extract_daemon_line:
  assumes "m \<in> set bridge_methods" "jwf v" "is_container v" "\<And>n. alloc n"
  shows "ctforge_extract_resmsg alloc (daemon_line now m v) = Some (jrender v)"
proof -
  obtain c x where c: "jrender v = c # x" "c = CHR ''{'' \<or> c = CHR ''[''"
    using assms(3) by (cases v) (auto simp: is_container_def)
  then have "dropWhile (\<lambda>c. c = CHR '' '' \<or> c = CHR 0x09) (jrender v @ ''}'') = jrender v @ ''}''" by auto
  then show ?thesis using resmsg_value_container [OF assms(2,3), of "''}''"] assms(4) c(1)
    by (simp add: ctforge_extract_resmsg_def strstr_resmsg [OF assms(1)] Let_def)
qed

lemma read_response_line:
  "length got + length (concat cs) < CTFORGE_RESP_MAX \<Longrightarrow> NL \<notin> set got \<Longrightarrow> NL \<in> set (concat cs) \<Longrightarrow> [] \<notin> set cs
   \<Longrightarrow> \<exists>r. read_response cs got @ r = got @ concat cs \<and> NL \<in> set (read_response cs got)"
proof (induction cs arbitrary: got)
  case (Cons c cs)
  then have t: "take (CTFORGE_RESP_MAX - 1 - length got) c = c" "c \<noteq> []" by auto
  show ?case
  proof (cases "NL \<in> set c")
    case True
    then show ?thesis using t by auto
  next
    case False
    then show ?thesis using Cons.IH [of "got @ c"] Cons.prems t by auto
  qed
qed simp

lemma first_line:
  assumes "r @ x = l @ NL # y" "NL \<in> set r" "NL \<notin> set l"
  shows "\<exists>s. r = l @ NL # s"
  using assms by (auto simp: append_eq_append_conv2 append_eq_Cons_conv)

lemma write_request_all:
  assumes "\<And>k. wr k > 0"
  shows "write_request wr k req"
proof (induction "length req" arbitrary: k req rule: less_induct)
  case less
  show ?case
  proof (cases "req = []")
    case False
    have "0 < nat (wr k)" "\<not> wr k \<le> 0" using assms [of k] by simp_all
    then show ?thesis using False less [of "drop (nat (wr k)) req"] by (subst write_request.simps) simp
  qed (simp add: write_request.simps)
qed

lemma daemon_line_text:
  assumes "m \<in> set bridge_methods" "jwf v"
  shows "is_cstr (daemon_line now m v)" "NL \<notin> set (daemon_line now m v)"
proof -
  have n: "NUL \<notin> set (show_int now)" "NL \<notin> set (show_int now)" using show_int_chars [of _ now] by (auto simp: isdigit_def)
  have m: "NUL \<notin> set m" "NL \<notin> set m" using assms(1) by (auto simp: bridge_methods_def)
  show "is_cstr (daemon_line now m v)" "NL \<notin> set (daemon_line now m v)"
    using n m jline.rendered [OF assms(2)]
    by (auto simp: daemon_line_def jobj_def json_str_field_def json_raw_field_def is_cstr_def)
qed


definition sample_bridge :: bridge_env where
  "sample_bridge =
     \<lparr>be_cfg = Some (DQ # ''listen'' @ DQ # '':'' @ DQ # ''unix:///s'' @ [DQ]),
      be_unix = (\<lambda>p. \<lparr>st_fd = 5, st_timeout = True, st_connect = True\<rparr>), be_tcp = (\<lambda>_ _. None),
      be_write = (\<lambda>_. 3), be_read = [daemon_line 9 ''lsmod'' (JArr [JStr ''a}'']), [NL]],
      be_now = 9, be_alloc = (\<lambda>_. True)\<rparr>"


end
