(* ===== verification/Base64.thy ===== *)
theory Base64
  imports CPrelude
begin

section \<open>Base64 (clients/src/util.c)\<close>

text \<open>
  \<open>ctc_base64_encode\<close> and \<open>ctc_base64_decode\<close>, with the index arithmetic and the \<open>uint32_t\<close>
  accumulator of the source.  \<open>b64_spec\<close> is the encoding by groups of three bytes; the encoder
  computes it, and the decoder inverts it.  The first parameter of both functions says whether
  \<open>malloc\<close> succeeds.
\<close>

unbundle bit_operations_syntax

definition b64tab :: string where
  "b64tab = ''ABCDEFGHIJKLMNOPQRSTUVWXYZabcdefghijklmnopqrstuvwxyz0123456789+/''"

definition b64_digit :: "32 word \<Rightarrow> nat \<Rightarrow> char" where
  "b64_digit v k = b64tab ! unat (drop_bit k v AND 0x3F)"

function encode_from :: "byte list \<Rightarrow> nat \<Rightarrow> string" where
  "encode_from data i =
     (if i < length data then
        let a = of_char (data ! i) :: 32 word;
            i = i + 1;
            (b, i) = (if i < length data then (of_char (data ! i), i + 1) else (0, i));
            (c, i) = (if i < length data then (of_char (data ! i), i + 1) else (0, i));
            v = push_bit 16 a OR push_bit 8 b OR c
        in
          [b64_digit v 18,
           b64_digit v 12,
           if i - 1 > length data then CHR ''='' else b64_digit v 6,
           if i > length data + 1 then CHR ''='' else b64_digit v 0] @ encode_from data i
      else [])"
  by pat_completeness auto

termination
  by (relation "measure (\<lambda>(data, i). length data - i)") (auto split: if_splits)

declare encode_from.simps [simp del]

definition ctc_base64_encode :: "bool \<Rightarrow> byte list \<Rightarrow> string option" where
  "ctc_base64_encode mem_ok data =
     (let len = length data; olen = 4 * ((len + 2) div 3) in
      if \<not> mem_ok then None
      else
        let out = encode_from data 0; r = len mod 3 in
        Some (if r = 1 then (out[olen - 1 := CHR ''=''])[olen - 2 := CHR ''='']
              else if r = 2 then out[olen - 1 := CHR ''='']
              else out))"

definition b64val :: "char \<Rightarrow> int" where
  "b64val c =
     (let n = of_char c :: int in
      if isupper c then n - 65
      else if islower c then n - 97 + 26
      else if isdigit c then n - 48 + 52
      else if c = CHR ''+'' then 62
      else if c = CHR ''/'' then 63
      else -1)"

definition put_byte :: "nat \<Rightarrow> 32 word \<Rightarrow> byte list \<Rightarrow> byte list" where
  "put_byte olen w out = (if length out < olen then out @ [char_of (unat (w AND 0xFF))] else out)"

fun decode_from :: "nat \<Rightarrow> string \<Rightarrow> byte list \<Rightarrow> byte list option" where
  "decode_from olen (w # x # y # z # rest) out =
     (let a = b64val w;
          b = b64val x;
          c = (if y = CHR ''='' then 0 else b64val y);
          d = (if z = CHR ''='' then 0 else b64val z)
      in
        if a < 0 \<or> b < 0 \<or> c < 0 \<or> d < 0 then None
        else
          let v = push_bit 18 (word_of_int a) OR push_bit 12 (word_of_int b)
                  OR push_bit 6 (word_of_int c) OR word_of_int d;
              out = put_byte olen (drop_bit 16 v) out;
              out = put_byte olen (drop_bit 8 v) out;
              out = put_byte olen v out
          in decode_from olen rest out)"
| "decode_from olen _ out = Some out"

definition ctc_base64_decode :: "bool \<Rightarrow> string \<Rightarrow> byte list option" where
  "ctc_base64_decode mem_ok b64 =
     (let len = length b64 in
      if len mod 4 \<noteq> 0 then None
      else
        let olen = len div 4 * 3;
            olen = (if len > 0 \<and> b64 ! (len - 1) = CHR ''='' then olen - 1 else olen);
            olen = (if len > 1 \<and> b64 ! (len - 2) = CHR ''='' then olen - 1 else olen)
        in
          if \<not> mem_ok then None else decode_from olen b64 [])"

subsection \<open>The encoding by groups\<close>

definition group_val :: "byte \<Rightarrow> byte \<Rightarrow> byte \<Rightarrow> 32 word" where
  "group_val a b c = push_bit 16 (of_char a) OR push_bit 8 (of_char b) OR of_char c"

fun b64_spec :: "byte list \<Rightarrow> string" where
  "b64_spec [] = []"
| "b64_spec [a] =
     [b64_digit (group_val a NUL NUL) 18, b64_digit (group_val a NUL NUL) 12, CHR ''='', CHR ''='']"
| "b64_spec [a, b] =
     [b64_digit (group_val a b NUL) 18, b64_digit (group_val a b NUL) 12,
      b64_digit (group_val a b NUL) 6, CHR ''='']"
| "b64_spec (a # b # c # rest) =
     [b64_digit (group_val a b c) 18, b64_digit (group_val a b c) 12,
      b64_digit (group_val a b c) 6, b64_digit (group_val a b c) 0] @ b64_spec rest"

fun b64_raw :: "byte list \<Rightarrow> string" where
  "b64_raw [] = []"
| "b64_raw [a] = map (b64_digit (group_val a NUL NUL)) [18, 12, 6, 0]"
| "b64_raw [a, b] = map (b64_digit (group_val a b NUL)) [18, 12, 6, 0]"
| "b64_raw (a # b # c # rest) = map (b64_digit (group_val a b c)) [18, 12, 6, 0] @ b64_raw rest"

lemma encode_from_end: "length data \<le> i \<Longrightarrow> encode_from data i = []"
  by (simp add: encode_from.simps)

lemma encode_from_raw: "encode_from (pre @ data) (length pre) = b64_raw data"
proof (induction data arbitrary: pre rule: b64_raw.induct)
  case (4 a b c rest)
  have "encode_from (pre @ a # b # c # rest) (Suc (Suc (Suc (length pre)))) = b64_raw rest"
    using 4 [of "pre @ [a, b, c]"] by simp
  then show ?case
    by (subst encode_from.simps) (simp add: group_val_def nth_append Let_def)
qed (subst encode_from.simps, simp add: group_val_def nth_append Let_def encode_from_end)+

lemma length_b64_raw [simp]: "length (b64_raw data) = 4 * ((length data + 2) div 3)"
  by (induction data rule: b64_raw.induct) (simp_all, presburger)

lemma ctc_base64_encode_spec: "ctc_base64_encode True data = Some (b64_spec data)"
proof (induction data rule: b64_spec.induct)
  case (4 a b c rest)
  have r: "encode_from rest 0 = b64_raw rest" 
    "encode_from (a # b # c # rest) 0 = b64_raw (a # b # c # rest)"
    using encode_from_raw [of "[]"] by simp_all
  have m: "length (a # b # c # rest) mod 3 = length rest mod 3" by simp
  define o' where "o' = 4 * ((length rest + 2) div 3)"
  have o: "4 * ((length (a # b # c # rest) + 2) div 3) = o' + 4"
    by (simp add: o'_def) presburger
  have "1 < o'" if "length rest mod 3 \<noteq> 0"
    using that unfolding o'_def by (cases rest) auto
  then have "length rest mod 3 \<noteq> 0 \<Longrightarrow> \<exists>k. o' = Suc (Suc k)" by (metis less_imp_Suc_add One_nat_def plus_1_eq_Suc)
  moreover have "4 * (Suc (Suc (length rest)) div 3) = o'" by (simp add: o'_def)
  ultimately show ?case using 4 r o
    by (auto simp: ctc_base64_encode_def Let_def m)
qed (use encode_from_raw [of "[]"] in \<open>simp_all add: ctc_base64_encode_def\<close>)

subsection \<open>Decoding inverts it\<close>

lemma ctc_base64_encode_text: "ctc_base64_encode m data = (if m then Some (b64_spec data) else None)"
  using ctc_base64_encode_spec [of data] by (cases m) (simp_all add: ctc_base64_encode_def)

lemma b64tab_facts: "length b64tab = 64" "NUL \<notin> set b64tab" "CHR ''='' \<notin> set b64tab"
  "map b64val b64tab = map int [0..<64]"
  by code_simp+

lemma b64tab_val:
  assumes "k < 64" shows "b64val (b64tab ! k) = int k" and "b64tab ! k \<noteq> CHR ''=''"
proof -
  from assms have "map b64val b64tab ! k = map int [0..<64] ! k" using b64tab_facts(4) by simp
  with assms show "b64val (b64tab ! k) = int k" by (simp add: b64tab_facts(1))
  from assms have "b64tab ! k \<in> set b64tab" by (simp add: b64tab_facts(1))
  then show "b64tab ! k \<noteq> CHR ''=''" using b64tab_facts(3) by metis
qed

lemma masks: "(0x3F :: 32 word) = mask 6" "(0xFF :: 32 word) = mask 8"
  by (simp_all add: mask_eq_exp_minus_1)

lemma unat_and_63: "unat (w AND 0x3F :: 32 word) < 64"
proof -
  have "unat (w AND 0x3F) = take_bit 6 (unat w)"
    by (simp only: masks take_bit_eq_mask [symmetric] unsigned_take_bit_eq)
  then show ?thesis using take_bit_nat_less_exp [of 6 "unat w"] by simp
qed

lemma b64val_digit [simp]: "b64val (b64_digit v k) = uint (drop_bit k v AND 0x3F)"
  using b64tab_val [OF unat_and_63, of "drop_bit k v"] by (simp add: b64_digit_def)

lemma b64_digit_not_pad [simp]: "b64_digit v k \<noteq> CHR ''=''"
  using b64tab_val [OF unat_and_63, of "drop_bit k v"] by (simp add: b64_digit_def)

lemma bit_of_char: "bit (of_char c :: 32 word) n \<Longrightarrow> n < 8"
  by (cases c) (auto simp: bit_horner_sum_bit_iff simp del: horner_sum_simps)

lemma group_val_small: "bit (group_val a b c) n \<Longrightarrow> n < 24"
  by (auto simp: group_val_def bit_simps dest!: bit_of_char)

lemma regroup:
  "push_bit 18 (drop_bit 18 v AND 0x3F) OR push_bit 12 (drop_bit 12 v AND 0x3F)
     OR push_bit 6 (drop_bit 6 v AND 0x3F) OR (v AND 0x3F) = v"
  if "\<And>n. bit v n \<Longrightarrow> n < 24" for v :: "32 word"
proof (rule bit_eqI)
  fix n :: nat
  consider "n < 6" | "6 \<le> n" "n < 12" | "12 \<le> n" "n < 18" | "18 \<le> n" "n < 24" | "24 \<le> n" by linarith
  then show "bit (push_bit 18 (drop_bit 18 v AND 0x3F) OR push_bit 12 (drop_bit 12 v AND 0x3F)
      OR push_bit 6 (drop_bit 6 v AND 0x3F) OR (v AND 0x3F)) n = bit v n"
    using that by cases (auto simp: masks bit_simps dest: that)
qed

lemma group_words:
  "drop_bit 16 (group_val a b c) AND 0xFF = of_char a"
  "drop_bit 8 (group_val a b c) AND 0xFF = of_char b"
  "group_val a b c AND 0xFF = of_char c"
  by (rule bit_eqI, auto simp: group_val_def masks bit_simps dest: bit_of_char)+

lemma of_char_word: "(of_char c :: 32 word) = of_nat (of_char c)"
  by (cases c) simp

lemma char_of_unat [simp]: "char_of (unat (of_char c :: 32 word)) = c"
proof -
  have "of_char c < (256 :: nat)"
    using of_char_mod_256 [of c, where 'a = nat] by (metis mod_less_divisor zero_less_numeral)
  then have "unat (of_nat (of_char c) :: 32 word) = of_char c"
    by (simp add: unat_of_nat mod_less less_trans [of _ 256])
  then show ?thesis by (simp add: of_char_word)
qed

lemma of_char_NUL [simp]: "of_char NUL = (0 :: 32 word)"
  by (simp add: of_char_def)

lemma low_bits_zero:
  "group_val a b NUL AND 0x3F = 0" "drop_bit 6 (group_val a NUL NUL) AND 0x3F = 0"
  by (rule bit_eqI, auto simp: group_val_def masks bit_simps)+

lemma regroup_val:
  "push_bit 18 (drop_bit 18 (group_val a b c) AND 0x3F) OR push_bit 12 (drop_bit 12 (group_val a b c) AND 0x3F)
     OR push_bit 6 (drop_bit 6 (group_val a b c) AND 0x3F) OR (group_val a b c AND 0x3F) = group_val a b c"
  by (rule regroup) (rule group_val_small)

lemma b64_spec_length: "length (b64_spec data) = 4 * ((length data + 2) div 3)"
  by (induction data rule: b64_spec.induct) (simp_all, presburger)

lemma decode_from_spec:
  "length out + length data = olen \<Longrightarrow> decode_from olen (b64_spec data) out = Some (out @ data)"
proof (induction data arbitrary: out rule: b64_spec.induct)
  case (2 a)
  then show ?case using regroup_val [of a NUL NUL] group_words [of a NUL NUL] low_bits_zero [of a]
    by (simp add: Let_def put_byte_def)
next
  case (3 a b)
  then show ?case using regroup_val [of a b NUL] group_words [of a b NUL] low_bits_zero [of a]
    by (simp add: Let_def put_byte_def)
next
  case (4 a b c rest)
  then show ?case using regroup_val [of a b c] group_words [of a b c]
    by (simp add: Let_def put_byte_def)
qed simp

lemma b64_spec_pads:
  assumes "data \<noteq> []"
  shows "b64_spec data ! (length (b64_spec data) - 1) = CHR ''='' \<longleftrightarrow> length data mod 3 \<noteq> 0"
    and "b64_spec data ! (length (b64_spec data) - 2) = CHR ''='' \<longleftrightarrow> length data mod 3 = 1"
  using assms
proof (induction data rule: b64_spec.induct)
  case (4 a b c rest)
  have l: "rest \<noteq> [] \<Longrightarrow> \<exists>k. length (b64_spec rest) = Suc (Suc k)"
    by (cases rest rule: b64_spec.cases) auto
  { case 1 with 4 l show ?case by (cases "rest = []") (auto simp: numeral_2_eq_2) }
  { case 2 with 4 l show ?case by (cases "rest = []") (auto simp: numeral_2_eq_2) }
qed auto

lemma b64_digit_in: "b64_digit v k \<in> set b64tab"
  using unat_and_63 [of "drop_bit k v"] nth_mem [of "unat (drop_bit k v AND 0x3F)" b64tab]
  by (simp add: b64_digit_def b64tab_facts)

lemma b64_spec_chars: "set (b64_spec data) \<subseteq> set (CHR ''='' # b64tab)"
  by (induction data rule: b64_spec.induct) (auto simp: b64_digit_in)

lemma b64_spec_plain [simp]: "plain (b64_spec data)"
proof -
  have "DQ \<notin> set (CHR ''='' # b64tab)" "BSL \<notin> set (CHR ''='' # b64tab)" by code_simp+
  then show ?thesis using b64_spec_chars [of data] unfolding plain_def by blast
qed

lemma decoded_length:
  "(n + 2) div 3 * 3 - (if n mod 3 \<noteq> 0 then 1 else 0) - (if n mod 3 = 1 then 1 else 0) = (n :: nat)"
proof -
  obtain q r where n: "n = 3 * q + r" "r < 3" by (metis mult.commute div_mult_mod_eq mod_less_divisor zero_less_numeral)
  then have m: "n mod 3 = r" by simp
  from n consider "r = 0" | "r = 1" | "r = 2" by linarith
  then show ?thesis unfolding m using n by cases auto
qed

lemma ctc_base64_decode_spec: "ctc_base64_decode True (b64_spec data) = Some data"
proof (cases "data = []")
  case False
  define len where "len = length (b64_spec data)"
  have len: "len > 1" "len mod 4 = 0" "len div 4 = (length data + 2) div 3"
    using False unfolding len_def b64_spec_length by (cases data; simp)+
  show ?thesis
    using b64_spec_pads [OF False, folded len_def] decode_from_spec [of "[]" data "length data"]
      decoded_length [of "length data"] len
    unfolding ctc_base64_decode_def len_def [symmetric] Let_def by (simp split: if_splits)
qed (simp add: ctc_base64_decode_def)

lemma base64_cstr [simp]: "is_cstr (b64_spec data)"
proof -
  have "NUL \<notin> set (CHR ''='' # b64tab)" using b64tab_facts by simp
  then show ?thesis using b64_spec_chars [of data] by (auto simp: is_cstr_def)
qed

text \<open>
  C31.  Base64 round trip: for every byte string, with memory available, the encoder yields a
  text of exactly \<open>4 * ceil(len / 3)\<close> characters of the Base64 alphabet (so the \<open>strlen\<close> of
  the decoder sees all of it), and the decoder gives the bytes back, zero bytes and the two
  padded lengths included.
\<close>

theorem base64_roundtrip:
  "\<exists>s. ctc_base64_encode True data = Some s \<and> length s = 4 * ((length data + 2) div 3) \<and>
       set s \<subseteq> set (CHR ''='' # b64tab) \<and> is_cstr s \<and> ctc_base64_decode True s = Some data"
  using ctc_base64_encode_spec b64_spec_length b64_spec_chars ctc_base64_decode_spec base64_cstr by blast

end
