(* ===== verification/Terminal.thy ===== *)
theory Terminal
  imports Frames Base64
begin

section \<open>Terminal sessions of the agent (clients/src/terminal.c)\<close>

text \<open>
  The table \<open>g_terms\<close> of eight sessions, each with a shell on a pseudo terminal.  The calls of the
  kernel (\<open>forkpty\<close>, \<open>pthread_create\<close>, \<open>write\<close>) are parameters.  The end of a reader thread is the
  step \<open>reader_ends\<close>.  A NULL session name, which the dispatcher hands on for a message without
  one, is \<open>None\<close>.
\<close>

definition MAX_SESSIONS :: nat where "MAX_SESSIONS = 8"

record term_session =
  t_sock :: int
  session_id :: string
  pty_master :: int
  child :: int
  running :: bool

definition terms_init :: "term_session list" where
  "terms_init = replicate MAX_SESSIONS \<lparr>t_sock = 0, session_id = [], pty_master = -1, child = 0, running = False\<rparr>"

text \<open>The text a reader thread sends for the bytes it has read, and the one it sends at its end.\<close>

definition term_output :: "string \<Rightarrow> string" where
  "term_output b64 = snprintf_s (length b64 + 64) (CHR ''{'' # json_str_field ''data_base64'' b64 @ ''}'')"

definition term_closed :: string where
  "term_closed = CHR ''{'' # json_str_field ''data_base64'' [] @ '','' @ json_raw_field ''closed'' ''true'' @ ''}''"

definition reader_ends :: "nat \<Rightarrow> term_session list \<Rightarrow> term_session list" where
  "reader_ends i g = g[i := (g ! i)\<lparr>running := False\<rparr>]"

text \<open>The session after \<open>term_close\<close>, the process it sends a hangup and the descriptor it closes.\<close>

definition term_close :: "term_session \<Rightarrow> term_session \<times> int option \<times> int option" where
  "term_close t =
     (if \<not> running t \<and> pty_master t < 0 then (t\<lparr>session_id := []\<rparr>, None, None)
      else
        (t\<lparr>running := False, pty_master := (if pty_master t \<ge> 0 then -1 else pty_master t), session_id := []\<rparr>,
         if child t > 0 then Some (child t) else None,
         if pty_master t \<ge> 0 then Some (pty_master t) else None))"

text \<open>\<open>forkpty\<close> gives the process and the master end for a window size; a negative process is a failure.\<close>

record pty_env =
  forkpty :: "int \<times> int \<Rightarrow> int \<times> int"
  reader_ok :: bool

definition winsize :: "int \<Rightarrow> int \<Rightarrow> int \<times> int" where
  "winsize cols rows = (if cols > 0 then cols mod 65536 else 80, if rows > 0 then rows mod 65536 else 24)"

definition ctc_term_open ::
  "pty_env \<Rightarrow> int \<Rightarrow> string \<Rightarrow> int \<Rightarrow> int \<Rightarrow> term_session list \<Rightarrow> term_session list \<times> int"
where
  "ctc_term_open e sck sid cols rows g =
     (case find_slot (\<lambda>t. session_id t = []) g of
        None \<Rightarrow> (g, -1)
      | Some i \<Rightarrow>
          let t = \<lparr>t_sock = sck, session_id = snprintf_s 64 sid, pty_master = -1, child = 0, running = True\<rparr> in
          case forkpty e (winsize cols rows) of
            (pid, master) \<Rightarrow>
          if pid < 0 then (g[i := fst (term_close t)], -1)
          else
            let t = t\<lparr>pty_master := master, child := pid\<rparr> in
            if \<not> reader_ok e then (g[i := fst (term_close t)], -1) else (g[i := t], 0))"

text \<open>
  The search of \<open>ctc_term_input\<close> and \<open>ctc_term_close\<close>.  \<open>strcmp\<close> with NULL is undefined; it is
  reached as soon as one session runs.
\<close>

definition live :: "term_session \<Rightarrow> bool" where
  "live t \<longleftrightarrow> session_id t \<noteq> [] \<and> running t"

definition find_term :: "string option \<Rightarrow> term_session list \<Rightarrow> nat option outcome" where
  "find_term sid g =
     (case sid of
        None \<Rightarrow> if find_slot live g = None then Ret None else Undef
      | Some sid \<Rightarrow> Ret (find_slot (\<lambda>t. live t \<and> session_id t = sid) g))"

text \<open>The loop over \<open>write\<close>: a result below zero is retried after \<open>EINTR\<close> and \<open>EAGAIN\<close>.\<close>

partial_function (option) pty_write :: "io_answers \<Rightarrow> nat \<Rightarrow> byte list \<Rightarrow> byte list \<Rightarrow> (int \<times> byte list) option" where
  "pty_write ans k p out =
     (if p = [] then Some (0, out)
      else
        let w = fst (ans k (length p)); again = snd (ans k (length p)) in
        if w < 0 then (if again then pty_write ans (k + 1) p out else Some (-1, out))
        else pty_write ans (k + 1) (drop (nat w) p) (out @ take (nat w) p))"

declare pty_write.simps [code]

definition ctc_term_input ::
  "io_answers \<Rightarrow> string option \<Rightarrow> byte list \<Rightarrow> term_session list \<Rightarrow> (int \<times> (int \<times> byte list) option) outcome option"
where
  "ctc_term_input ans sid data g =
     (case find_term sid g of
        Ret None \<Rightarrow> Some (Ret (-1, None))
      | Ret (Some i) \<Rightarrow>
          map_option (\<lambda>(rc, out). Ret (rc, Some (pty_master (g ! i), out))) (pty_write ans 0 data [])
      | Exited \<Rightarrow> Some Exited
      | Undef \<Rightarrow> Some Undef)"

definition ctc_term_close :: "string option \<Rightarrow> term_session list \<Rightarrow> (term_session list \<times> int) outcome" where
  "ctc_term_close sid g =
     and_then (find_term sid g) (\<lambda>r.
       case r of
         None \<Rightarrow> Ret (g, -1)
       | Some i \<Rightarrow> Ret (g[i := fst (term_close (g ! i))], 0))"

definition ctc_term_close_all :: "term_session list \<Rightarrow> term_session list" where
  "ctc_term_close_all g = map (\<lambda>t. if session_id t \<noteq> [] then fst (term_close t) else t) g"

subsection \<open>Sessions whose shell has ended\<close>

definition dead :: "term_session \<Rightarrow> bool" where
  "dead t \<longleftrightarrow> session_id t \<noteq> [] \<and> \<not> running t"

text \<open>What happens to the table while a connection lasts: commands of the server and ends of shells.\<close>

inductive term_step :: "term_session list \<Rightarrow> term_session list \<Rightarrow> bool" where
  "term_step g (fst (ctc_term_open e sck sid cols rows g))"
| "ctc_term_close sid g = Ret (g', rc) \<Longrightarrow> term_step g g'"
| "i < length g \<Longrightarrow> running (g ! i) \<Longrightarrow> term_step g (reader_ends i g)"

lemma update_dead:
  "i < length g \<Longrightarrow> \<not> dead (g ! i) \<Longrightarrow> j < length g \<Longrightarrow> dead (g ! j) \<Longrightarrow> dead (g[i := t] ! j)"
  by (auto simp: nth_list_update)

lemma open_slot: "find_slot (\<lambda>t. session_id t = []) g = Some i \<Longrightarrow> i < length g \<and> \<not> dead (g ! i)"
  by (auto simp: find_slot_Some dead_def)

lemma term_step_dead: "term_step g g' \<Longrightarrow> length g' = length g \<and> (\<forall>j<length g. dead (g ! j) \<longrightarrow> dead (g' ! j))"
proof (induction rule: term_step.induct)
  case (1 g e sck sid cols rows)
  show ?case
    using open_slot [of g] update_dead [of _ g] by (auto simp: ctc_term_open_def Let_def split: option.splits prod.splits)
next
  case (2 sid g g' rc)
  then show ?case
    using update_dead [of _ g]
    by (auto simp: ctc_term_close_def find_term_def and_then_Ret find_slot_Some dead_def live_def split: option.splits if_splits)
next
  case (3 i g)
  then show ?case by (auto simp: reader_ends_def dead_def nth_list_update)
qed

lemma term_run_dead: "term_step\<^sup>*\<^sup>* g g' \<Longrightarrow> list_all dead g \<Longrightarrow> list_all dead g'"
  by (induction rule: rtranclp_induct) (auto simp: list_all_length dest!: term_step_dead)

definition free_term :: term_session where
  "free_term = \<lparr>t_sock = 0, session_id = [], pty_master = -1, child = 0, running = False\<rparr>"

definition ended_term :: term_session where
  "ended_term = \<lparr>t_sock = 3, session_id = ''t'', pty_master = 9, child = 100, running = False\<rparr>"

lemma one_more_ended: "term_step\<^sup>*\<^sup>* (replicate n ended_term @ free_term # r) (replicate n ended_term @ ended_term # r)"
proof -
  let ?g = "replicate n ended_term @ free_term # r"
  let ?e = "\<lparr>forkpty = (\<lambda>_. (100, 9)), reader_ok = True\<rparr>"
  let ?g' = "fst (ctc_term_open ?e 3 ''t'' 80 24 ?g)"
  have "find_slot (\<lambda>t. session_id t = []) ?g = Some n"
    by (induction n) (simp_all add: free_term_def ended_term_def)
  then have g': "?g' = replicate n ended_term @ ended_term\<lparr>running := True\<rparr> # r"
    by (simp add: ctc_term_open_def ended_term_def list_update_append)
  have "reader_ends n ?g' = replicate n ended_term @ ended_term # r"
    unfolding g' by (simp add: reader_ends_def nth_append list_update_append) (simp add: ended_term_def)
  moreover have "term_step ?g' (reader_ends n ?g')"
    by (rule term_step.intros(3)) (simp_all add: g' nth_append)
  moreover have "term_step ?g ?g'" by (rule term_step.intros(1))
  ultimately show ?thesis by auto
qed

lemma all_ended: "term_step\<^sup>*\<^sup>* (replicate n ended_term @ replicate m free_term) (replicate (n + m) ended_term)"
proof (induction m arbitrary: n)
  case (Suc m)
  have "term_step\<^sup>*\<^sup>* (replicate n ended_term @ replicate (Suc m) free_term) (replicate (Suc n) ended_term @ replicate m free_term)"
    using one_more_ended [of n "replicate m free_term"] by (simp add: replicate_app_Cons_same)
  with Suc [of "Suc n"] show ?case by simp
qed simp

lemma no_free_slot: "list_all dead g \<Longrightarrow> snd (ctc_term_open e sck sid cols rows g) = -1"
proof -
  assume "list_all dead g"
  then have "find_slot (\<lambda>t. session_id t = []) g = None" by (auto simp: find_slot_None list_all_iff dead_def)
  then show ?thesis by (simp add: ctc_term_open_def)
qed

text \<open>
  Terminals run out: a session whose shell has ended keeps its slot, since closing it looks
  for running sessions only.  After eight shells have ended every further open fails, whatever
  the server opens and closes, until the connection is lost and all sessions are closed.
\<close>

lemma terminals_run_out:
  "\<exists>g. term_step\<^sup>*\<^sup>* terms_init g \<and>
     (\<forall>g' e sck sid cols rows. term_step\<^sup>*\<^sup>* g g' \<longrightarrow> snd (ctc_term_open e sck sid cols rows g') = -1)"
proof -
  let ?g = "replicate MAX_SESSIONS ended_term"
  have "list_all dead ?g" by (simp add: list_all_length dead_def ended_term_def)
  moreover have "term_step\<^sup>*\<^sup>* terms_init ?g"
    using all_ended [of 0 MAX_SESSIONS] by (simp add: terms_init_def free_term_def)
  ultimately show ?thesis using term_run_dead no_free_slot by blast
qed

end
