(* ===== verification/PortForward.thy ===== *)
theory PortForward
  imports Frames Base64
begin

section \<open>Port forwarding of the agent (clients/src/portforward.c)\<close>

text \<open>
  The table \<open>g_pf\<close> of forwards, each with a table of connections to a local service, the
  commands of the server that open, close and feed them, and the reader thread of every
  connection, which sends what the service answers back under the name of the connection.
  The commands run under \<open>g_pf_mu\<close> and are functions of the state; the threads do not take that
  lock, and their steps interleave with the commands in the relation \<open>pf_step\<close>.

  \<open>sockets\<close> is what the kernel holds open: for a descriptor, the connection it was opened for.
  A reader that is blocked in \<open>read\<close> keeps the socket it has called it on, also when the
  descriptor is closed meanwhile: \<open>r_from\<close>.
\<close>

definition MAX_PF :: nat where "MAX_PF = 16"

definition MAX_PF_CONN :: nat where "MAX_PF_CONN = 32"

record pf_conn =
  conn_id :: string
  pf_fd :: int
  active :: bool

record pf_ctx =
  forward_id :: string
  local_host :: string
  local_port :: int
  pf_sock :: int
  conns :: "pf_conn list"
  pf_used :: bool

type_synonym pf_name = "string \<times> string"

record reader =
  r_ctx :: nat
  r_conn :: nat
  r_from :: "pf_name option"

datatype pf_sent = SentData pf_name "byte list" string | SentClose string

record pf_sys =
  g_pf :: "pf_ctx list"
  sockets :: "int \<rightharpoonup> pf_name"
  readers :: "reader list"
  sent :: "pf_sent list"

text \<open>The answers of the kernel during \<open>pf_connect\<close>.\<close>

record pf_env =
  new_fd :: int
  host_ok :: bool
  connect_ok :: bool
  thread_ok :: bool

subsection \<open>Messages\<close>

definition pf_data_text :: "string \<Rightarrow> string \<Rightarrow> string \<Rightarrow> string" where
  "pf_data_text fid cid b64 =
     snprintf_s (length b64 + 256)
       (CHR ''{'' # json_str_field ''forward_id'' fid @ '','' @ json_str_field ''conn_id'' cid @ '','' @
          json_str_field ''data_base64'' b64 @ ''}'')"

definition pf_close_text :: "string \<Rightarrow> string \<Rightarrow> string" where
  "pf_close_text fid cid =
     snprintf_s 512 (CHR ''{'' # json_str_field ''forward_id'' fid @ '','' @ json_str_field ''conn_id'' cid @ '','' @
       json_str_field ''data_base64'' [] @ '','' @ json_raw_field ''closed'' ''true'' @ ''}'')"

definition ctc_pf_send_data ::
  "(nat \<Rightarrow> bool) \<Rightarrow> io_answers \<Rightarrow> nat \<Rightarrow> int \<Rightarrow> string \<Rightarrow> string \<Rightarrow> byte list \<Rightarrow> (int \<times> nat \<times> byte list) outcome option"
where
  "ctc_pf_send_data alloc ans k sock fid cid data =
     (if sock < 0 \<or> data = [] then Some (Ret (-1, k, []))
      else
        (case ctc_base64_encode (alloc (4 * ((length data + 2) div 3) + 1)) data of
           None \<Rightarrow> Some (Ret (-1, k, []))
         | Some b64 \<Rightarrow>
             if \<not> alloc (length b64 + 256) then Some (Ret (-1, k, []))
             else ctc_send alloc ans k ''pf_data'' None None (Some (pf_data_text fid cid b64))))"

definition ctc_pf_send_close ::
  "(nat \<Rightarrow> bool) \<Rightarrow> io_answers \<Rightarrow> nat \<Rightarrow> int \<Rightarrow> string \<Rightarrow> string \<Rightarrow> (int \<times> nat \<times> byte list) outcome option"
where
  "ctc_pf_send_close alloc ans k sock fid cid =
     (if sock < 0 then Some (Ret (-1, k, []))
      else ctc_send alloc ans k ''pf_data'' None None (Some (pf_close_text fid cid)))"

subsection \<open>Commands\<close>

definition no_conn :: pf_conn where
  "no_conn = \<lparr>conn_id = [], pf_fd = -1, active = False\<rparr>"

definition ctc_pf_open :: "int \<Rightarrow> string \<Rightarrow> string \<Rightarrow> int \<Rightarrow> pf_sys \<Rightarrow> pf_sys \<times> int" where
  "ctc_pf_open sck fid lh lp s =
     (case find_slot (\<lambda>c. \<not> pf_used c) (g_pf s) of
        None \<Rightarrow> (s, -1)
      | Some i \<Rightarrow>
          (s\<lparr>g_pf := (g_pf s)[i :=
               \<lparr>forward_id = snprintf_s 64 fid,
                local_host = snprintf_s 64 (if lh \<noteq> [] then lh else ''127.0.0.1''),
                local_port = lp, pf_sock = sck, conns = replicate MAX_PF_CONN no_conn, pf_used = True\<rparr>]\<rparr>, 0))"

text \<open>What a close does to an active connection, and to the descriptors of the process.\<close>

definition shut :: "pf_conn \<Rightarrow> pf_conn" where
  "shut c = (if active c then c\<lparr>active := False, pf_fd := (if pf_fd c \<ge> 0 then -1 else pf_fd c)\<rparr> else c)"

definition held :: "pf_conn \<Rightarrow> int list" where
  "held c = (if active c \<and> pf_fd c \<ge> 0 then [pf_fd c] else [])"

definition close_fds :: "int list \<Rightarrow> (int \<rightharpoonup> pf_name) \<Rightarrow> (int \<rightharpoonup> pf_name)" where
  "close_fds fds m = (\<lambda>fd. if fd \<in> set fds then None else m fd)"

definition close_ctx :: "pf_ctx \<Rightarrow> pf_ctx" where
  "close_ctx c = c\<lparr>conns := map shut (conns c), pf_used := False\<rparr>"

definition ctx_fds :: "pf_ctx \<Rightarrow> int list" where
  "ctx_fds c = concat (map held (conns c))"

definition ctc_pf_close :: "string \<Rightarrow> pf_sys \<Rightarrow> pf_sys" where
  "ctc_pf_close fid s =
     (case find_slot (\<lambda>c. pf_used c \<and> forward_id c = fid) (g_pf s) of
        None \<Rightarrow> s
      | Some i \<Rightarrow>
          s\<lparr>g_pf := (g_pf s)[i := close_ctx (g_pf s ! i)], sockets := close_fds (ctx_fds (g_pf s ! i)) (sockets s)\<rparr>)"

definition ctc_pf_close_all :: "pf_sys \<Rightarrow> pf_sys" where
  "ctc_pf_close_all s =
     s\<lparr>g_pf := map (\<lambda>c. if pf_used c then close_ctx c else c) (g_pf s),
       sockets := close_fds (concat (map ctx_fds (filter pf_used (g_pf s)))) (sockets s)\<rparr>"

text \<open>The connection a message for \<open>(fid, cid)\<close> belongs to: forward and slot.\<close>

definition find_conn :: "string \<Rightarrow> string \<Rightarrow> pf_ctx list \<Rightarrow> (nat \<times> nat) option" where
  "find_conn fid cid t =
     (case find_slot (\<lambda>c. pf_used c \<and> forward_id c = fid) t of
        None \<Rightarrow> None
      | Some i \<Rightarrow> map_option (Pair i) (find_slot (\<lambda>c. active c \<and> conn_id c = cid) (conns (t ! i))))"

definition ctc_pf_write ::
  "io_answers \<Rightarrow> string \<Rightarrow> string \<Rightarrow> byte list \<Rightarrow> pf_sys \<Rightarrow> (int \<times> (int \<times> byte list) option) option"
where
  "ctc_pf_write ans fid cid data s =
     (case find_conn fid cid (g_pf s) of
        None \<Rightarrow> Some (-1, None)
      | Some (i, j) \<Rightarrow>
          let fd = pf_fd (conns (g_pf s ! i) ! j) in
          if fd < 0 then Some (-1, None)
          else map_option (\<lambda>(rc, k, out). (rc, Some (fd, out))) (write_all ans 0 data []))"

definition upd_conn :: "nat \<Rightarrow> nat \<Rightarrow> pf_conn \<Rightarrow> pf_ctx list \<Rightarrow> pf_ctx list" where
  "upd_conn i j c t = t[i := (t ! i)\<lparr>conns := (conns (t ! i))[j := c]\<rparr>]"

definition ctc_pf_conn_close :: "string \<Rightarrow> string \<Rightarrow> pf_sys \<Rightarrow> pf_sys" where
  "ctc_pf_conn_close fid cid s =
     (case find_conn fid cid (g_pf s) of
        None \<Rightarrow> s
      | Some (i, j) \<Rightarrow>
          let c = conns (g_pf s ! i) ! j in
          s\<lparr>g_pf := upd_conn i j (shut c) (g_pf s), sockets := close_fds (held c) (sockets s)\<rparr>)"

text \<open>
  \<open>pf_connect\<close> on forward \<open>i\<close>: a socket that does not get connected is closed again, and so is one
  whose thread cannot be started, after its slot has been written.
\<close>

definition pf_connect :: "pf_env \<Rightarrow> nat \<Rightarrow> string \<Rightarrow> pf_sys \<Rightarrow> pf_sys \<times> int" where
  "pf_connect e i cid s =
     (case find_slot (\<lambda>c. \<not> active c \<and> pf_fd c < 0) (conns (g_pf s ! i)) of
        None \<Rightarrow> (s, -1)
      | Some j \<Rightarrow>
          if new_fd e < 0 \<or> \<not> host_ok e \<or> \<not> connect_ok e then (s, -1)
          else
            let c = \<lparr>conn_id = snprintf_s 48 cid, pf_fd = new_fd e, active = True\<rparr> in
            if \<not> thread_ok e then (s\<lparr>g_pf := upd_conn i j (c\<lparr>active := False, pf_fd := -1\<rparr>) (g_pf s)\<rparr>, -1)
            else
              (s\<lparr>g_pf := upd_conn i j c (g_pf s),
                 sockets := (sockets s)(new_fd e \<mapsto> (forward_id (g_pf s ! i), snprintf_s 48 cid)),
                 readers := readers s @ [\<lparr>r_ctx = i, r_conn = j, r_from = None\<rparr>]\<rparr>, 0))"

definition ctc_pf_accept_conn :: "pf_env \<Rightarrow> string \<Rightarrow> string \<Rightarrow> pf_sys \<Rightarrow> pf_sys \<times> int" where
  "ctc_pf_accept_conn e fid cid s =
     (case find_slot (\<lambda>c. pf_used c \<and> forward_id c = fid) (g_pf s) of
        None \<Rightarrow> (s, -1)
      | Some i \<Rightarrow> pf_connect e i cid s)"

subsection \<open>Reader threads\<close>

definition rslot :: "pf_ctx list \<Rightarrow> reader \<Rightarrow> pf_conn" where
  "rslot t r = conns (t ! r_ctx r) ! r_conn r"

definition rname :: "pf_ctx list \<Rightarrow> reader \<Rightarrow> pf_name" where
  "rname t r = (forward_id (t ! r_ctx r), conn_id (rslot t r))"

text \<open>\<open>while (conn->active) read(conn->fd, ...)\<close>: the thread blocks on the socket behind the descriptor.\<close>

definition reader_call :: "nat \<Rightarrow> pf_sys \<Rightarrow> pf_sys option" where
  "reader_call k s =
     (let r = readers s ! k; c = rslot (g_pf s) r in
      if r_from r = None \<and> active c then
        (case sockets s (pf_fd c) of
           None \<Rightarrow> None
         | Some n \<Rightarrow> Some (s\<lparr>readers := (readers s)[k := r\<lparr>r_from := Some n\<rparr>]\<rparr>))
      else None)"

text \<open>
  \<open>read\<close> returns bytes of the socket it blocked on, at most as many as \<open>buf\<close> holds, and the thread
  sends them; \<open>go\<close> tells whether \<open>ctc_pf_send_data\<close> gets the message out, which the thread does not
  look at.
\<close>

definition reader_data :: "nat \<Rightarrow> bool \<Rightarrow> byte list \<Rightarrow> pf_sys \<Rightarrow> pf_sys option" where
  "reader_data k go data s =
     (let r = readers s ! k; n = rname (g_pf s) r in
      case r_from r of
        None \<Rightarrow> None
      | Some src \<Rightarrow>
          if data = [] \<or> length data > 8192 then None
          else
            Some (s\<lparr>readers := (readers s)[k := r\<lparr>r_from := None\<rparr>],
                    sent := sent s @
                      (case ctc_base64_encode (go \<and> pf_sock (g_pf s ! r_ctx r) \<ge> 0) data of
                         None \<Rightarrow> []
                       | Some b64 \<Rightarrow> [SentData src data (pf_data_text (fst n) (snd n) b64)])\<rparr>))"

text \<open>
  The loop is left, since \<open>read\<close> has failed or the slot is not active, and the thread takes leave:
  it reports the close, closes the descriptor of its slot and frees the slot.
\<close>

definition reader_end :: "nat \<Rightarrow> bool \<Rightarrow> pf_sys \<Rightarrow> pf_sys option" where
  "reader_end k go s =
     (let r = readers s ! k; c = rslot (g_pf s) r; n = rname (g_pf s) r in
      if r_from r = None \<and> active c \<and> sockets s (pf_fd c) \<noteq> None then None
      else
        Some (s\<lparr>g_pf := upd_conn (r_ctx r) (r_conn r)
                          (c\<lparr>pf_fd := (if pf_fd c \<ge> 0 then -1 else pf_fd c), active := False\<rparr>) (g_pf s),
                sockets := close_fds (if pf_fd c \<ge> 0 then [pf_fd c] else []) (sockets s),
                readers := take k (readers s) @ drop (Suc k) (readers s),
                sent := sent s @ (if go \<and> pf_sock (g_pf s ! r_ctx r) \<ge> 0
                                  then [SentClose (pf_close_text (fst n) (snd n))] else [])\<rparr>))"

text \<open>
  Commands and thread steps in any order.  \<open>socket\<close> never returns a descriptor that is open.
\<close>

inductive pf_step :: "pf_sys \<Rightarrow> pf_sys \<Rightarrow> bool" where
  "pf_step s (fst (ctc_pf_open sck fid lh lp s))"
| "pf_step s (ctc_pf_close fid s)"
| "pf_step s (ctc_pf_close_all s)"
| "pf_step s (ctc_pf_conn_close fid cid s)"
| "sockets s (new_fd e) = None \<Longrightarrow> pf_step s (fst (ctc_pf_accept_conn e fid cid s))"
| "k < length (readers s) \<Longrightarrow> reader_call k s = Some s' \<Longrightarrow> pf_step s s'"
| "k < length (readers s) \<Longrightarrow> reader_data k go data s = Some s' \<Longrightarrow> pf_step s s'"
| "k < length (readers s) \<Longrightarrow> reader_end k go s = Some s' \<Longrightarrow> pf_step s s'"

text \<open>The static table before the first command.\<close>

definition pf_init :: pf_sys where
  "pf_init =
     \<lparr>g_pf = replicate MAX_PF \<lparr>forward_id = [], local_host = [], local_port = 0, pf_sock = 0,
        conns = replicate MAX_PF_CONN \<lparr>conn_id = [], pf_fd = 0, active = False\<rparr>, pf_used = False\<rparr>,
      sockets = Map.empty, readers = [], sent = []\<rparr>"

text \<open>A step that does not hand the slot of a live reader to another connection.\<close>

definition calm :: "pf_sys \<Rightarrow> pf_sys \<Rightarrow> bool" where
  "calm s s' \<longleftrightarrow> list_all (\<lambda>r. rname (g_pf s') r = rname (g_pf s) r) (readers s)"

inductive pf_run :: "(pf_sys \<Rightarrow> pf_sys \<Rightarrow> bool) \<Rightarrow> pf_sys \<Rightarrow> bool" for C where
  "pf_run C pf_init"
| "pf_run C s \<Longrightarrow> pf_step s s' \<Longrightarrow> C s s' \<Longrightarrow> pf_run C s'"

subsection \<open>Slots and sockets\<close>

definition act :: "pf_ctx list \<Rightarrow> nat \<times> nat \<Rightarrow> (int \<times> pf_name) option" where
  "act t = (\<lambda>(i, j).
     if i < length t \<and> j < length (conns (t ! i)) \<and> active (conns (t ! i) ! j)
     then Some (pf_fd (conns (t ! i) ! j), forward_id (t ! i), conn_id (conns (t ! i) ! j)) else None)"

definition tied :: "(nat \<times> nat \<Rightarrow> (int \<times> pf_name) option) \<Rightarrow> (int \<rightharpoonup> pf_name) \<Rightarrow> bool" where
  "tied a m \<longleftrightarrow>
     (\<forall>p fd n. a p = Some (fd, n) \<longrightarrow> fd \<ge> 0 \<and> m fd = Some n) \<and>
     (\<forall>p q fd n n'. a p = Some (fd, n) \<longrightarrow> a q = Some (fd, n') \<longrightarrow> p = q) \<and>
     (\<forall>fd n. m fd = Some n \<longrightarrow> (\<exists>p. a p = Some (fd, n)))"

lemma tied_act: "tied a m \<Longrightarrow> a p = Some (fd, n) \<Longrightarrow> fd \<ge> 0 \<and> m fd = Some n"
  unfolding tied_def by blast

lemma tied_inj: "tied a m \<Longrightarrow> a p = Some (fd, n) \<Longrightarrow> a q = Some (fd, n') \<Longrightarrow> p = q"
  unfolding tied_def by blast

lemma tied_sock: "tied a m \<Longrightarrow> m fd = Some n \<Longrightarrow> \<exists>p. a p = Some (fd, n)"
  unfolding tied_def by blast

lemma tiedI:
  assumes "\<And>p fd n. a p = Some (fd, n) \<Longrightarrow> fd \<ge> 0 \<and> m fd = Some n"
    and "\<And>p q fd n n'. a p = Some (fd, n) \<Longrightarrow> a q = Some (fd, n') \<Longrightarrow> p = q"
    and "\<And>fd n. m fd = Some n \<Longrightarrow> \<exists>p. a p = Some (fd, n)"
  shows "tied a m"
  unfolding tied_def using assms by blast

lemma tied_drop:
  assumes t: "tied a m" and a': "\<And>p. a' p = (if p \<in> P then None else a p)"
    and fds: "\<And>fd. fd \<in> set fds \<longleftrightarrow> (\<exists>p n. p \<in> P \<and> a p = Some (fd, n))"
  shows "tied a' (close_fds fds m)"
proof (rule tiedI)
  fix p fd n assume "a' p = Some (fd, n)"
  then have p: "p \<notin> P" "a p = Some (fd, n)" by (auto simp: a' split: if_splits)
  then have "fd \<notin> set fds" using tied_inj [OF t] fds by blast
  with tied_act [OF t p(2)] show "fd \<ge> 0 \<and> close_fds fds m fd = Some n" by (simp add: close_fds_def)
next
  fix p q fd n n' assume "a' p = Some (fd, n)" "a' q = Some (fd, n')"
  then show "p = q" using tied_inj [OF t, of p fd n q n'] by (auto simp: a' split: if_splits)
next
  fix fd n assume "close_fds fds m fd = Some n"
  then have f: "fd \<notin> set fds" "m fd = Some n" by (auto simp: close_fds_def split: if_splits)
  from tied_sock [OF t f(2)] obtain p where p: "a p = Some (fd, n)" by blast
  then have "p \<notin> P" using f(1) fds by blast
  with p have "a' p = Some (fd, n)" by (simp add: a')
  then show "\<exists>p. a' p = Some (fd, n)" by blast
qed

lemma tied_add:
  assumes t: "tied a m" and m: "m fd = None" "0 \<le> fd" "a p = None"
  shows "tied (a(p \<mapsto> (fd, n))) (m(fd \<mapsto> n))"
proof (rule tiedI)
  fix q g k assume "(a(p \<mapsto> (fd, n))) q = Some (g, k)"
  then show "g \<ge> 0 \<and> (m(fd \<mapsto> n)) g = Some k"
    using tied_act [OF t, of q g k] m by (cases "q = p") auto
next
  fix q r g k k' assume "(a(p \<mapsto> (fd, n))) q = Some (g, k)" "(a(p \<mapsto> (fd, n))) r = Some (g, k')"
  then show "q = r"
    using tied_inj [OF t, of q g k r k'] tied_act [OF t, of q g k] tied_act [OF t, of r g k'] m
    by (cases "q = p"; cases "r = p") auto
next
  fix g k assume "(m(fd \<mapsto> n)) g = Some k"
  then show "\<exists>q. (a(p \<mapsto> (fd, n))) q = Some (g, k)"
  proof (cases "g = fd")
    case False
    with \<open>(m(fd \<mapsto> n)) g = Some k\<close> have "m g = Some k" by simp
    from tied_sock [OF t this] obtain q where q: "a q = Some (g, k)" by blast
    with m have "q \<noteq> p" by auto
    with q have "(a(p \<mapsto> (fd, n))) q = Some (g, k)" by simp
    then show ?thesis by blast
  qed (use \<open>(m(fd \<mapsto> n)) g = Some k\<close> in \<open>intro exI [of _ p], simp\<close>)
qed

definition quiet :: "pf_conn \<Rightarrow> bool" where
  "quiet c \<longleftrightarrow> active c \<or> pf_fd c < 0"

definition sized :: "pf_ctx list \<Rightarrow> bool" where
  "sized t \<longleftrightarrow> length t = MAX_PF \<and> list_all (\<lambda>c. length (conns c) = MAX_PF_CONN) t"

definition idle_unused :: "pf_ctx list \<Rightarrow> bool" where
  "idle_unused t \<longleftrightarrow> list_all (\<lambda>c. pf_used c \<or> list_all (\<lambda>x. \<not> active x) (conns c)) t"

text \<open>A table after a command: the same size, and no free slot has come to hold a descriptor.\<close>

definition keeps :: "pf_ctx list \<Rightarrow> pf_ctx list \<Rightarrow> bool" where
  "keeps t t' \<longleftrightarrow> sized t' \<and> idle_unused t' \<and>
     (\<forall>i j. i < MAX_PF \<longrightarrow> j < MAX_PF_CONN \<longrightarrow> quiet (conns (t ! i) ! j) \<longrightarrow> quiet (conns (t' ! i) ! j))"

lemma sized_nth: "sized t \<Longrightarrow> i < MAX_PF \<Longrightarrow> i < length t \<and> length (conns (t ! i)) = MAX_PF_CONN"
  by (simp add: sized_def list_all_length)

lemma shut_simps [simp]:
  "\<not> active (shut c)" "conn_id (shut c) = conn_id c" "quiet c \<Longrightarrow> quiet (shut c)"
  by (auto simp: shut_def quiet_def)

lemma close_ctx_simps [simp]:
  "forward_id (close_ctx c) = forward_id c" "conns (close_ctx c) = map shut (conns c)" "\<not> pf_used (close_ctx c)"
  by (simp_all add: close_ctx_def)

lemma act_upd_conn:
  "i < length t \<Longrightarrow> j < length (conns (t ! i)) \<Longrightarrow>
     act (upd_conn i j c t) = (act t)((i, j) := if active c then Some (pf_fd c, forward_id (t ! i), conn_id c) else None)"
  by (auto simp: act_def upd_conn_def fun_eq_iff nth_list_update)

lemma act_close_ctx: "act (t[i := close_ctx (t ! i)]) p = (if fst p = i then None else act t p)"
  by (cases p) (auto simp: act_def nth_list_update)

lemma ctx_fds_act:
  "i < length t \<Longrightarrow> tied (act t) m \<Longrightarrow> fd \<in> set (ctx_fds (t ! i)) \<longleftrightarrow> (\<exists>p n. fst p = i \<and> act t p = Some (fd, n))"
proof
  assume i: "i < length t" "tied (act t) m" and "fd \<in> set (ctx_fds (t ! i))"
  then obtain j where "j < length (conns (t ! i))" "active (conns (t ! i) ! j)" "pf_fd (conns (t ! i) ! j) = fd"
    by (auto simp: ctx_fds_def held_def in_set_conv_nth split: if_splits)
  with i have "act t (i, j) = Some (fd, forward_id (t ! i), conn_id (conns (t ! i) ! j))" by (simp add: act_def)
  then show "\<exists>p n. fst p = i \<and> act t p = Some (fd, n)" by force
next
  assume i: "i < length t" "tied (act t) m" and "\<exists>p n. fst p = i \<and> act t p = Some (fd, n)"
  then obtain j n where a: "act t (i, j) = Some (fd, n)" by auto
  then have j: "j < length (conns (t ! i))" "active (conns (t ! i) ! j)" "pf_fd (conns (t ! i) ! j) = fd"
    by (auto simp: act_def split: if_splits)
  moreover have "fd \<ge> 0" using tied_act [OF i(2) a] by blast
  ultimately show "fd \<in> set (ctx_fds (t ! i))"
    by (auto simp: ctx_fds_def held_def intro!: bexI [of _ "conns (t ! i) ! j"])
qed

lemma keeps_upd_conn:
  assumes "sized t" "idle_unused t" "i < MAX_PF" "j < MAX_PF_CONN" "quiet c" "pf_used (t ! i) \<or> \<not> active c"
  shows "keeps t (upd_conn i j c t)"
proof -
  have l: "i < length t" "length (conns (t ! i)) = MAX_PF_CONN" "length t = MAX_PF"
    using assms sized_nth [of t i] by (auto simp: sized_def)
  have "sized (upd_conn i j c t)" using assms(1) l by (auto simp: sized_def upd_conn_def list_all_length nth_list_update)
  moreover have "idle_unused (upd_conn i j c t)"
    using assms(2,4,6) l by (auto simp: idle_unused_def upd_conn_def list_all_length nth_list_update)
  ultimately show ?thesis using l assms(4,5) by (auto simp: keeps_def upd_conn_def nth_list_update)
qed

lemma keeps_close_ctx:
  assumes "sized t" "idle_unused t" "i < MAX_PF"
  shows "keeps t (t[i := close_ctx (t ! i)])"
proof -
  have l: "i < length t" "length (conns (t ! i)) = MAX_PF_CONN" "length t = MAX_PF"
    using assms sized_nth [of t i] by (auto simp: sized_def)
  have "sized (t[i := close_ctx (t ! i)])" using assms(1) l by (auto simp: sized_def list_all_length nth_list_update)
  moreover have "idle_unused (t[i := close_ctx (t ! i)])"
    using assms(2) l by (auto simp: idle_unused_def list_all_length nth_list_update)
  ultimately show ?thesis using l by (auto simp: keeps_def nth_list_update)
qed

definition core :: "pf_sys \<Rightarrow> bool" where
  "core s \<longleftrightarrow> sized (g_pf s) \<and> idle_unused (g_pf s) \<and> tied (act (g_pf s)) (sockets s)"

lemma coreI: "keeps t (g_pf s) \<Longrightarrow> tied (act (g_pf s)) (sockets s) \<Longrightarrow> core s"
  by (simp add: core_def keeps_def)

lemma keeps_refl: "sized t \<Longrightarrow> idle_unused t \<Longrightarrow> keeps t t"
  by (simp add: keeps_def)

lemma find_conn_Some:
  "find_conn fid cid t = Some (i, j) \<Longrightarrow>
     i < length t \<and> pf_used (t ! i) \<and> forward_id (t ! i) = fid \<and> j < length (conns (t ! i)) \<and>
     active (conns (t ! i) ! j) \<and> conn_id (conns (t ! i) ! j) = cid"
  by (auto simp: find_conn_def find_slot_Some split: option.splits)

lemma pf_open_core:
  assumes "core s" shows "core (fst (ctc_pf_open sck fid lh lp s)) \<and> keeps (g_pf s) (g_pf (fst (ctc_pf_open sck fid lh lp s)))"
proof (cases "find_slot (\<lambda>c. \<not> pf_used c) (g_pf s)")
  case None
  then show ?thesis using assms by (simp add: ctc_pf_open_def core_def keeps_refl)
next
  case (Some i)
  let ?t = "g_pf s" and ?t' = "g_pf (fst (ctc_pf_open sck fid lh lp s))"
  from Some have i: "i < length ?t" "\<not> pf_used (?t ! i)" by (auto simp: find_slot_Some)
  have c: "sized ?t" "idle_unused ?t" "tied (act ?t) (sockets s)" using assms by (auto simp: core_def)
  obtain x where t': "?t' = ?t[i := x]" "conns x = replicate MAX_PF_CONN no_conn" "pf_used x"
    "sockets (fst (ctc_pf_open sck fid lh lp s)) = sockets s"
    using Some by (simp add: ctc_pf_open_def)
  have n: "j < length (conns (?t ! i)) \<Longrightarrow> \<not> active (conns (?t ! i) ! j)" for j
    using c(2) i by (auto simp: idle_unused_def list_all_length)
  have "act ?t' = act ?t"
    using i n unfolding t' by (auto simp: act_def fun_eq_iff nth_list_update t'(2) no_conn_def)
  moreover have "keeps ?t ?t'"
    using i c(1,2) unfolding t'(1)
    by (auto simp: keeps_def sized_def idle_unused_def list_all_length nth_list_update t'(2,3) no_conn_def quiet_def)
  ultimately show ?thesis using c(3) t'(4) coreI by simp
qed

lemma pf_close_core:
  assumes "core s" shows "core (ctc_pf_close fid s) \<and> keeps (g_pf s) (g_pf (ctc_pf_close fid s))"
proof (cases "find_slot (\<lambda>c. pf_used c \<and> forward_id c = fid) (g_pf s)")
  case None
  then show ?thesis using assms by (simp add: ctc_pf_close_def core_def keeps_refl)
next
  case (Some i)
  let ?t = "g_pf s"
  from Some have i: "i < length ?t" by (auto simp: find_slot_Some)
  have c: "sized ?t" "idle_unused ?t" "tied (act ?t) (sockets s)" using assms by (auto simp: core_def)
  have "tied (act (?t[i := close_ctx (?t ! i)])) (close_fds (ctx_fds (?t ! i)) (sockets s))"
    by (rule tied_drop [OF c(3), where P = "{p. fst p = i}"])
       (use ctx_fds_act [OF i c(3)] act_close_ctx in simp_all)
  moreover have "keeps ?t (?t[i := close_ctx (?t ! i)])"
    using keeps_close_ctx [OF c(1,2), of i] i c(1) by (simp add: sized_def)
  ultimately show ?thesis using Some by (auto simp: ctc_pf_close_def intro: coreI)
qed

lemma pf_close_all_core:
  assumes "core s" shows "core (ctc_pf_close_all s) \<and> keeps (g_pf s) (g_pf (ctc_pf_close_all s))"
proof -
  let ?t = "g_pf s" and ?f = "\<lambda>c. if pf_used c then close_ctx c else c"
  have c: "sized ?t" "idle_unused ?t" "tied (act ?t) (sockets s)" using assms by (auto simp: core_def)
  have "act (map ?f ?t) p = None" for p
    using c(2) by (cases p) (auto simp: act_def idle_unused_def list_all_length)
  moreover have "fd \<in> set (concat (map ctx_fds (filter pf_used ?t))) \<longleftrightarrow> (\<exists>p n. act ?t p = Some (fd, n))" for fd
  proof
    assume "fd \<in> set (concat (map ctx_fds (filter pf_used ?t)))"
    then obtain i where "i < length ?t" "fd \<in> set (ctx_fds (?t ! i))" by (auto simp: in_set_conv_nth)
    then show "\<exists>p n. act ?t p = Some (fd, n)" using ctx_fds_act [OF _ c(3)] by blast
  next
    assume "\<exists>p n. act ?t p = Some (fd, n)"
    then obtain i j n where a: "act ?t (i, j) = Some (fd, n)" by auto
    then have i: "i < length ?t" "j < length (conns (?t ! i))" "active (conns (?t ! i) ! j)"
      by (auto simp: act_def split: if_splits)
    then have "pf_used (?t ! i)" using c(2) by (auto simp: idle_unused_def list_all_length)
    moreover have "fd \<in> set (ctx_fds (?t ! i))"
      unfolding ctx_fds_act [OF i(1) c(3)] using a by (intro exI [of _ "(i, j)"] exI [of _ n]) simp
    ultimately show "fd \<in> set (concat (map ctx_fds (filter pf_used ?t)))" using nth_mem [OF i(1)] by auto
  qed
  ultimately have "tied (act (map ?f ?t)) (close_fds (concat (map ctx_fds (filter pf_used ?t))) (sockets s))"
    by (intro tied_drop [OF c(3), where P = UNIV]) simp_all
  moreover have "keeps ?t (map ?f ?t)"
    using c(1,2) by (auto simp: keeps_def sized_def idle_unused_def list_all_length)
  ultimately show ?thesis by (auto simp: ctc_pf_close_all_def intro: coreI)
qed

lemma pf_conn_close_core:
  assumes "core s" shows "core (ctc_pf_conn_close fid cid s) \<and> keeps (g_pf s) (g_pf (ctc_pf_conn_close fid cid s))"
proof (cases "find_conn fid cid (g_pf s)")
  case None
  then show ?thesis using assms by (simp add: ctc_pf_conn_close_def core_def keeps_refl)
next
  case (Some p)
  then obtain i j where p: "find_conn fid cid (g_pf s) = Some (i, j)" by (cases p) simp
  let ?t = "g_pf s"
  note f = find_conn_Some [OF p]
  have c: "sized ?t" "idle_unused ?t" "tied (act ?t) (sockets s)" using assms by (auto simp: core_def)
  let ?c = "conns (?t ! i) ! j"
  have a: "act ?t (i, j) = Some (pf_fd ?c, forward_id (?t ! i), conn_id ?c)" using f by (simp add: act_def)
  have "tied (act (upd_conn i j (shut ?c) ?t)) (close_fds (held ?c) (sockets s))"
    by (rule tied_drop [OF c(3), where P = "{(i, j)}"])
       (use f a tied_act [OF c(3) a] in \<open>auto simp: act_upd_conn held_def\<close>)
  moreover have "keeps ?t (upd_conn i j (shut ?c) ?t)"
    using c f by (intro keeps_upd_conn) (auto simp: sized_def list_all_length shut_def quiet_def)
  ultimately show ?thesis using p by (auto simp: ctc_pf_conn_close_def Let_def intro: coreI)
qed

definition linked :: "pf_env \<Rightarrow> string \<Rightarrow> nat \<Rightarrow> nat \<Rightarrow> pf_sys \<Rightarrow> pf_sys" where
  "linked e cid i j s =
     s\<lparr>g_pf := upd_conn i j \<lparr>conn_id = snprintf_s 48 cid, pf_fd = new_fd e, active = True\<rparr> (g_pf s),
       sockets := (sockets s)(new_fd e \<mapsto> (forward_id (g_pf s ! i), snprintf_s 48 cid)),
       readers := readers s @ [\<lparr>r_ctx = i, r_conn = j, r_from = None\<rparr>]\<rparr>"

lemma pf_accept_cases:
  obtains "fst (ctc_pf_accept_conn e fid cid s) = s"
  | i j x where "i < length (g_pf s)" "pf_used (g_pf s ! i)" "j < length (conns (g_pf s ! i))"
      "\<not> active (conns (g_pf s ! i) ! j)" "\<not> active x" "quiet x"
      "fst (ctc_pf_accept_conn e fid cid s) = s\<lparr>g_pf := upd_conn i j x (g_pf s)\<rparr>"
  | i j where "i < length (g_pf s)" "pf_used (g_pf s ! i)" "j < length (conns (g_pf s ! i))"
      "\<not> active (conns (g_pf s ! i) ! j)" "new_fd e \<ge> 0" "fst (ctc_pf_accept_conn e fid cid s) = linked e cid i j s"
proof (cases "find_slot (\<lambda>c. pf_used c \<and> forward_id c = fid) (g_pf s)")
  case None
  then show ?thesis using that(1) by (simp add: ctc_pf_accept_conn_def)
next
  case (Some i)
  then have i: "i < length (g_pf s)" "pf_used (g_pf s ! i)" by (auto simp: find_slot_Some)
  show ?thesis
  proof (cases "find_slot (\<lambda>c. \<not> active c \<and> pf_fd c < 0) (conns (g_pf s ! i))")
    case None
    then show ?thesis using that(1) Some by (simp add: ctc_pf_accept_conn_def pf_connect_def)
  next
    case j: (Some j)
    then have "j < length (conns (g_pf s ! i))" "\<not> active (conns (g_pf s ! i) ! j)" by (auto simp: find_slot_Some)
    note ij = i this
    let ?c = "\<lparr>conn_id = snprintf_s 48 cid, pf_fd = -1, active = False\<rparr>"
    have "new_fd e < 0 \<or> \<not> host_ok e \<or> \<not> connect_ok e \<Longrightarrow> fst (ctc_pf_accept_conn e fid cid s) = s"
      using Some j by (auto simp: ctc_pf_accept_conn_def pf_connect_def)
    moreover have "\<not> (new_fd e < 0 \<or> \<not> host_ok e \<or> \<not> connect_ok e) \<Longrightarrow> \<not> thread_ok e \<Longrightarrow>
        fst (ctc_pf_accept_conn e fid cid s) = s\<lparr>g_pf := upd_conn i j ?c (g_pf s)\<rparr>"
      using Some j by (simp add: ctc_pf_accept_conn_def pf_connect_def Let_def)
    moreover have "\<not> (new_fd e < 0 \<or> \<not> host_ok e \<or> \<not> connect_ok e) \<Longrightarrow> thread_ok e \<Longrightarrow>
        fst (ctc_pf_accept_conn e fid cid s) = linked e cid i j s"
      using Some j by (simp add: ctc_pf_accept_conn_def pf_connect_def linked_def Let_def)
    moreover have "\<not> active ?c" "quiet ?c" by (simp_all add: quiet_def)
    ultimately show ?thesis using that(1) that(2) [OF ij, of ?c] that(3) [OF ij] by fastforce
  qed
qed

lemma pf_accept_core:
  assumes "core s" "sockets s (new_fd e) = None"
  shows "core (fst (ctc_pf_accept_conn e fid cid s)) \<and> keeps (g_pf s) (g_pf (fst (ctc_pf_accept_conn e fid cid s))) \<and>
    (\<forall>r. r \<in> set (readers (fst (ctc_pf_accept_conn e fid cid s))) \<longrightarrow> r \<in> set (readers s) \<or>
       (r_ctx r < MAX_PF \<and> r_conn r < MAX_PF_CONN \<and> r_from r = None \<and>
        quiet (rslot (g_pf (fst (ctc_pf_accept_conn e fid cid s))) r)))"
proof -
  let ?t = "g_pf s" and ?s' = "fst (ctc_pf_accept_conn e fid cid s)"
  have c: "sized ?t" "idle_unused ?t" "tied (act ?t) (sockets s)" using assms by (auto simp: core_def)
  show ?thesis
  proof (cases rule: pf_accept_cases [of e fid cid s])
    case 1
    then show ?thesis using assms c by (simp add: keeps_refl)
  next
    case (2 i j x)
    have n: "act ?t (i, j) = None" using 2 by (simp add: act_def)
    have k: "keeps ?t (upd_conn i j x ?t)" using c 2 by (intro keeps_upd_conn) (auto simp: sized_def list_all_length)
    have "act (upd_conn i j x ?t) = act ?t" using 2 n by (simp add: act_upd_conn fun_upd_idem)
    then show ?thesis using 2 k c(3) by (auto intro: coreI)
  next
    case (3 i j)
    let ?x = "\<lparr>conn_id = snprintf_s 48 cid, pf_fd = new_fd e, active = True\<rparr>"
    have n: "act ?t (i, j) = None" using 3 by (simp add: act_def)
    have k: "keeps ?t (upd_conn i j ?x ?t)"
      using c 3 by (intro keeps_upd_conn) (auto simp: sized_def list_all_length quiet_def)
    have "act (upd_conn i j ?x ?t) = (act ?t)((i, j) \<mapsto> (new_fd e, forward_id (?t ! i), snprintf_s 48 cid))"
      using 3 by (simp add: act_upd_conn)
    then have "tied (act (upd_conn i j ?x ?t)) ((sockets s)(new_fd e \<mapsto> (forward_id (?t ! i), snprintf_s 48 cid)))"
      using tied_add [OF c(3) assms(2) 3(5) n] by simp
    moreover have "i < MAX_PF" "j < MAX_PF_CONN" using 3 c(1) by (auto simp: sized_def list_all_length)
    ultimately show ?thesis using 3 k by (auto simp: linked_def rslot_def upd_conn_def quiet_def intro: coreI)
  qed
qed

definition reader_ok :: "pf_ctx list \<Rightarrow> reader \<Rightarrow> bool" where
  "reader_ok t r \<longleftrightarrow> r_ctx r < MAX_PF \<and> r_conn r < MAX_PF_CONN \<and> quiet (rslot t r) \<and>
     (case r_from r of None \<Rightarrow> True | Some n \<Rightarrow> n = rname t r)"

definition sent_ok :: "pf_sent \<Rightarrow> bool" where
  "sent_ok m = (case m of SentData n d t \<Rightarrow> t = pf_data_text (fst n) (snd n) (b64_spec d) | SentClose t \<Rightarrow> True)"

definition pf_inv :: "pf_sys \<Rightarrow> bool" where
  "pf_inv s \<longleftrightarrow> core s \<and> list_all (reader_ok (g_pf s)) (readers s) \<and> list_all sent_ok (sent s)"

lemma readers_keep:
  "list_all (reader_ok (g_pf s)) (readers s) \<Longrightarrow> keeps (g_pf s) (g_pf s') \<Longrightarrow> calm s s' \<Longrightarrow> r \<in> set (readers s) \<Longrightarrow>
     reader_ok (g_pf s') r"
  by (auto simp: reader_ok_def keeps_def calm_def list_all_iff rslot_def split: option.splits)

lemma command_inv:
  assumes "pf_inv s" "core s' \<and> keeps (g_pf s) (g_pf s')" "calm s s'" "readers s' = readers s" "sent s' = sent s"
  shows "pf_inv s'"
  using assms readers_keep [of s s'] by (auto simp: pf_inv_def list_all_iff)

lemma reader_call_inv:
  assumes "pf_inv s" "k < length (readers s)" "reader_call k s = Some s'"
  shows "pf_inv s'"
proof -
  let ?r = "readers s ! k"
  obtain n where n: "active (rslot (g_pf s) ?r)" "sockets s (pf_fd (rslot (g_pf s) ?r)) = Some n"
    "s' = s\<lparr>readers := (readers s)[k := ?r\<lparr>r_from := Some n\<rparr>]\<rparr>"
    using assms(3) by (auto simp: reader_call_def Let_def split: if_splits option.splits)
  have r: "reader_ok (g_pf s) ?r" using assms(1,2) by (auto simp: pf_inv_def list_all_length)
  have c: "core s" using assms(1) by (simp add: pf_inv_def)
  then have "act (g_pf s) (r_ctx ?r, r_conn ?r) = Some (pf_fd (rslot (g_pf s) ?r), rname (g_pf s) ?r)"
    using r n(1) sized_nth [of "g_pf s" "r_ctx ?r"] by (auto simp: act_def reader_ok_def rslot_def rname_def core_def)
  then have "n = rname (g_pf s) ?r" using c n(2) tied_act unfolding core_def by fastforce
  then have "reader_ok (g_pf s) (?r\<lparr>r_from := Some n\<rparr>)" using r by (simp add: reader_ok_def rslot_def rname_def)
  then show ?thesis using assms(1) unfolding n(3) pf_inv_def core_def
    by (auto simp: list_all_iff dest!: set_update_subset_insert [THEN subsetD])
qed

lemma reader_data_inv:
  assumes "pf_inv s" "k < length (readers s)" "reader_data k go data s = Some s'"
  shows "pf_inv s'"
proof -
  let ?r = "readers s ! k" and ?n = "rname (g_pf s) (readers s ! k)"
  obtain src out where n: "r_from ?r = Some src" "g_pf s' = g_pf s" "sockets s' = sockets s"
    "readers s' = (readers s)[k := ?r\<lparr>r_from := None\<rparr>]" "sent s' = sent s @ out"
    "set out \<subseteq> {SentData src data (pf_data_text (fst ?n) (snd ?n) (b64_spec data))}"
    using assms(3) by (auto simp: reader_data_def Let_def ctc_base64_encode_text split: option.splits if_splits)
  have r: "reader_ok (g_pf s) ?r" using assms(1,2) by (auto simp: pf_inv_def list_all_length)
  with n(1) have "src = ?n" by (simp add: reader_ok_def)
  then have "list_all sent_ok out" using n(6) by (auto simp: sent_ok_def list_all_iff)
  moreover have "reader_ok (g_pf s) (?r\<lparr>r_from := None\<rparr>)" using r by (simp add: reader_ok_def rslot_def)
  ultimately show ?thesis using assms(1) unfolding pf_inv_def core_def n(2-5)
    by (auto simp: list_all_iff dest!: set_update_subset_insert [THEN subsetD])
qed

lemma reader_end_inv:
  assumes "pf_inv s" "k < length (readers s)" "reader_end k go s = Some s'" "calm s s'"
  shows "pf_inv s'"
proof -
  let ?r = "readers s ! k" and ?t = "g_pf s"
  let ?c = "rslot ?t ?r" and ?i = "r_ctx ?r" and ?j = "r_conn ?r"
  let ?x = "?c\<lparr>pf_fd := (if pf_fd ?c \<ge> 0 then -1 else pf_fd ?c), active := False\<rparr>"
  obtain m where n: "g_pf s' = upd_conn ?i ?j ?x ?t" "sockets s' = close_fds (if pf_fd ?c \<ge> 0 then [pf_fd ?c] else []) (sockets s)"
    "readers s' = take k (readers s) @ drop (Suc k) (readers s)" "sent s' = sent s @ m" "set m \<subseteq> range SentClose"
    using assms(3) by (auto simp: reader_end_def Let_def split: if_splits)
  have r: "reader_ok ?t ?r" using assms(1,2) by (auto simp: pf_inv_def list_all_length)
  have c: "sized ?t" "idle_unused ?t" "tied (act ?t) (sockets s)" using assms(1) by (auto simp: pf_inv_def core_def)
  have l: "?i < length ?t" "?j < length (conns (?t ! ?i))" "?i < MAX_PF" "?j < MAX_PF_CONN" "quiet ?c"
    using r sized_nth [OF c(1)] by (auto simp: reader_ok_def)
  have a: "act ?t (?i, ?j) = (if active ?c then Some (pf_fd ?c, rname ?t ?r) else None)"
    using l by (simp add: act_def rslot_def rname_def)
  have "tied (act (upd_conn ?i ?j ?x ?t)) (close_fds (if pf_fd ?c \<ge> 0 then [pf_fd ?c] else []) (sockets s))"
  proof (rule tied_drop [OF c(3), where P = "{(?i, ?j)}"])
    show "act (upd_conn ?i ?j ?x ?t) p = (if p \<in> {(?i, ?j)} then None else act ?t p)" for p
      using l by (simp add: act_upd_conn)
    show "fd \<in> set (if pf_fd ?c \<ge> 0 then [pf_fd ?c] else []) \<longleftrightarrow> (\<exists>p n. p \<in> {(?i, ?j)} \<and> act ?t p = Some (fd, n))" for fd
      using a l(5) tied_act [OF c(3), of "(?i, ?j)"] by (cases "active ?c") (auto simp: quiet_def)
  qed
  moreover have k: "keeps ?t (upd_conn ?i ?j ?x ?t)" using l c by (intro keeps_upd_conn) (auto simp: quiet_def)
  ultimately have "core s'" using n by (auto intro: coreI)
  moreover have "reader_ok (g_pf s') q" if "q \<in> set (readers s')" for q
    using that assms(1,4) k readers_keep [of s s' q] unfolding n(1,3) pf_inv_def
    by (auto simp: dest: in_set_takeD in_set_dropD)
  ultimately show ?thesis using assms(1) n(4,5) by (auto simp: pf_inv_def list_all_iff sent_ok_def)
qed

lemma pf_init_inv: "pf_inv pf_init"
  by (auto simp: pf_inv_def core_def pf_init_def sized_def idle_unused_def tied_def act_def list_all_length)

lemma command_frame [simp]:
  "readers (fst (ctc_pf_open sck fid lh lp s)) = readers s" "sent (fst (ctc_pf_open sck fid lh lp s)) = sent s"
  "readers (ctc_pf_close fid s) = readers s" "sent (ctc_pf_close fid s) = sent s"
  "readers (ctc_pf_close_all s) = readers s" "sent (ctc_pf_close_all s) = sent s"
  "readers (ctc_pf_conn_close fid cid s) = readers s" "sent (ctc_pf_conn_close fid cid s) = sent s"
  by (simp_all add: ctc_pf_open_def ctc_pf_close_def ctc_pf_close_all_def ctc_pf_conn_close_def Let_def split: option.split prod.split)

lemma accept_inv:
  assumes "pf_inv s" "sockets s (new_fd e) = None" "calm s (fst (ctc_pf_accept_conn e fid cid s))"
  shows "pf_inv (fst (ctc_pf_accept_conn e fid cid s))"
proof -
  let ?s' = "fst (ctc_pf_accept_conn e fid cid s)"
  have c: "core s" using assms(1) by (simp add: pf_inv_def)
  note a = pf_accept_core [OF c assms(2), of fid cid]
  have "sent ?s' = sent s"
    by (cases rule: pf_accept_cases [of e fid cid s]) (simp_all add: linked_def)
  moreover have "reader_ok (g_pf ?s') r" if "r \<in> set (readers ?s')" for r
  proof (cases "r \<in> set (readers s)")
    case True
    have "list_all (reader_ok (g_pf s)) (readers s)" using assms(1) by (simp add: pf_inv_def)
    from readers_keep [OF this _ assms(3) True] a show ?thesis by blast
  next
    case False
    with a that have "r_ctx r < MAX_PF" "r_conn r < MAX_PF_CONN" "r_from r = None" "quiet (rslot (g_pf ?s') r)" by blast+
    then show ?thesis by (simp add: reader_ok_def)
  qed
  ultimately show ?thesis using a assms(1) by (simp add: pf_inv_def list_all_iff)
qed

lemma pf_step_inv: "pf_step s s' \<Longrightarrow> pf_inv s \<Longrightarrow> calm s s' \<Longrightarrow> pf_inv s'"
proof (induction rule: pf_step.induct)
  case (1 s sck fid lh lp)
  show ?case by (rule command_inv [OF 1(1) pf_open_core 1(2)]) (use 1 in \<open>simp_all add: pf_inv_def\<close>)
next
  case (2 s fid)
  show ?case by (rule command_inv [OF 2(1) pf_close_core 2(2)]) (use 2 in \<open>simp_all add: pf_inv_def\<close>)
next
  case (3 s)
  show ?case by (rule command_inv [OF 3(1) pf_close_all_core 3(2)]) (use 3 in \<open>simp_all add: pf_inv_def\<close>)
next
  case (4 s fid cid)
  show ?case by (rule command_inv [OF 4(1) pf_conn_close_core 4(2)]) (use 4 in \<open>simp_all add: pf_inv_def\<close>)
next
  case (5 s e fid cid)
  show ?case by (rule accept_inv [OF 5(2,1,3)])
next
  case (6 k s s')
  show ?case by (rule reader_call_inv [OF 6(3,1,2)])
next
  case (7 k s data s')
  show ?case by (rule reader_data_inv [OF 7(3,1,2)])
next
  case (8 k s s')
  show ?case by (rule reader_end_inv [OF 8(3,1,2,4)])
qed

lemma calm_run_inv: "pf_run calm s \<Longrightarrow> pf_inv s"
  by (induction rule: pf_run.induct) (blast intro: pf_init_inv pf_step_inv)+

subsection \<open>Names fit their arrays\<close>

definition typed :: "pf_ctx list \<Rightarrow> bool" where
  "typed t \<longleftrightarrow> list_all (\<lambda>c. length (forward_id c) < 64 \<and> length (local_host c) < 64 \<and>
     list_all (\<lambda>x. length (conn_id x) < 48) (conns c)) t"

definition name_ok :: "pf_name \<Rightarrow> bool" where
  "name_ok n \<longleftrightarrow> length (fst n) < 64 \<and> length (snd n) < 48"

definition sent_name_ok :: "pf_sent \<Rightarrow> bool" where
  "sent_name_ok m = (case m of SentData n d t \<Rightarrow> name_ok n | SentClose t \<Rightarrow> True)"

definition names_ok :: "pf_sys \<Rightarrow> bool" where
  "names_ok s \<longleftrightarrow> typed (g_pf s) \<and> (\<forall>fd n. sockets s fd = Some n \<longrightarrow> name_ok n) \<and>
     (\<forall>r n. r \<in> set (readers s) \<longrightarrow> r_from r = Some n \<longrightarrow> name_ok n) \<and> list_all sent_name_ok (sent s)"

lemma typed_update:
  "typed t \<Longrightarrow> length (forward_id c) < 64 \<Longrightarrow> length (local_host c) < 64 \<Longrightarrow> list_all (\<lambda>x. length (conn_id x) < 48) (conns c) \<Longrightarrow>
     typed (t[i := c])"
  unfolding typed_def list_all_iff using set_update_subset_insert [of t i c] by fast

lemma typed_nth:
  "typed t \<Longrightarrow> i < length t \<Longrightarrow> length (forward_id (t ! i)) < 64 \<and> length (local_host (t ! i)) < 64 \<and>
     list_all (\<lambda>x. length (conn_id x) < 48) (conns (t ! i))"
  by (simp add: typed_def list_all_length)

lemma typed_upd_conn:
  assumes "typed t" "length (conn_id c) < 48"
  shows "typed (upd_conn i j c t)"
proof (cases "i < length t")
  case True
  have "list_all (\<lambda>x. length (conn_id x) < 48) ((conns (t ! i))[j := c])"
    using typed_nth [OF assms(1) True] assms(2) set_update_subset_insert [of "conns (t ! i)" j c]
    unfolding list_all_iff by blast
  then show ?thesis using typed_nth [OF assms(1) True] assms(1) unfolding upd_conn_def
    by (intro typed_update) simp_all
qed (use assms in \<open>simp add: upd_conn_def list_update_beyond\<close>)

lemma typed_close_ctx: "typed t \<Longrightarrow> i < length t \<Longrightarrow> typed (t[i := close_ctx (t ! i)])"
  using typed_nth [of t i] by (intro typed_update) (auto simp: close_ctx_def list_all_iff)

lemma names_ok_closed:
  "names_ok s \<Longrightarrow> typed t \<Longrightarrow> names_ok (s\<lparr>g_pf := t, sockets := close_fds fds (sockets s)\<rparr>)"
  by (auto simp: names_ok_def close_fds_def split: if_splits)

lemma conn_typed: "typed t \<Longrightarrow> i < length t \<Longrightarrow> j < length (conns (t ! i)) \<Longrightarrow> length (conn_id (conns (t ! i) ! j)) < 48"
  using typed_nth [of t i] by (auto simp: list_all_length)

lemma names_ok_commands:
  assumes "names_ok s"
  shows "names_ok (fst (ctc_pf_open sck fid lh lp s))" "names_ok (ctc_pf_close fid s)" "names_ok (ctc_pf_close_all s)"
    "names_ok (ctc_pf_conn_close fid cid s)"
proof -
  have t: "typed (g_pf s)" using assms by (simp add: names_ok_def)
  show "names_ok (fst (ctc_pf_open sck fid lh lp s))"
    using assms t unfolding ctc_pf_open_def names_ok_def
    by (auto split: option.splits intro!: typed_update simp: no_conn_def list_all_length)
  show "names_ok (ctc_pf_close fid s)"
    using assms names_ok_closed [OF assms typed_close_ctx [OF t]] unfolding ctc_pf_close_def
    by (auto split: option.splits simp: find_slot_Some)
  have "typed (map (\<lambda>c. if pf_used c then close_ctx c else c) (g_pf s))"
    using t by (auto simp: typed_def list_all_iff close_ctx_def)
  then show "names_ok (ctc_pf_close_all s)" unfolding ctc_pf_close_all_def by (rule names_ok_closed [OF assms])
  show "names_ok (ctc_pf_conn_close fid cid s)"
  proof (cases "find_conn fid cid (g_pf s)")
    case (Some p)
    then obtain i j where p: "find_conn fid cid (g_pf s) = Some (i, j)" by (cases p) simp
    have "typed (upd_conn i j (shut (conns (g_pf s ! i) ! j)) (g_pf s))"
      using find_conn_Some [OF p] conn_typed [OF t, of i j] by (intro typed_upd_conn [OF t]) simp
    then show ?thesis using p names_ok_closed [OF assms] by (simp add: ctc_pf_conn_close_def Let_def)
  qed (use assms in \<open>simp add: ctc_pf_conn_close_def\<close>)
qed

lemma names_ok_accept: "names_ok s \<Longrightarrow> names_ok (fst (ctc_pf_accept_conn e fid cid s))"
proof (cases "find_slot (\<lambda>c. pf_used c \<and> forward_id c = fid) (g_pf s)")
  case (Some i)
  assume n: "names_ok s"
  then have t: "typed (g_pf s)" by (simp add: names_ok_def)
  have l: "length (forward_id (g_pf s ! i)) < 64" using typed_nth [OF t, of i] Some by (simp add: find_slot_Some)
  have u: "length (conn_id c) < 48 \<Longrightarrow> typed (upd_conn i j c (g_pf s))" for j c by (rule typed_upd_conn [OF t])
  have a: "names_ok (s\<lparr>g_pf := t'\<rparr>)" if "typed t'" for t' using n that by (simp add: names_ok_def)
  have "names_ok (linked e cid i j s)" for j
    using n l u [of "\<lparr>conn_id = snprintf_s 48 cid, pf_fd = new_fd e, active = True\<rparr>" j]
    by (auto simp: linked_def names_ok_def name_ok_def)
  then show ?thesis using Some n a [OF u]
    by (auto simp: ctc_pf_accept_conn_def pf_connect_def Let_def linked_def [symmetric] split: option.splits)
qed (simp add: ctc_pf_accept_conn_def)

lemma names_ok_readers:
  assumes "names_ok s" "k < length (readers s)"
  shows "reader_call k s = Some s' \<Longrightarrow> names_ok s'" "reader_data k go data s = Some s' \<Longrightarrow> names_ok s'"
proof -
  have u: "r \<in> set ((readers s)[k := x]) \<Longrightarrow> r = x \<or> r \<in> set (readers s)" for r x
    using set_update_subset_insert [of "readers s" k x] by blast
  have f: "r_from (readers s ! k) = Some n \<Longrightarrow> name_ok n" for n
    using assms(1) nth_mem [OF assms(2)] unfolding names_ok_def by blast
  show "reader_call k s = Some s' \<Longrightarrow> names_ok s'"
    using assms(1) by (auto simp: reader_call_def names_ok_def Let_def dest!: u split: if_splits option.splits)
  show "reader_data k go data s = Some s' \<Longrightarrow> names_ok s'"
    using assms(1) f by (auto simp: reader_data_def names_ok_def Let_def sent_name_ok_def dest!: u split: option.splits if_splits)
qed

lemma names_ok_end:
  assumes "names_ok s" "pf_inv s" "k < length (readers s)" "reader_end k go s = Some s'"
  shows "names_ok s'"
proof -
  let ?r = "readers s ! k"
  have "reader_ok (g_pf s) ?r" "sized (g_pf s)" using assms(2,3) by (auto simp: pf_inv_def core_def list_all_length)
  then have "length (conn_id (rslot (g_pf s) ?r)) < 48"
    using sized_nth [of "g_pf s" "r_ctx ?r"] conn_typed [of "g_pf s" "r_ctx ?r" "r_conn ?r"] assms(1)
    by (auto simp: reader_ok_def rslot_def names_ok_def)
  then have "typed (upd_conn (r_ctx ?r) (r_conn ?r)
     ((rslot (g_pf s) ?r)\<lparr>pf_fd := x, active := False\<rparr>) (g_pf s))" for x
    using assms(1) by (intro typed_upd_conn) (simp_all add: names_ok_def)
  moreover let ?c = "rslot (g_pf s) ?r"
  obtain m where "g_pf s' = upd_conn (r_ctx ?r) (r_conn ?r)
       (?c\<lparr>pf_fd := (if pf_fd ?c \<ge> 0 then -1 else pf_fd ?c), active := False\<rparr>) (g_pf s)"
    "sockets s' = close_fds (if pf_fd ?c \<ge> 0 then [pf_fd ?c] else []) (sockets s)" "readers s' = take k (readers s) @ drop (Suc k) (readers s)"
    "sent s' = sent s @ m" "set m \<subseteq> range SentClose"
    using assms(4) by (auto simp: reader_end_def Let_def split: if_splits)
  ultimately show ?thesis using assms(1) unfolding names_ok_def
    by (auto simp del: fun_upd_apply simp: close_fds_def sent_name_ok_def list_all_iff dest: in_set_takeD in_set_dropD split: if_splits)
qed

lemma names_ok_step: "pf_step s s' \<Longrightarrow> names_ok s \<Longrightarrow> pf_inv s \<Longrightarrow> names_ok s'"
  by (induction rule: pf_step.induct)
     (blast intro: names_ok_commands names_ok_accept names_ok_readers names_ok_end)+

lemma names_ok_init: "names_ok pf_init"
  by (simp add: names_ok_def pf_init_def typed_def list_all_length)

lemma calm_run_names: "pf_run calm s \<Longrightarrow> names_ok s"
  by (induction rule: pf_run.induct) (blast intro: names_ok_init names_ok_step calm_run_inv)+

lemma pf_data_text_reads:
  assumes "plain fid" "plain cid" "length fid < 64" "length cid < 48" "length (b64_spec data) < n"
  defines "t \<equiv> pf_data_text fid cid (b64_spec data)"
  shows "ctc_json_get_string t ''forward_id'' 64 = Ret (Some fid)" "ctc_json_get_string t ''conn_id'' 48 = Ret (Some cid)"
    "ctc_json_get_string t ''data_base64'' n = Ret (Some (b64_spec data))"
proof -
  let ?u = "CHR ''{'' # json_str_field ''forward_id'' fid @ '','' @ json_str_field ''conn_id'' cid @ '','' @
          json_str_field ''data_base64'' (b64_spec data) @ ''}''"
  have "length ?u < length (b64_spec data) + 256" using assms(3,4) by (simp add: json_str_field_def)
  then have t: "t = ?u" by (simp add: t_def pf_data_text_def)
  show "ctc_json_get_string t ''forward_id'' 64 = Ret (Some fid)" "ctc_json_get_string t ''conn_id'' 48 = Ret (Some cid)"
    "ctc_json_get_string t ''data_base64'' n = Ret (Some (b64_spec data))"
    using assms(1-5) unfolding t
    by (simp_all add: ctc_json_get_string_def find_key_comma find_key_str isspace_def get_loop_plain)
qed

subsection \<open>Who said what\<close>


lemma find_slot_replicate [simp]: "find_slot P (replicate n x) = (if 0 < n \<and> P x then Some 0 else None)"
  by (induction n) auto

text \<open>The commands and thread steps of a small session: two connections one after the other.\<close>

definition pf_yes :: "int \<Rightarrow> pf_env" where
  "pf_yes fd = \<lparr>new_fd = fd, host_ok = True, connect_ok = True, thread_ok = True\<rparr>"

definition session1 :: pf_sys where
  "session1 = fst (ctc_pf_accept_conn (pf_yes 5) ''f'' ''a'' (fst (ctc_pf_open 3 ''f'' [] 80 pf_init)))"

definition ctx1 :: "pf_conn \<Rightarrow> pf_ctx" where
  "ctx1 c = \<lparr>forward_id = ''f'', local_host = ''127.0.0.1'', local_port = 80, pf_sock = 3,
     conns = (replicate MAX_PF_CONN no_conn)[0 := c], pf_used = True\<rparr>"

definition tab1 :: "pf_conn \<Rightarrow> pf_ctx list" where
  "tab1 c = (g_pf pf_init)[0 := ctx1 c]"

lemma session1_state:
  "session1 = \<lparr>g_pf = tab1 \<lparr>conn_id = ''a'', pf_fd = 5, active = True\<rparr>, sockets = [5 \<mapsto> (''f'', ''a'')],
     readers = [\<lparr>r_ctx = 0, r_conn = 0, r_from = None\<rparr>], sent = []\<rparr>"
  by (simp add: session1_def ctc_pf_accept_conn_def pf_connect_def pf_yes_def ctc_pf_open_def pf_init_def tab1_def ctx1_def
      upd_conn_def no_conn_def MAX_PF_def MAX_PF_CONN_def numeral_eq_Suc)

definition blocked :: pf_sys where
  "blocked = session1\<lparr>readers := [\<lparr>r_ctx = 0, r_conn = 0, r_from = Some (''f'', ''a'')\<rparr>]\<rparr>"

lemma rslot_tab1: "pf_sock (tab1 c ! 0) = 3" "rslot (tab1 c) \<lparr>r_ctx = 0, r_conn = 0, r_from = x\<rparr> = c" "forward_id (tab1 c ! 0) = ''f''"
  by (simp_all add: rslot_def tab1_def ctx1_def pf_init_def MAX_PF_def MAX_PF_CONN_def)

lemma session1_run:
  assumes "\<And>s s'. readers s = [] \<Longrightarrow> C s s'" "C session1 blocked"
  shows "pf_run C blocked"
proof -
  let ?o = "fst (ctc_pf_open 3 ''f'' [] 80 pf_init)"
  have "pf_run C ?o"
    by (rule pf_run.intros(2) [OF pf_run.intros(1) pf_step.intros(1)]) (use assms(1) in \<open>simp add: pf_init_def\<close>)
  moreover have "pf_step ?o session1"
    unfolding session1_def by (rule pf_step.intros(5)) (simp add: ctc_pf_open_def pf_init_def split: option.split)
  ultimately have "pf_run C session1"
    by (rule pf_run.intros(2)) (use assms(1) in \<open>simp add: pf_init_def\<close>)
  moreover have "reader_call 0 session1 = Some blocked"
    by (simp add: reader_call_def blocked_def session1_state rslot_tab1)
  then have "pf_step session1 blocked" by (rule pf_step.intros(6) [rotated]) (simp add: session1_state)
  ultimately show ?thesis using assms(2) by (rule pf_run.intros(2))
qed


text \<open>
  C40.  A closed connection can speak as its successor: a reader that is blocked in \<open>read\<close> when the
  server closes its connection stays behind, the next connection gets the slot, and the bytes
  the old service sends then reach the server under the name of the new connection.
\<close>

theorem stale_reader_mislabels:
  "\<exists>s t. pf_run (\<lambda>_ _. True) s \<and> SentData (''f'', ''a'') ''x'' t \<in> set (sent s) \<and>
     ctc_json_get_string t ''conn_id'' 48 = Ret (Some ''b'')"
proof -
  let ?t = "pf_data_text ''f'' ''b'' (b64_spec ''x'')"
  let ?s1 = "ctc_pf_conn_close ''f'' ''a'' blocked"
  define s2 where "s2 = fst (ctc_pf_accept_conn (pf_yes 6) ''f'' ''b'' ?s1)"
  have r: "pf_run (\<lambda>_ _. True) blocked" by (rule session1_run) simp_all
  then have "pf_run (\<lambda>_ _. True) ?s1" by (rule pf_run.intros(2)) (simp_all add: pf_step.intros(4))
  moreover have f: "find_conn ''f'' ''a'' (g_pf blocked) = Some (0, 0)"
    by (simp add: find_conn_def blocked_def session1_state tab1_def ctx1_def pf_init_def MAX_PF_def MAX_PF_CONN_def numeral_eq_Suc)
  have s1: "?s1 = \<lparr>g_pf = tab1 \<lparr>conn_id = ''a'', pf_fd = -1, active = False\<rparr>, sockets = Map.empty,
     readers = readers blocked, sent = []\<rparr>"
    unfolding ctc_pf_conn_close_def f
    by (auto simp: blocked_def session1_state close_fds_def held_def shut_def upd_conn_def tab1_def ctx1_def pf_init_def
        MAX_PF_def MAX_PF_CONN_def numeral_eq_Suc fun_eq_iff)
  have t2: "g_pf s2 = tab1 \<lparr>conn_id = ''b'', pf_fd = 6, active = True\<rparr>"
    "readers s2 = readers blocked @ [\<lparr>r_ctx = 0, r_conn = 0, r_from = None\<rparr>]"
    unfolding s2_def s1
    by (simp_all add: ctc_pf_accept_conn_def pf_connect_def pf_yes_def tab1_def ctx1_def pf_init_def
        upd_conn_def no_conn_def MAX_PF_def MAX_PF_CONN_def numeral_eq_Suc)
  have "pf_step ?s1 s2" unfolding s2_def by (rule pf_step.intros(5)) (simp add: s1)
  with \<open>pf_run (\<lambda>_ _. True) ?s1\<close> have "pf_run (\<lambda>_ _. True) s2" by (rule pf_run.intros(2)) simp
  moreover obtain s where s: "reader_data 0 True ''x'' s2 = Some s" "SentData (''f'', ''a'') ''x'' ?t \<in> set (sent s)"
    by (simp add: reader_data_def t2 blocked_def rname_def rslot_tab1 ctc_base64_encode_spec Let_def)
  have "pf_step s2 s" by (rule pf_step.intros(7) [OF _ s(1)]) (simp add: t2 blocked_def)
  with \<open>pf_run (\<lambda>_ _. True) s2\<close> have "pf_run (\<lambda>_ _. True) s" by (rule pf_run.intros(2)) simp
  moreover have "ctc_json_get_string ?t ''conn_id'' 48 = Ret (Some ''b'')"
    by (rule pf_data_text_reads(2) [where n = "Suc (length (b64_spec ''x''))"]) simp_all
  ultimately show ?thesis using s(2) by blast
qed

end
