(* ===== verification/Files.thy ===== *)
theory Files
  imports AgentConfig Base64
begin

unbundle bit_operations_syntax

section \<open>Files on the agent (clients/src/files.c)\<close>

text \<open>
  Listing, reading, reading in ranges, writing, removing, creating and renaming files on behalf
  of the server.  The file system is a map from directory entries to nodes; \<open>fh_canon\<close> is the
  entry a path leads to, so that two spellings of one path name the same node (hard links are
  entries of their own).  What the kernel may refuse is a parameter of the model: \<open>fh_deny\<close>
  gives the \<open>errno\<close> of an \<open>fopen\<close> that fails, \<open>fh_room\<close> how many bytes of a write reach the
  disk, \<open>fh_mem\<close> which sizes \<open>malloc\<close> can serve and \<open>fh_mem64\<close> whether the allocation inside
  the Base64 routines succeeds for an input of that length.  Replies are the texts the agent sends back.
\<close>

subsection \<open>Paths\<close>

definition safe_path :: "string \<Rightarrow> nat \<Rightarrow> string option" where
  "safe_path path outlen =
     (if path = [] then None
      else
        let buf = snprintf_s 1024 (if hd path \<noteq> CHR ''/'' then CHR ''/'' # path else path) in
        if ''..'' \<in> set (strtok_all buf ''/'') then None else Some (snprintf_s outlen buf))"

subsection \<open>Nodes\<close>

record fnode =
  st_mode :: "32 word"
  st_size :: int
  st_mtime :: int
  node_bytes :: "byte list"

type_synonym disk = "string \<rightharpoonup> fnode"

record file_host =
  fh_canon :: "string \<Rightarrow> string"
  fh_deny :: "string \<Rightarrow> string \<Rightarrow> int option"
  fh_room :: "string \<Rightarrow> nat \<Rightarrow> nat"
  fh_mem :: "nat \<Rightarrow> bool"
  fh_mem64 :: "nat \<Rightarrow> bool"
  fh_seek :: "string \<Rightarrow> bool"
  fh_strerror :: "int \<Rightarrow> string"
  fh_newfile :: "32 word \<times> int"
  fh_entries :: "string \<Rightarrow> int + string list"
  fh_lstat :: "string \<Rightarrow> fnode option"

definition ENOENT :: int where "ENOENT = 2"

definition EISDIR :: int where "EISDIR = 21"

definition S_ISDIR :: "32 word \<Rightarrow> bool" where
  "S_ISDIR m \<longleftrightarrow> m AND 0xF000 = 0x4000"

definition S_ISLNK :: "32 word \<Rightarrow> bool" where
  "S_ISLNK m \<longleftrightarrow> m AND 0xF000 = 0xA000"

definition mode_str :: "32 word \<Rightarrow> string" where
  "mode_str m =
     (let f = (\<lambda>b c. if m AND b \<noteq> 0 then c else CHR ''-'') in
      [if S_ISDIR m then CHR ''d'' else if S_ISLNK m then CHR ''l'' else CHR ''-'',
       f 0x100 (CHR ''r''), f 0x80 (CHR ''w''), f 0x40 (CHR ''x''),
       f 0x20 (CHR ''r''), f 0x10 (CHR ''w''), f 0x8 (CHR ''x''),
       f 0x4 (CHR ''r''), f 0x2 (CHR ''w''), f 0x1 (CHR ''x'')])"

definition errno_reply :: "file_host \<Rightarrow> nat \<Rightarrow> int \<Rightarrow> string" where
  "errno_reply h n e = snprintf_s n (json_error (fh_strerror h e))"

definition fopen_rb :: "file_host \<Rightarrow> disk \<Rightarrow> string \<Rightarrow> int + fnode" where
  "fopen_rb h fs p =
     (case fh_deny h p ''rb'' of
        Some e \<Rightarrow> Inl e
      | None \<Rightarrow> (case fs (fh_canon h p) of None \<Rightarrow> Inl ENOENT | Some n \<Rightarrow> Inr n))"

subsection \<open>Listing a directory\<close>

text \<open>The escaped copy of a name in \<open>esc[512]\<close>.\<close>

fun esc_name :: "string \<Rightarrow> string \<Rightarrow> string" where
  "esc_name [] acc = acc"
| "esc_name (c # cs) acc =
     (if length acc + 2 < 512 then esc_name cs (acc @ (if c = DQ \<or> c = BSL then [BSL, c] else [c])) else acc)"

definition list_item :: "bool \<Rightarrow> string \<Rightarrow> string \<Rightarrow> fnode \<Rightarrow> string" where
  "list_item first nm full st =
     (if first then [] else '','') @ CHR ''{'' # json_str_field ''name'' (esc_name nm []) @ '','' @
       json_str_field ''path'' full @ '','' @
       json_raw_field ''is_dir'' (jbool (S_ISDIR (st_mode st))) @ '','' @
       json_raw_field ''size'' (show_int (st_size st)) @ '','' @
       json_str_field ''mode'' (mode_str (st_mode st)) @ '','' @
       json_raw_field ''mod_time'' (show_int (st_mtime st)) @ ''}''"

text \<open>
  The loop over the entries, with the bytes written to \<open>out\<close> and its capacity.  \<open>snprintf\<close>
  returns the length the item would have, and \<open>memcpy\<close> takes that many bytes from \<open>item[1024]\<close>.
\<close>

fun list_loop :: "file_host \<Rightarrow> string \<Rightarrow> string list \<Rightarrow> bool \<Rightarrow> nat \<Rightarrow> byte list \<Rightarrow> byte list outcome" where
  "list_loop h sp [] first cap out = Ret (out @ '']}'')"
| "list_loop h sp (nm # nms) first cap out =
     (if nm = ''.'' \<or> nm = ''..'' then list_loop h sp nms first cap out
      else
        let full = snprintf_s 1200 (sp @ (if last sp = CHR ''/'' then [] else ''/'') @ nm) in
        case fh_lstat h full of
          None \<Rightarrow> list_loop h sp nms first cap out
        | Some st \<Rightarrow>
            let item = list_item first nm full st;
                ilen = length item;
                grow = length out + ilen + 8 > cap;
                cap' = (if grow then cap * 2 else cap)
            in if grow \<and> \<not> fh_mem h cap' then Undef
               else if ilen > 1024 \<or> length out + ilen > cap' then Undef
               else list_loop h sp nms False cap' (out @ take ilen (snprintf_s 1024 item @ [NUL])))"

definition ctc_file_list_json :: "file_host \<Rightarrow> string \<Rightarrow> string outcome" where
  "ctc_file_list_json h path =
     (case safe_path path 1024 of
        None \<Rightarrow> Ret (json_error ''invalid path'')
      | Some sp \<Rightarrow>
          (case fh_entries h sp of
             Inl e \<Rightarrow> Ret (errno_reply h 128 e)
           | Inr nms \<Rightarrow>
               if \<not> fh_mem h 4096 then Undef
               else
                 and_then (list_loop h sp nms True 4096
                   (CHR ''{'' # json_str_field ''path'' sp @ '','' @ DQ # ''files'' @ DQ # '':[''))
                   (\<lambda>out. Ret (cstr out))))"

subsection \<open>Reading\<close>

definition CHUNK_MAX :: int where "CHUNK_MAX = 4 * 1024 * 1024"

definition read_reply :: "string \<Rightarrow> int \<Rightarrow> string \<Rightarrow> bool \<Rightarrow> int \<Rightarrow> string" where
  "read_reply sp sz b64 truncated got =
     CHR ''{'' # json_str_field ''path'' sp @ '','' @ json_raw_field ''size'' (show_int sz) @ '','' @
       json_str_field ''content_base64'' b64 @ '','' @ json_raw_field ''truncated'' (jbool truncated) @ '','' @
       json_raw_field ''offset'' ''0'' @ '','' @ json_raw_field ''next_offset'' (show_int got) @ ''}''"

definition ctc_file_read_json :: "file_host \<Rightarrow> disk \<Rightarrow> string \<Rightarrow> string outcome" where
  "ctc_file_read_json h fs path =
     (case safe_path path 1024 of
        None \<Rightarrow> Ret (json_error ''invalid path'')
      | Some sp \<Rightarrow>
          (case fopen_rb h fs sp of
             Inl e \<Rightarrow> Ret (errno_reply h 160 e)
           | Inr st \<Rightarrow>
               if S_ISDIR (st_mode st) then Ret (json_error ''is a directory'')
               else
                 let want = min (st_size st) CHUNK_MAX in
                 if \<not> fh_mem h (nat want + 1) then Ret (json_error ''oom'')
                 else
                   let data = take (nat want) (node_bytes st); got = int (length data) in
                   case ctc_base64_encode (fh_mem64 h (length data)) data of
                     None \<Rightarrow> Undef
                   | Some b64 \<Rightarrow>
                       let cap = length b64 + 320 in
                       if \<not> fh_mem h cap then Undef
                       else Ret (snprintf_s cap (read_reply sp (st_size st) b64 (st_size st > got) got))))"

definition range_reply :: "string \<Rightarrow> int \<Rightarrow> int \<Rightarrow> int \<Rightarrow> bool \<Rightarrow> string \<Rightarrow> string" where
  "range_reply sp sz off nxt fin b64 =
     CHR ''{'' # json_str_field ''path'' sp @ '','' @ json_raw_field ''size'' (show_int sz) @ '','' @
       json_raw_field ''offset'' (show_int off) @ '','' @ json_raw_field ''next_offset'' (show_int nxt) @ '','' @
       json_raw_field ''done'' (jbool fin) @ '','' @ json_str_field ''content_base64'' b64 @ ''}''"

definition ctc_file_read_range_json :: "file_host \<Rightarrow> disk \<Rightarrow> string \<Rightarrow> int \<Rightarrow> int \<Rightarrow> string outcome" where
  "ctc_file_read_range_json h fs path offset limit =
     (case safe_path path 1024 of
        None \<Rightarrow> Ret (json_error ''invalid path'')
      | Some sp \<Rightarrow>
          (case fopen_rb h fs sp of
             Inl e \<Rightarrow> Ret (errno_reply h 160 e)
           | Inr st \<Rightarrow>
               if S_ISDIR (st_mode st) then Ret (json_error ''is a directory'')
               else
                 let offset = (if offset < 0 then 0 else offset);
                     offset = (if offset > st_size st then st_size st else offset);
                     limit = (if limit \<le> 0 \<or> limit > CHUNK_MAX then CHUNK_MAX else limit);
                     remain = st_size st - offset;
                     limit = (if limit > remain then remain else limit)
                 in if \<not> fh_seek h sp then Ret (json_error ''seek failed'')
                    else if \<not> fh_mem h (nat limit + 1) then Ret (json_error ''oom'')
                    else
                      let data = take (nat limit) (drop (nat offset) (node_bytes st)) in
                      case ctc_base64_encode (fh_mem64 h (length data)) data of
                        None \<Rightarrow> Undef
                      | Some b64 \<Rightarrow>
                          let nxt = offset + int (length data); cap = length b64 + 384 in
                          if \<not> fh_mem h cap then Undef
                          else Ret (snprintf_s cap
                                 (range_reply sp (st_size st) offset nxt (nxt \<ge> st_size st) b64))))"

subsection \<open>Writing\<close>

definition written :: string where
  "written = CHR ''{'' # json_raw_field ''ok'' ''true'' @ '','' @ json_str_field ''message'' ''written'' @ ''}''"

definition fopen_w :: "file_host \<Rightarrow> disk \<Rightarrow> string \<Rightarrow> bool \<Rightarrow> int + fnode" where
  "fopen_w h fs p app =
     (case fh_deny h p (if app then ''ab'' else ''wb'') of
        Some e \<Rightarrow> Inl e
      | None \<Rightarrow>
          (case fs (fh_canon h p) of
             None \<Rightarrow> Inr \<lparr>st_mode = fst (fh_newfile h), st_size = 0, st_mtime = snd (fh_newfile h), node_bytes = []\<rparr>
           | Some n \<Rightarrow>
               if S_ISDIR (st_mode n) then Inl EISDIR
               else Inr (if app then n else n\<lparr>st_size := 0, node_bytes := []\<rparr>)))"

definition fwrite_node :: "nat \<Rightarrow> byte list \<Rightarrow> int \<Rightarrow> fnode \<Rightarrow> fnode" where
  "fwrite_node room data now n =
     (let b = node_bytes n @ take room data in n\<lparr>node_bytes := b, st_size := int (length b), st_mtime := now\<rparr>)"

definition ctc_file_write_json :: "file_host \<Rightarrow> disk \<Rightarrow> string \<Rightarrow> (disk \<times> string) outcome" where
  "ctc_file_write_json h fs payload =
     (let b64cap = 16 * 1024 * 1024 in
      if \<not> fh_mem h b64cap then Ret (fs, json_error ''oom'')
      else
        and_then (ctc_json_get_string payload ''path'' 1024) (\<lambda>path.
          case path of
            None \<Rightarrow> Ret (fs, json_error ''missing path'')
          | Some path \<Rightarrow>
              and_then (ctc_json_get_string payload ''content_base64'' (b64cap - 4)) (\<lambda>b64.
                case b64 of
                  None \<Rightarrow> Ret (fs, json_error ''missing content_base64'')
                | Some b64 \<Rightarrow>
                    let app = (ctc_json_get_bool payload ''append'' 0 \<noteq> 0) in
                    case safe_path (cstr path) 1024 of
                      None \<Rightarrow> Ret (fs, json_error ''invalid path'')
                    | Some sp \<Rightarrow>
                        (case ctc_base64_decode (fh_mem64 h (length (cstr b64))) (cstr b64) of
                           None \<Rightarrow> Ret (fs, json_error ''bad base64'')
                         | Some data \<Rightarrow>
                             (case fopen_w h fs sp app of
                                Inl e \<Rightarrow> Ret (fs, errno_reply h 160 e)
                              | Inr n \<Rightarrow>
                                  Ret (fs(fh_canon h sp \<mapsto>
                                         fwrite_node (fh_room h sp (length data)) data (snd (fh_newfile h)) n),
                                       written))))))"

subsection \<open>Removing, creating and renaming\<close>

datatype fs_call = Remove string | Rmdir string | Mkdir string | Rename string string

text \<open>
  \<open>call\<close> is what the kernel makes of a call: the error number if it fails, and the disk after it.
\<close>

type_synonym fs_kernel = "fs_call \<Rightarrow> disk \<Rightarrow> int option \<times> disk"

definition rc_reply :: "file_host \<Rightarrow> int option \<times> disk \<Rightarrow> disk \<times> string" where
  "rc_reply h r =
     (snd r, case fst r of
               Some e \<Rightarrow> errno_reply h 160 e
             | None \<Rightarrow> CHR ''{'' # json_raw_field ''ok'' ''true'' @ ''}'')"

definition ctc_file_simple_json ::
  "file_host \<Rightarrow> fs_kernel \<Rightarrow> int \<Rightarrow> disk \<Rightarrow> string \<Rightarrow> string \<Rightarrow> (disk \<times> string) outcome"
where
  "ctc_file_simple_json h call errno fs action payload =
     (if action = ''delete'' then
        and_then (ctc_json_get_string payload ''path'' 1024) (\<lambda>a.
          case a of
            None \<Rightarrow> Ret (fs, json_error ''missing path'')
          | Some a \<Rightarrow>
              (case safe_path (cstr a) 1024 of
                 None \<Rightarrow> Ret (fs, json_error ''invalid path'')
               | Some sp \<Rightarrow>
                   let r = call (Remove sp) fs in
                   Ret (rc_reply h (if fst r = Some EISDIR then call (Rmdir sp) (snd r) else r))))
      else if action = ''mkdir'' then
        and_then (ctc_json_get_string payload ''path'' 1024) (\<lambda>a.
          case a of
            None \<Rightarrow> Ret (fs, json_error ''missing path'')
          | Some a \<Rightarrow>
              (case safe_path (cstr a) 1024 of
                 None \<Rightarrow> Ret (fs, json_error ''invalid path'')
               | Some sp \<Rightarrow> Ret (rc_reply h (call (Mkdir sp) fs))))
      else if action = ''rename'' then
        and_then (ctc_json_get_string payload ''from'' 1024) (\<lambda>a.
          case a of
            None \<Rightarrow> Ret (fs, json_error ''missing from/to'')
          | Some a \<Rightarrow>
              and_then (ctc_json_get_string payload ''to'' 1024) (\<lambda>b.
                case b of
                  None \<Rightarrow> Ret (fs, json_error ''missing from/to'')
                | Some b \<Rightarrow>
                    (case (safe_path (cstr a) 1024, safe_path (cstr b) 1024) of
                       (Some sf, Some st) \<Rightarrow> Ret (rc_reply h (call (Rename sf st) fs))
                     | _ \<Rightarrow> Ret (fs, json_error ''invalid path''))))
      else Ret (rc_reply h (Some errno, fs)))"

subsection \<open>Paths that may be used\<close>

lemma safe_path_Some:
  "safe_path p n = Some sp \<longleftrightarrow>
     p \<noteq> [] \<and> ''..'' \<notin> set (strtok_all (snprintf_s 1024 (if hd p \<noteq> CHR ''/'' then CHR ''/'' # p else p)) ''/'') \<and>
     sp = snprintf_s n (snprintf_s 1024 (if hd p \<noteq> CHR ''/'' then CHR ''/'' # p else p))"
  by (auto simp: safe_path_def Let_def)

lemma safe_path_1024:
  assumes "safe_path p 1024 = Some sp"
  shows "sp \<noteq> []" "hd sp = CHR ''/''" "length sp < 1024" "''..'' \<notin> set (strtok_all sp ''/'')"
    "safe_path sp 1024 = Some sp"
proof -
  from assms have sp: "sp = take 1023 (if hd p \<noteq> CHR ''/'' then CHR ''/'' # p else p)" "p \<noteq> []"
    "''..'' \<notin> set (strtok_all sp ''/'')"
    by (auto simp: safe_path_Some snprintf_s_def)
  then show a: "sp \<noteq> []" "hd sp = CHR ''/''" "length sp < 1024" "''..'' \<notin> set (strtok_all sp ''/'')" by auto
  then show "safe_path sp 1024 = Some sp" by (simp add: safe_path_Some)
qed

subsection \<open>Replies that can be read back\<close>

lemma skip_space_show_int: "dropWhile isspace (show_int i @ r) = show_int i @ r"
proof -
  have "\<not> isspace (hd (show_int i))" by (rule show_int_no_space [of _ i]) simp
  then show ?thesis by (cases "show_int i") (simp_all add: show_int_clean)
qed

lemma range_reply_fields:
  assumes "plain sp" "0 \<le> nxt" "nxt < 2 ^ 63" "length data < n"
  shows "ctc_json_get_string (range_reply sp sz off nxt fin (b64_spec data)) ''content_base64'' (4 * n)
           = Ret (Some (b64_spec data))"
    and "ctc_json_get_int (range_reply sp sz off nxt fin (b64_spec data)) ''next_offset'' 0 = nxt"
    and "ctc_json_get_bool (range_reply sp sz off nxt fin (b64_spec data)) ''done'' 0 = (if fin then 1 else 0)"
proof -
  note keys = range_reply_def find_key_comma find_key_str [OF _ _ assms(1)] find_key_raw
  have "length (b64_spec data) < 4 * n" using assms(4) by (simp add: b64_spec_length)
  then show "ctc_json_get_string (range_reply sp sz off nxt fin (b64_spec data)) ''content_base64'' (4 * n)
           = Ret (Some (b64_spec data))"
    by (simp add: ctc_json_get_string_def keys find_key_str isspace_def get_loop_plain)
  show "ctc_json_get_int (range_reply sp sz off nxt fin (b64_spec data)) ''next_offset'' 0 = nxt"
    using strtol10_show_int_stop [OF assms(2,3), of "CHR '',''"]
    by (simp add: ctc_json_get_int_def keys isdigit_def skip_space_show_int)
  show "ctc_json_get_bool (range_reply sp sz off nxt fin (b64_spec data)) ''done'' 0 = (if fin then 1 else 0)"
    by (simp add: ctc_json_get_bool_def keys jbool_def isspace_def)
qed

subsection \<open>Downloading a file in ranges\<close>

text \<open>Printable text that no JSON writer escapes.\<close>

definition json_char :: "char \<Rightarrow> bool" where
  "json_char c \<longleftrightarrow>
     32 \<le> (of_char c :: nat) \<and> (of_char c :: nat) < 127 \<and> c \<notin> set [DQ, BSL, CHR ''<'', CHR ''>'', CHR ''&'']"

definition json_text :: "string \<Rightarrow> bool" where
  "json_text s \<longleftrightarrow> list_all json_char s"

lemma json_char_not: "\<not> json_char DQ" "\<not> json_char BSL" "\<not> json_char NUL" "json_char CHR ''/''"
  by (simp_all add: json_char_def)

lemma json_text_plain: "json_text s \<Longrightarrow> plain s" "json_text s \<Longrightarrow> is_cstr s"
  using json_char_not by (auto simp only: json_text_def list_all_iff plain_def is_cstr_def)

definition readable :: "file_host \<Rightarrow> disk \<Rightarrow> string \<Rightarrow> byte list \<Rightarrow> bool" where
  "readable h fs path content \<longleftrightarrow>
     (\<exists>sp n. safe_path path 1024 = Some sp \<and> json_text sp \<and> length sp \<le> 200 \<and> fh_deny h sp ''rb'' = None \<and>
        fh_seek h sp \<and> fs (fh_canon h sp) = Some n \<and> \<not> S_ISDIR (st_mode n) \<and> node_bytes n = content \<and>
        st_size n = int (length content) \<and> int (length content) < 2 ^ 63 \<and> (\<forall>k. fh_mem h k \<and> fh_mem64 h k))"

definition range_len :: "nat \<Rightarrow> int \<Rightarrow> int \<Rightarrow> nat" where
  "range_len len off lim = nat (min (if lim \<le> 0 \<or> lim > CHUNK_MAX then CHUNK_MAX else lim) (int len - off))"

lemma range_reply_length:
  assumes "length sp \<le> 200" "0 \<le> sz" "sz < 2 ^ 63" "0 \<le> off" "off < 2 ^ 63" "0 \<le> nxt" "nxt < 2 ^ 63"
  shows "length (range_reply sp sz off nxt fin b) < length b + 384"
proof -
  have "length (jbool fin) \<le> 5" by (simp add: jbool_def)
  then show ?thesis
    using assms(1) length_show_int63 [OF assms(2,3)] length_show_int63 [OF assms(4,5)] length_show_int63 [OF assms(6,7)]
    by (simp add: range_reply_def json_str_field_def json_raw_field_def)
qed

lemma read_range_run:
  fixes lim :: int
  assumes "readable h fs path content" "0 \<le> off" "off \<le> int (length content)"
  defines "d \<equiv> take (range_len (length content) off lim) (drop (nat off) content)"
  shows "\<exists>sp. json_text sp \<and> ctc_file_read_range_json h fs path off lim
     = Ret (range_reply sp (int (length content)) off (off + int (length d))
              (off + int (length d) \<ge> int (length content)) (b64_spec d))"
proof -
  obtain sp n where sp: "safe_path path 1024 = Some sp" "json_text sp" "length sp \<le> 200" "fh_deny h sp ''rb'' = None"
    "fh_seek h sp" "fs (fh_canon h sp) = Some n" "\<not> S_ISDIR (st_mode n)" "node_bytes n = content"
    "st_size n = int (length content)" "int (length content) < 2 ^ 63" "\<And>k. fh_mem h k" "\<And>k. fh_mem64 h k"
    using assms(1) unfolding readable_def by blast
  have d: "off + int (length d) \<le> int (length content)" using assms(2,3) by (auto simp: d_def)
  define m where "m = (if lim \<le> 0 \<or> lim > CHUNK_MAX then CHUNK_MAX else lim)"
  have l: "(if y < x then y else x) = min y x" for x y :: int by auto
  have "d = take (nat (min (int (length content) - off) m)) (drop (nat off) content)"
    by (simp add: d_def range_len_def m_def [symmetric] min.commute)
  note dm = this [symmetric]
  have "length (range_reply sp (int (length content)) off (off + int (length d))
     (off + int (length d) \<ge> int (length content)) (b64_spec d)) < length (b64_spec d) + 384"
    by (rule range_reply_length) (use sp assms(2,3) d in auto)
  then show ?thesis
    using sp assms(2,3)
    by (intro exI [of _ sp])
       (simp add: ctc_file_read_range_json_def fopen_rb_def Let_def m_def [symmetric] l dm ctc_base64_encode_spec del: length_take)
qed

end
