(* ===== verification/Dispatch.thy ===== *)
theory Dispatch
  imports SysOps Upgrade Bridge Terminal PortForward Files
begin

section \<open>Commands of the server (clients/src/agent.c)\<close>

text \<open>
  \<open>handle_command\<close> looks at the type of a message, reads its arguments from the payload, calls the
  handler and sends the answer.  The state is what commands change: the configuration and its
  file, the disk, the terminals and the forwards.  What a command does on the way is a list of
  events.  The environment collects those of the handlers; the texts of the hardware, disk and
  audit reports are parameters.  The results of sending are not looked at by the code.
\<close>

record agent_st =
  a_cfg :: ctc_config
  a_conf :: fsys
  a_disk :: disk
  a_terms :: "term_session list"
  a_pf :: pf_sys

record agent_env =
  en_sh :: shell_host
  en_files :: file_host
  en_call :: fs_kernel
  en_errno :: int
  en_pty :: pty_env
  en_io :: io_answers
  en_pf :: pf_env
  en_bridge :: bridge_env
  en_child :: child_env
  en_exec :: exec_env
  en_upg :: upgrade_env
  en_now :: int
  en_localtime :: "string \<Rightarrow> int option"
  en_proc :: "string \<Rightarrow> byte list option"
  en_open :: "string \<Rightarrow> bool"
  en_rename :: bool
  en_mem :: bool
  en_mem64 :: "nat \<Rightarrow> bool"
  en_audit :: "string outcome"
  en_hardware :: "string outcome"
  en_disk_io :: "string outcome"
  en_fork :: bool

text \<open>A message with type, id, session and payload; an effect; bytes written; the work of a child.\<close>

datatype event =
  Sent string "string option" "string option" string
| Done effect
| Wrote int "byte list"
| Forked "effect list"

type_synonym command = "(agent_st \<times> event list \<times> string option) outcome option"

subsection \<open>Arguments\<close>

definition pget :: "string option \<Rightarrow> string \<Rightarrow> nat \<Rightarrow> string option outcome" where
  "pget payload key n =
     (case payload of
        None \<Rightarrow> Ret None
      | Some p \<Rightarrow> and_then (ctc_json_get_string p key n) (\<lambda>r. Ret (map_option cstr r)))"

definition ptext :: "string option \<Rightarrow> string \<Rightarrow> nat \<Rightarrow> string outcome" where
  "ptext payload key n = and_then (pget payload key n) (\<lambda>r. Ret (opt_text r))"

definition plong :: "string option \<Rightarrow> string \<Rightarrow> int \<Rightarrow> int" where
  "plong payload key d = (case payload of None \<Rightarrow> d | Some p \<Rightarrow> ctc_json_get_int p key d)"

definition as_int :: "int \<Rightarrow> int" where
  "as_int i = sint (word_of_int i :: 32 word)"

definition pint :: "string option \<Rightarrow> string \<Rightarrow> int \<Rightarrow> int" where
  "pint payload key d = (case payload of None \<Rightarrow> d | Some p \<Rightarrow> as_int (ctc_json_get_int p key d))"

definition or_empty :: "string option \<Rightarrow> string" where
  "or_empty payload = (case payload of None \<Rightarrow> ''{}'' | Some p \<Rightarrow> p)"

subsection \<open>Results\<close>

definition answer :: "agent_st \<Rightarrow> event list \<Rightarrow> string \<Rightarrow> (agent_st \<times> event list \<times> string option) outcome" where
  "answer st evs t = Ret (st, evs, Some t)"

definition of_text :: "agent_st \<Rightarrow> string outcome \<Rightarrow> (agent_st \<times> event list \<times> string option) outcome" where
  "of_text st r = and_then r (answer st [])"

definition of_reply :: "agent_st \<Rightarrow> reply \<Rightarrow> (agent_st \<times> event list \<times> string option) outcome" where
  "of_reply st r = and_then r (\<lambda>(effs, t). answer st (map Done effs) t)"

definition of_disk :: "agent_st \<Rightarrow> (disk \<times> string) outcome \<Rightarrow> (agent_st \<times> event list \<times> string option) outcome" where
  "of_disk st r = and_then r (\<lambda>(d, t). answer (st\<lparr>a_disk := d\<rparr>) [] t)"

definition bad_payload :: string where
  "bad_payload = json_error ''bad payload''"

definition log_text :: "int \<Rightarrow> string \<Rightarrow> string \<Rightarrow> string" where
  "log_text now level msg =
     snprintf_s 1024 (jobj [json_raw_field ''timestamp'' (show_int now), json_str_field ''level'' level,
       json_str_field ''message'' (concat (map (\<lambda>c. if c = DQ \<or> c = BSL then [BSL, c] else [c]) msg))])"

definition send_log :: "agent_env \<Rightarrow> string \<Rightarrow> string \<Rightarrow> event list outcome" where
  "send_log e level msg =
     (if \<not> sh_alloc (en_sh e) (length msg * 2 + 1) then Undef
      else Ret [Sent ''log'' None None (log_text (en_now e) level msg)])"

subsection \<open>Configuration and files\<close>

definition cmd_config_set :: "agent_env \<Rightarrow> string \<Rightarrow> string option \<Rightarrow> agent_st \<Rightarrow> (agent_st \<times> event list \<times> string option) outcome" where
  "cmd_config_set e path payload st =
     and_then (pget payload ''key'' 64) (\<lambda>key.
       case key of
         None \<Rightarrow> answer st [] bad_payload
       | Some key \<Rightarrow>
           and_then (pget payload ''value'' 256) (\<lambda>val.
             case val of
               None \<Rightarrow> answer st [] bad_payload
             | Some val \<Rightarrow>
                 (case ctc_config_set (a_cfg st) key val of
                    (cfg, rc) \<Rightarrow>
                      if rc = 0 then
                        let fs = fst (ctc_config_save (en_open e) (en_rename e) cfg path (a_conf st)) in
                        and_then (send_log e ''info'' ''config updated by server'') (\<lambda>evs.
                          answer (st\<lparr>a_cfg := cfg, a_conf := fs\<rparr>) evs (ok_message True ''updated''))
                      else answer (st\<lparr>a_cfg := cfg\<rparr>) [] (json_error ''unsupported key''))))"

definition cmd_file_read :: "agent_env \<Rightarrow> string option \<Rightarrow> agent_st \<Rightarrow> (agent_st \<times> event list \<times> string option) outcome" where
  "cmd_file_read e payload st =
     and_then (ptext payload ''path'' 1024) (\<lambda>path.
       let off = plong payload ''offset'' 0; lim = plong payload ''limit'' 0 in
       of_text st (if off > 0 \<or> lim > 0 then ctc_file_read_range_json (en_files e) (a_disk st) path off lim
                   else ctc_file_read_json (en_files e) (a_disk st) path))"

definition cmd_files :: "agent_env \<Rightarrow> string \<Rightarrow> string option \<Rightarrow> agent_st \<Rightarrow> (agent_st \<times> event list \<times> string option) outcome" where
  "cmd_files e t payload st =
     (let simple = (\<lambda>a. of_disk st (ctc_file_simple_json (en_files e) (en_call e) (en_errno e) (a_disk st) a (or_empty payload))) in
      if t = ''file_list'' then
        and_then (pget payload ''path'' 1024) (\<lambda>path.
          of_text st (ctc_file_list_json (en_files e) (case path of None \<Rightarrow> ''/'' | Some p \<Rightarrow> p)))
      else if t = ''file_read'' then cmd_file_read e payload st
      else if t = ''file_write'' then of_disk st (ctc_file_write_json (en_files e) (a_disk st) (or_empty payload))
      else if t = ''file_delete'' then simple ''delete''
      else if t = ''file_rename'' then simple ''rename''
      else simple ''mkdir'')"

subsection \<open>Administration\<close>

text \<open>Two arguments that must be present.\<close>

definition two_args ::
  "string option \<Rightarrow> string \<Rightarrow> nat \<Rightarrow> string \<Rightarrow> nat \<Rightarrow> agent_st \<Rightarrow> (string \<Rightarrow> string \<Rightarrow> reply)
     \<Rightarrow> (agent_st \<times> event list \<times> string option) outcome"
where
  "two_args payload k1 n1 k2 n2 st f =
     and_then (pget payload k1 n1) (\<lambda>a.
       case a of
         None \<Rightarrow> answer st [] bad_payload
       | Some a \<Rightarrow>
           and_then (pget payload k2 n2) (\<lambda>b.
             case b of None \<Rightarrow> answer st [] bad_payload | Some b \<Rightarrow> of_reply st (f a b)))"

definition cmd_admin :: "agent_env \<Rightarrow> string \<Rightarrow> string option \<Rightarrow> agent_st \<Rightarrow> (agent_st \<times> event list \<times> string option) outcome" where
  "cmd_admin e t payload st =
     (let h = en_sh e in
      if t = ''service_list'' then and_then (ptext payload ''filter'' 128) (\<lambda>f. of_reply st (ctc_service_list_json h f))
      else if t = ''service_action'' then two_args payload ''name'' 256 ''action'' 32 st (ctc_service_action_json h)
      else if t = ''pkg_updates'' then of_reply st (ctc_pkg_updates_json h)
      else if t = ''pkg_upgrade'' then
        of_reply st (ctc_pkg_upgrade_json h (case payload of
          None \<Rightarrow> None | Some p \<Rightarrow> if strstr p ''packages'' \<noteq> None then Some p else None))
      else if t = ''pkg_history'' then of_reply st (ctc_pkg_history_json h)
      else if t = ''security_audit'' then of_text st (en_audit e)
      else of_text st (ctc_pong_json h (en_now e) (plong payload ''timestamp'' 0)))"

definition lock_arg :: "string option \<Rightarrow> bool outcome" where
  "lock_arg payload =
     and_then (pget payload ''lock'' 8) (\<lambda>ls.
       Ret (case ls of None \<Rightarrow> True | Some s \<Rightarrow> s = ''true'' \<or> plong payload ''lock'' 1 \<noteq> 0))"

definition cmd_sys :: "agent_env \<Rightarrow> string \<Rightarrow> string option \<Rightarrow> agent_st \<Rightarrow> (agent_st \<times> event list \<times> string option) outcome" where
  "cmd_sys e t payload st =
     (let h = en_sh e in
      if t = ''sys_user_list'' then of_reply st (ctc_sys_user_list_json h)
      else if t = ''sys_user_passwd'' then
        two_args payload ''username'' 128 ''new_password'' 256 st (ctc_sys_user_passwd_json h (en_child e))
      else if t = ''sys_user_lock'' then
        and_then (ptext payload ''username'' 128) (\<lambda>un.
        and_then (lock_arg payload) (\<lambda>lock. of_reply st (ctc_sys_user_lock_json h un lock)))
      else if t = ''sys_log'' then
        and_then (ptext payload ''source'' 32) (\<lambda>source.
        and_then (ptext payload ''priority'' 32) (\<lambda>priority.
        and_then (ptext payload ''unit'' 128) (\<lambda>unit.
        and_then (ptext payload ''keyword'' 256) (\<lambda>keyword.
          of_reply st (ctc_sys_log_json h (en_localtime e) source priority unit keyword (pint payload ''lines'' 100))))))
      else if t = ''net_traffic'' then of_text st (ctc_net_traffic_json h (en_proc e) (en_now e))
      else of_reply st (ctc_net_conn_json h (en_now e)))"

definition cmd_docker :: "agent_env \<Rightarrow> string \<Rightarrow> string option \<Rightarrow> agent_st \<Rightarrow> (agent_st \<times> event list \<times> string option) outcome" where
  "cmd_docker e t payload st =
     (let h = en_sh e in
      if t = ''docker_list'' then of_reply st (ctc_docker_list_json h)
      else if t = ''docker_images'' then of_reply st (ctc_docker_images_json h)
      else if t = ''docker_action'' then two_args payload ''container_id'' 128 ''action'' 32 st (ctc_docker_action_json h)
      else if t = ''docker_inspect'' then
        and_then (ptext payload ''container_id'' 128) (\<lambda>cid. of_reply st (ctc_docker_inspect_json h cid))
      else if t = ''docker_create'' then of_reply st (ctc_docker_create_json h (or_empty payload))
      else if t = ''docker_compose'' then of_reply st (ctc_docker_compose_json h (or_empty payload))
      else
        and_then (ptext payload ''container_id'' 128) (\<lambda>cid.
          of_reply st (ctc_docker_logs_json h cid (pint payload ''lines'' 200))))"

subsection \<open>Tasks, commands, upgrade\<close>

text \<open>The answer to a task: the result of the command without its braces, behind the id of the task.\<close>

definition task_text :: "int \<Rightarrow> string \<Rightarrow> string \<Rightarrow> string" where
  "task_text now task_id r =
     snprintf_s 16384
       (if length r \<ge> 2 \<and> hd r = CHR ''{'' \<and> last r = CHR ''}''
        then CHR ''{'' # json_str_field ''task_id'' task_id @ '','' @ json_raw_field ''executed_at'' (show_int now) @ '',''
               @ butlast (tl r) @ ''}''
        else jobj [json_str_field ''task_id'' task_id, json_raw_field ''ok'' ''false'', json_raw_field ''exit_code'' ''-1'',
               json_raw_field ''executed_at'' (show_int now)])"

definition cmd_task_run :: "agent_env \<Rightarrow> string option \<Rightarrow> string option \<Rightarrow> agent_st \<Rightarrow> command" where
  "cmd_task_run e mid payload st =
     run_then (Some (ptext payload ''task_id'' 128)) (\<lambda>task_id.
     run_then (Some (ptext payload ''task_name'' 256)) (\<lambda>task_name.
     run_then (Some (ptext payload ''command'' 2048)) (\<lambda>cmd.
       if cmd = [] then Some (Ret (st, [], None))
       else
         run_then (ctc_cmd_exec_json (en_sh e) (en_exec e) cmd (pint payload ''timeout_sec'' 60) ''/bin/bash'') (\<lambda>(effs, r).
           Some (Ret (st, map Done effs @ [Sent ''task_result'' mid None (task_text (en_now e div 1000 * 1000) task_id r)], None))))))"

definition cmd_exec :: "agent_env \<Rightarrow> string option \<Rightarrow> agent_st \<Rightarrow> command" where
  "cmd_exec e payload st =
     run_then (Some (pget payload ''command'' 2048)) (\<lambda>cmd.
       case cmd of
         None \<Rightarrow> Some (answer st [] bad_payload)
       | Some cmd \<Rightarrow>
           run_then (Some (ptext payload ''shell'' 64)) (\<lambda>shell.
           run_then (Some (send_log e ''info'' ''remote command executed by server'')) (\<lambda>evs.
           run_then (ctc_cmd_exec_json (en_sh e) (en_exec e) cmd (pint payload ''timeout_sec'' 60) shell) (\<lambda>(effs, r).
             Some (answer st (evs @ map Done effs) r)))))"

definition cmd_upgrade :: "agent_env \<Rightarrow> string option \<Rightarrow> agent_st \<Rightarrow> (agent_st \<times> event list \<times> string option) outcome" where
  "cmd_upgrade e payload st =
     and_then (ptext payload ''url'' 1024) (\<lambda>url.
     and_then (ptext payload ''sha256'' 128) (\<lambda>sha.
     and_then (ptext payload ''version'' 64) (\<lambda>ver.
       of_reply st (Ret (ctc_upgrade_json (en_upg e) url sha ver)))))"

text \<open>The removal is acknowledged first and done by a child two seconds later.\<close>

definition cmd_uninstall :: "agent_env \<Rightarrow> string option \<Rightarrow> agent_st \<Rightarrow> (agent_st \<times> event list \<times> string option) outcome" where
  "cmd_uninstall e mid st =
     and_then (send_log e ''warn'' ''remote uninstall requested by server'') (\<lambda>evs.
       Ret (st, evs @ [Sent ''ack'' mid None (ok_message True ''uninstalling'')]
              @ (if en_fork e then [Forked ctc_do_uninstall] else []), None))"

subsection \<open>Forwarding and terminals\<close>

definition cmd_pf :: "agent_env \<Rightarrow> int \<Rightarrow> string \<Rightarrow> string option \<Rightarrow> agent_st \<Rightarrow> command" where
  "cmd_pf e fd t payload st =
     run_then (Some (ptext payload ''forward_id'' 64)) (\<lambda>fid.
       if t = ''pf_open'' then
         run_then (Some (ptext payload ''target_host'' 64)) (\<lambda>th.
         run_then (Some (ptext payload ''local_host'' 64)) (\<lambda>lh.
           let lp = pint payload ''local_port'' 0 in
           if fid \<noteq> [] \<and> lp > 0 then
             (case ctc_pf_open fd fid lh lp (a_pf st) of
                (pf, rc) \<Rightarrow> Some (answer (st\<lparr>a_pf := pf\<rparr>) []
                  (if rc = 0 then jobj [json_raw_field ''ok'' ''true''] else json_error ''pf open failed'')))
           else Some (answer st [] bad_payload)))
       else if t = ''pf_close'' then
         Some (answer (st\<lparr>a_pf := ctc_pf_close fid (a_pf st)\<rparr>) [] (jobj [json_raw_field ''ok'' ''true'']))
       else
         run_then (Some (ptext payload ''conn_id'' 48)) (\<lambda>cid.
           if t = ''pf_data'' then
             run_then (Some (ptext payload ''data_base64'' 65536)) (\<lambda>b64.
               if payload \<noteq> None \<and> ctc_json_get_bool (the payload) ''closed'' 0 \<noteq> 0
               then Some (Ret (st\<lparr>a_pf := ctc_pf_conn_close fid cid (a_pf st)\<rparr>, [], None))
               else
                 (case ctc_base64_decode (en_mem64 e (length b64)) b64 of
                    None \<Rightarrow> Some (Ret (st, [], None))
                  | Some data \<Rightarrow>
                      if data = [] then Some (Ret (st, [], None))
                      else map_option (\<lambda>(rc, w). Ret (st, (case w of None \<Rightarrow> [] | Some (f, out) \<Rightarrow> [Wrote f out]), None))
                             (ctc_pf_write (en_io e) fid cid data (a_pf st))))
           else Some (Ret (st\<lparr>a_pf := fst (ctc_pf_accept_conn (en_pf e) fid cid (a_pf st))\<rparr>, [], None))))"

definition cmd_terminal :: "agent_env \<Rightarrow> int \<Rightarrow> ctc_message \<Rightarrow> string \<Rightarrow> agent_st \<Rightarrow> command" where
  "cmd_terminal e fd msg t st =
     (let payload = msg_payload msg in
      if t = ''terminal_open'' then
        Some (Ret (st\<lparr>a_terms := fst (ctc_term_open (en_pty e) fd (case msg_session_id msg of None \<Rightarrow> ''t0'' | Some s \<Rightarrow> s)
          (pint payload ''cols'' 80) (pint payload ''rows'' 24) (a_terms st))\<rparr>, [], None))
      else if t = ''terminal_input'' then
        run_then (Some (pget payload ''data_base64'' 8192)) (\<lambda>b64.
          case b64 of
            None \<Rightarrow> Some (Ret (st, [], None))
          | Some b64 \<Rightarrow>
              (case ctc_base64_decode (en_mem64 e (length b64)) b64 of
                 None \<Rightarrow> Some (Ret (st, [], None))
               | Some data \<Rightarrow>
                   run_then (ctc_term_input (en_io e) (msg_session_id msg) data (a_terms st)) (\<lambda>(rc, w).
                     Some (Ret (st, (case w of None \<Rightarrow> [] | Some (f, out) \<Rightarrow> [Wrote f out]), None)))))
      else
        run_then (Some (ctc_term_close (msg_session_id msg) (a_terms st))) (\<lambda>(g, rc).
          Some (Ret (st\<lparr>a_terms := g\<rparr>, [], None))))"

subsection \<open>The daemon\<close>

definition need_module :: string where
  "need_module = json_error ''module name required''"

definition cmd_ctf :: "agent_env \<Rightarrow> string \<Rightarrow> string option \<Rightarrow> agent_st \<Rightarrow> (agent_st \<times> event list \<times> string option) outcome" where
  "cmd_ctf e t payload st =
     (let exec = (\<lambda>m p. answer st [] (ctc_ctforge_exec (en_bridge e) m p)) in
      if t = ''ctf_lsmod'' then exec ''lsmod'' []
      else if t = ''ctf_status'' then exec ''status'' []
      else
        and_then (pget payload ''module'' 256) (\<lambda>modname.
          case modname of
            None \<Rightarrow> answer st [] need_module
          | Some modname \<Rightarrow>
              if t = ''ctf_insmod'' then exec ''insmod'' modname
              else if t = ''ctf_rmmod'' then exec ''rmmod'' modname
              else and_then (ptext payload ''subcmd'' 512) (\<lambda>subcmd.
                exec ''mod'' (snprintf_s 768 (modname @ '' '' @ subcmd)))))"

subsection \<open>The dispatcher\<close>

definition terminal_types :: "string list" where
  "terminal_types = [''terminal_open'', ''terminal_input'', ''terminal_close'']"

definition file_types :: "string list" where
  "file_types = [''file_list'', ''file_read'', ''file_write'', ''file_delete'', ''file_rename'', ''file_mkdir'']"

definition admin_types :: "string list" where
  "admin_types = [''service_list'', ''service_action'', ''pkg_updates'', ''pkg_upgrade'', ''pkg_history'', ''security_audit'', ''ping'']"

definition sys_types :: "string list" where
  "sys_types = [''sys_user_list'', ''sys_user_passwd'', ''sys_user_lock'', ''sys_log'', ''net_traffic'', ''net_conn'']"

definition docker_types :: "string list" where
  "docker_types = [''docker_list'', ''docker_images'', ''docker_action'', ''docker_inspect'', ''docker_create'', ''docker_compose'', ''docker_logs'']"

definition pf_types :: "string list" where
  "pf_types = [''pf_open'', ''pf_close'', ''pf_data'', ''pf_accept'']"

definition ctf_types :: "string list" where
  "ctf_types = [''ctf_lsmod'', ''ctf_insmod'', ''ctf_rmmod'', ''ctf_mod'', ''ctf_status'']"

definition run_command :: "agent_env \<Rightarrow> int \<Rightarrow> string \<Rightarrow> ctc_message \<Rightarrow> string \<Rightarrow> agent_st \<Rightarrow> command" where
  "run_command e fd path msg t st =
     (let payload = msg_payload msg in
      if t \<in> set terminal_types then cmd_terminal e fd msg t st
      else if t = ''config_get'' then Some (Ret (st, [], ctc_config_to_json (en_mem e) (a_cfg st)))
      else if t = ''config_set'' then Some (cmd_config_set e path payload st)
      else if t \<in> set file_types then Some (cmd_files e t payload st)
      else if t \<in> set admin_types then Some (cmd_admin e t payload st)
      else if t \<in> set sys_types then Some (cmd_sys e t payload st)
      else if t = ''task_run'' then cmd_task_run e (msg_id msg) payload st
      else if t = ''hardware'' then Some (of_text st (en_hardware e))
      else if t = ''disk_io'' then Some (of_text st (en_disk_io e))
      else if t = ''upgrade'' then Some (cmd_upgrade e payload st)
      else if t \<in> set pf_types then cmd_pf e fd t payload st
      else if t \<in> set docker_types then Some (cmd_docker e t payload st)
      else if t = ''uninstall'' then Some (cmd_uninstall e (msg_id msg) st)
      else if t = ''cmd_exec'' then cmd_exec e payload st
      else if t \<in> set ctf_types then Some (cmd_ctf e t payload st)
      else Some (Ret (st, [], None)))"

definition reply_type :: "string \<Rightarrow> string \<Rightarrow> string" where
  "reply_type t result =
     (if t = ''ping'' then ''pong''
      else if is_prefix ''ctf_'' t then ''ack''
      else if strstr result (DQ # ''error'' @ [DQ]) \<noteq> None then ''error''
      else ''ack'')"

definition handle_command ::
  "agent_env \<Rightarrow> int \<Rightarrow> string \<Rightarrow> ctc_message \<Rightarrow> agent_st \<Rightarrow> (agent_st \<times> event list) outcome option"
where
  "handle_command e fd path msg st =
     (case msg_type msg of
        None \<Rightarrow> Some (Ret (st, []))
      | Some t \<Rightarrow>
          run_then (run_command e fd path msg t st) (\<lambda>(st, evs, result).
            Some (Ret (st, evs @ (case result of
                None \<Rightarrow> []
              | Some r \<Rightarrow> [Sent (reply_type t r) (msg_id msg) (msg_session_id msg) r])))))"

subsection \<open>Answers and what they leave alone\<close>

text \<open>Events that are no reply: everything but messages, and messages to the log.\<close>

definition quiet :: "event list \<Rightarrow> bool" where
  "quiet evs = list_all (\<lambda>v. case v of Sent t i s p \<Rightarrow> t = ''log'' | _ \<Rightarrow> True) evs"

lemma quiet_facts_event [simp]: "quiet []" "quiet (map Done effs)" "quiet (a @ b) \<longleftrightarrow> quiet a \<and> quiet b"
  by (auto simp: quiet_def list_all_iff)

text \<open>A command that returns does so with an answer and a state that satisfies \<open>P\<close>.\<close>

definition answers :: "(agent_st \<Rightarrow> bool) \<Rightarrow> (agent_st \<times> event list \<times> string option) outcome \<Rightarrow> bool" where
  "answers P x \<longleftrightarrow> (\<forall>st' evs r. x = Ret (st', evs, r) \<longrightarrow> P st' \<and> r \<noteq> None \<and> quiet evs)"

lemma answers_answer: "P st \<Longrightarrow> quiet evs \<Longrightarrow> answers P (answer st evs t)"
  by (simp add: answers_def answer_def)

lemma answers_then: "(\<And>x. m = Ret x \<Longrightarrow> answers P (f x)) \<Longrightarrow> answers P (and_then m f)"
  by (auto simp: answers_def and_then_Ret)

lemma answers_if: "(b \<Longrightarrow> answers P x) \<Longrightarrow> (\<not> b \<Longrightarrow> answers P y) \<Longrightarrow> answers P (if b then x else y)"
  by simp

lemma answers_option:
  "(r = None \<Longrightarrow> answers P x) \<Longrightarrow> (\<And>a. r = Some a \<Longrightarrow> answers P (f a)) \<Longrightarrow> answers P (case r of None \<Rightarrow> x | Some a \<Rightarrow> f a)"
  by (cases r) simp_all

lemma answers_pair: "(\<And>a b. r = (a, b) \<Longrightarrow> answers P (f a b)) \<Longrightarrow> answers P (case r of (a, b) \<Rightarrow> f a b)"
  by (cases r) simp

lemma answers_text: "P st \<Longrightarrow> answers P (of_text st r)"
  by (auto simp: of_text_def intro!: answers_then answers_answer)

lemma answers_reply: "P st \<Longrightarrow> answers P (of_reply st r)"
  by (auto simp: of_reply_def intro!: answers_then answers_answer answers_pair)

lemma answers_disk: "(\<And>d. P (st\<lparr>a_disk := d\<rparr>)) \<Longrightarrow> answers P (of_disk st r)"
  by (auto simp: of_disk_def intro!: answers_then answers_answer answers_pair)

lemma send_log_quiet: "send_log e l m = Ret evs \<Longrightarrow> quiet evs"
  by (auto simp: send_log_def quiet_def split: if_splits)

lemma answers_log: "(\<And>evs. quiet evs \<Longrightarrow> answers P (f evs)) \<Longrightarrow> answers P (and_then (send_log e l m) f)"
  by (rule answers_then) (simp add: send_log_quiet)

lemmas answers_intros = answers_log answers_then answers_if answers_option answers_pair answers_text answers_reply answers_answer answers_disk

lemma answers_two_args: "P st \<Longrightarrow> answers P (two_args payload k1 n1 k2 n2 st f)"
  unfolding two_args_def by (intro answers_intros) simp_all

lemma cmd_admin_answers: "P st \<Longrightarrow> answers P (cmd_admin e t payload st)"
  unfolding cmd_admin_def Let_def by (intro answers_intros answers_two_args)

lemma cmd_sys_answers: "P st \<Longrightarrow> answers P (cmd_sys e t payload st)"
  unfolding cmd_sys_def Let_def by (intro answers_intros answers_two_args)

lemma cmd_docker_answers: "P st \<Longrightarrow> answers P (cmd_docker e t payload st)"
  unfolding cmd_docker_def Let_def by (intro answers_intros answers_two_args)

lemma cmd_ctf_answers: "P st \<Longrightarrow> answers P (cmd_ctf e t payload st)"
  unfolding cmd_ctf_def Let_def by (intro answers_intros) simp_all

lemma cmd_upgrade_answers: "P st \<Longrightarrow> answers P (cmd_upgrade e payload st)"
  unfolding cmd_upgrade_def Let_def by (intro answers_intros)

lemma cmd_files_answers: "(\<And>d. P (st\<lparr>a_disk := d\<rparr>)) \<Longrightarrow> P st \<Longrightarrow> answers P (cmd_files e t payload st)"
  unfolding cmd_files_def cmd_file_read_def Let_def by (intro answers_intros)

lemma cmd_config_set_answers:
  assumes "P st" "\<And>k v. P (st\<lparr>a_cfg := fst (ctc_config_set (a_cfg st) k v)\<rparr>)"
    and "\<And>k v fs. P (st\<lparr>a_cfg := fst (ctc_config_set (a_cfg st) k v), a_conf := fs\<rparr>)"
  shows "answers P (cmd_config_set e path payload st)"
proof -
  have "P (st\<lparr>a_cfg := cfg\<rparr>)" "P (st\<lparr>a_cfg := cfg, a_conf := fs\<rparr>)"
    if "ctc_config_set (a_cfg st) k v = (cfg, rc)" for k v cfg rc fs
    using assms(2) [of k v] assms(3) [of fs k v] that by simp_all
  then show ?thesis unfolding cmd_config_set_def Let_def using assms(1) by (intro answers_intros) simp_all
qed

text \<open>The same of a command that may not return; \<open>ans\<close> tells whether it has to answer.\<close>

definition runs :: "bool \<Rightarrow> (agent_st \<Rightarrow> bool) \<Rightarrow> command \<Rightarrow> bool" where
  "runs ans P x \<longleftrightarrow> (\<forall>st' evs r. x = Some (Ret (st', evs, r)) \<longrightarrow> P st' \<and> (ans \<longrightarrow> r \<noteq> None \<and> quiet evs))"

lemma runs_answers: "answers P x \<Longrightarrow> runs ans P (Some x)"
  by (simp add: answers_def runs_def)

lemma runs_ret: "P st \<Longrightarrow> runs False P (Some (Ret (st, evs, r)))"
  by (simp add: runs_def)

lemma runs_then: "(\<And>x. m = Some (Ret x) \<Longrightarrow> runs ans P (f x)) \<Longrightarrow> runs ans P (run_then m f)"
  by (auto simp: runs_def run_then_Ret)

lemma runs_if: "(b \<Longrightarrow> runs ans P x) \<Longrightarrow> (\<not> b \<Longrightarrow> runs ans P y) \<Longrightarrow> runs ans P (if b then x else y)"
  by simp

lemma runs_option:
  "(r = None \<Longrightarrow> runs ans P x) \<Longrightarrow> (\<And>a. r = Some a \<Longrightarrow> runs ans P (f a)) \<Longrightarrow> runs ans P (case r of None \<Rightarrow> x | Some a \<Rightarrow> f a)"
  by (cases r) simp_all

lemma runs_pair: "(\<And>a b. r = (a, b) \<Longrightarrow> runs ans P (f a b)) \<Longrightarrow> runs ans P (case r of (a, b) \<Rightarrow> f a b)"
  by (cases r) simp

lemmas runs_intros = runs_then runs_if runs_option runs_pair runs_ret runs_answers

lemma cmd_exec_runs: "P st \<Longrightarrow> runs ans P (cmd_exec e payload st)"
  unfolding cmd_exec_def
  by (intro runs_then runs_option runs_pair runs_answers answers_answer) (auto intro: send_log_quiet)

lemma cmd_task_run_runs: "P st \<Longrightarrow> runs False P (cmd_task_run e mid payload st)"
  unfolding cmd_task_run_def by (intro runs_intros)

lemma cmd_uninstall_runs: "P st \<Longrightarrow> runs False P (Some (cmd_uninstall e mid st))"
  by (auto simp: runs_def cmd_uninstall_def and_then_Ret)

lemma cmd_terminal_runs: "P st \<Longrightarrow> (\<And>g. P (st\<lparr>a_terms := g\<rparr>)) \<Longrightarrow> runs False P (cmd_terminal e fd msg t st)"
  unfolding cmd_terminal_def Let_def by (intro runs_intros)

lemma runs_mapped: "P st \<Longrightarrow> runs False P (map_option (\<lambda>(a, b). Ret (st, f a b, r)) x)"
  by (auto simp: runs_def split: prod.splits)

lemma cmd_pf_runs:
  assumes "P st" "\<And>p. P (st\<lparr>a_pf := p\<rparr>)"
  shows "runs (t = ''pf_open'' \<or> t = ''pf_close'') P (cmd_pf e fd t payload st)"
proof (cases "t = ''pf_open'' \<or> t = ''pf_close''")
  case True
  then show ?thesis unfolding cmd_pf_def Let_def
    using assms by (intro runs_then runs_if runs_pair runs_answers answers_answer) auto
next
  case False
  then show ?thesis unfolding cmd_pf_def Let_def
    using assms by (simp, intro runs_then runs_if runs_option runs_ret runs_mapped)
qed

text \<open>What a command of a type may change.\<close>

definition confined :: "string \<Rightarrow> agent_st \<Rightarrow> agent_st \<Rightarrow> bool" where
  "confined t st st' \<longleftrightarrow>
     (t \<noteq> ''config_set'' \<longrightarrow> a_cfg st' = a_cfg st \<and> a_conf st' = a_conf st) \<and>
     (a_cfg st' = a_cfg st \<or> (\<exists>k v. a_cfg st' = fst (ctc_config_set (a_cfg st) k v))) \<and>
     (t \<notin> set file_types \<longrightarrow> a_disk st' = a_disk st) \<and>
     (t \<notin> set terminal_types \<longrightarrow> a_terms st' = a_terms st) \<and>
     (t \<notin> set pf_types \<longrightarrow> a_pf st' = a_pf st)"

definition answered_types :: "string list" where
  "answered_types = [''config_set'', ''hardware'', ''disk_io'', ''upgrade'', ''cmd_exec'', ''pf_open'', ''pf_close'']
     @ file_types @ admin_types @ sys_types @ docker_types @ ctf_types"

definition other_types :: "string list" where
  "other_types = [''config_get'', ''task_run'', ''uninstall'', ''pf_data'', ''pf_accept''] @ terminal_types"

lemmas type_lists = file_types_def admin_types_def sys_types_def docker_types_def ctf_types_def pf_types_def terminal_types_def

lemma confined_same: "confined t st st"
  by (simp add: confined_def)

lemma confined_disk: "t \<in> set file_types \<Longrightarrow> confined t st (st\<lparr>a_disk := d\<rparr>)"
  by (simp add: confined_def)

lemma confined_terms: "t \<in> set terminal_types \<Longrightarrow> confined t st (st\<lparr>a_terms := g\<rparr>)"
  by (simp add: confined_def)

lemma confined_pf: "t \<in> set pf_types \<Longrightarrow> confined t st (st\<lparr>a_pf := p\<rparr>)"
  by (simp add: confined_def)

lemma confined_cfg:
  "confined ''config_set'' st (st\<lparr>a_cfg := fst (ctc_config_set (a_cfg st) k v)\<rparr>)"
  "confined ''config_set'' st (st\<lparr>a_cfg := fst (ctc_config_set (a_cfg st) k v), a_conf := fs\<rparr>)"
  by (auto simp: confined_def)

lemma unanswered: "t \<in> set terminal_types \<Longrightarrow> t \<notin> set answered_types" "''task_run'' \<notin> set answered_types"
    "''uninstall'' \<notin> set answered_types" "''config_get'' \<notin> set answered_types"
    "t \<in> set pf_types \<Longrightarrow> t \<in> set answered_types \<longleftrightarrow> t = ''pf_open'' \<or> t = ''pf_close''"
  by (auto simp: answered_types_def type_lists)

lemma run_command_runs: "runs (t \<in> set answered_types) (confined t st) (run_command e fd path msg t st)"
  unfolding run_command_def Let_def
  apply (intro runs_if)
  subgoal using cmd_terminal_runs [of "confined t st" st] by (simp add: unanswered confined_same confined_terms)
  subgoal by (simp add: unanswered runs_ret confined_same)
  subgoal by (auto intro!: runs_answers cmd_config_set_answers confined_same confined_cfg)
  subgoal by (intro runs_answers cmd_files_answers confined_same confined_disk)
  subgoal by (intro runs_answers cmd_admin_answers confined_same)
  subgoal by (intro runs_answers cmd_sys_answers confined_same)
  subgoal by (simp add: unanswered cmd_task_run_runs confined_same)
  subgoal by (intro runs_answers answers_text confined_same)
  subgoal by (intro runs_answers answers_text confined_same)
  subgoal by (intro runs_answers cmd_upgrade_answers confined_same)
  subgoal using cmd_pf_runs [of "confined t st" st] by (simp add: unanswered confined_same confined_pf)
  subgoal by (intro runs_answers cmd_docker_answers confined_same)
  subgoal by (simp add: unanswered cmd_uninstall_runs confined_same)
  subgoal by (intro cmd_exec_runs confined_same)
  subgoal by (intro runs_answers cmd_ctf_answers confined_same)
  subgoal by (auto simp: runs_def confined_same answered_types_def type_lists)
  done

subsection \<open>Properties\<close>


definition sample_agent :: agent_env where
  "sample_agent =
     \<lparr>en_sh = quiet_host,
      en_files = \<lparr>fh_canon = id, fh_deny = (\<lambda>_ _. None), fh_room = (\<lambda>_ n. n), fh_mem = (\<lambda>_. True), fh_mem64 = (\<lambda>_. True),
        fh_seek = (\<lambda>_. True), fh_strerror = (\<lambda>_. ''error''), fh_newfile = (0x81A4, 0), fh_entries = (\<lambda>_. Inr []), fh_lstat = (\<lambda>_. None)\<rparr>,
      en_call = (\<lambda>_ d. (None, d)), en_errno = 22,
      en_pty = \<lparr>forkpty = (\<lambda>_. (100, 7)), reader_ok = True\<rparr>, en_io = (\<lambda>_ n. (int n, False)),
      en_pf = \<lparr>new_fd = 8, host_ok = True, connect_ok = True, thread_ok = True\<rparr>,
      en_bridge = sample_bridge, en_child = \<lparr>ch_pipe = True, ch_fork = True, ch_write = int, ch_exit = Some 0\<rparr>,
      en_exec = slow_child, en_upg = sample_upgrade, en_now = 5000, en_localtime = (\<lambda>_. None), en_proc = (\<lambda>_. None),
      en_open = (\<lambda>_. True), en_rename = True, en_mem = True, en_mem64 = (\<lambda>_. True),
      en_audit = Ret ''{}'', en_hardware = Ret ''{}'', en_disk_io = Ret ''{}'', en_fork = True\<rparr>"

definition fresh_agent :: agent_st where
  "fresh_agent = \<lparr>a_cfg = ctc_config_defaults \<lparr>env_hostname = None, env_ifaddrs = None\<rparr>, a_conf = Map.empty, a_disk = Map.empty,
     a_terms = terms_init, a_pf = pf_init\<rparr>"


end
