(* ===== verification/FileTransfer.thy ===== *)
theory FileTransfer
  imports Files
begin

section \<open>File transfer between server and agent (server/internal/httpapi/httpapi.go)\<close>

text \<open>
  The download handler of the server, \<open>streamFileDownload\<close>, which pulls a file from the agent
  range by range and writes it to the HTTP response, and the upload request it forwards.  A
  request to the agent is the parameter \<open>ask\<close>: the reply text for an offset and a limit, or
  \<open>None\<close> when the request fails; the properties put the file handlers of the agent in its place.
  \<open>json.Unmarshal\<close> and \<open>base64.StdEncoding.DecodeString\<close> are the parameters \<open>unmarshal\<close> and
  \<open>DecodeString\<close>; \<open>go_decodes\<close> is what the handler relies on: well-formed replies are read field
  by field, and standard Base64 is decoded.  \<open>sink\<close> tells whether the HTTP client takes the next
  bytes.
\<close>

record file_chunk =
  c_size :: int
  c_next :: int
  c_done :: bool
  c_b64 :: string
  c_error :: string

record go_std =
  unmarshal :: "string \<Rightarrow> file_chunk option"
  DecodeString :: "string \<Rightarrow> byte list option"

type_synonym agent_reads = "int \<Rightarrow> int \<Rightarrow> string option"
type_synonym http_sink = "byte list \<Rightarrow> byte list \<Rightarrow> bool"

definition writeChunk :: "go_std \<Rightarrow> http_sink \<Rightarrow> byte list \<Rightarrow> string \<Rightarrow> byte list option" where
  "writeChunk g sink out b64 =
     (case DecodeString g b64 of
        None \<Rightarrow> None
      | Some raw \<Rightarrow> if sink out raw then Some (out @ raw) else None)"

definition chunkSize :: int where "chunkSize = 3 * 1024 * 1024"

partial_function (option) stream_loop ::
  "go_std \<Rightarrow> agent_reads \<Rightarrow> http_sink \<Rightarrow> int \<Rightarrow> int \<Rightarrow> byte list \<Rightarrow> byte list option"
where
  "stream_loop g ask sink tot offset out =
     (if offset < tot then
        (case Option.bind (ask offset chunkSize) (unmarshal g) of
           None \<Rightarrow> Some out
         | Some c \<Rightarrow>
             if c_error c \<noteq> [] then Some out
             else
               (case writeChunk g sink out (c_b64 c) of
                  None \<Rightarrow> Some out
                | Some out' \<Rightarrow>
                    if c_next c \<le> offset then Some out'
                    else if c_done c then Some out'
                    else stream_loop g ask sink tot (c_next c) out'))
      else Some out)"

declare stream_loop.simps [code]

text \<open>The outcome of a download: an error status, or the announced size and the body written.\<close>

datatype download = Fail | Body int "byte list"

definition streamFileDownload :: "go_std \<Rightarrow> agent_reads \<Rightarrow> http_sink \<Rightarrow> download option" where
  "streamFileDownload g ask sink =
     (case Option.bind (ask 0 chunkSize) (unmarshal g) of
        None \<Rightarrow> Some Fail
      | Some fr \<Rightarrow>
          if c_error fr \<noteq> [] then Some Fail
          else
            (case writeChunk g sink [] (c_b64 fr) of
               None \<Rightarrow> Some (Body (c_size fr) [])
             | Some out \<Rightarrow>
                 if c_done fr then Some (Body (c_size fr) out)
                 else map_option (Body (c_size fr)) (stream_loop g ask sink (c_size fr) (c_next fr) out)))"

text \<open>\<open>json.Marshal\<close> of a \<open>FileWritePayload\<close> whose path and content need no escapes.\<close>

definition FileWritePayload :: "string \<Rightarrow> string \<Rightarrow> bool \<Rightarrow> string" where
  "FileWritePayload path b64 app =
     CHR ''{'' # json_str_field ''path'' path @ '','' @ json_str_field ''content_base64'' b64 @
       (if app then '','' @ json_raw_field ''append'' ''true'' else []) @ ''}''"

subsection \<open>The loop returns\<close>

lemma stream_loop_returns: "\<exists>r. stream_loop g ask sink tot offset out = Some r"
proof (induction "nat (tot - offset)" arbitrary: offset out rule: less_induct)
  case less
  show ?case
  proof (cases "offset < tot")
    case True
    then have "c_next c \<le> offset \<or> (\<exists>r. stream_loop g ask sink tot (c_next c) o' = Some r)" for c o'
      by (cases "c_next c \<le> offset") (auto intro!: less)
    then show ?thesis
      by (subst stream_loop.simps) (auto split: option.splits)
  qed (subst stream_loop.simps, simp)
qed

subsection \<open>A file comes over unchanged\<close>

definition agent_of :: "file_host \<Rightarrow> disk \<Rightarrow> string \<Rightarrow> agent_reads" where
  "agent_of h fs path off lim =
     (case ctc_file_read_range_json h fs path off lim of Ret r \<Rightarrow> Some r | _ \<Rightarrow> None)"

definition go_decodes :: "go_std \<Rightarrow> bool" where
  "go_decodes g \<longleftrightarrow> (\<forall>data. DecodeString g (b64_spec data) = Some data) \<and>
     (\<forall>sp sz off nxt fin data. json_text sp \<longrightarrow> 0 \<le> sz \<longrightarrow> sz < 2 ^ 63 \<longrightarrow> 0 \<le> off \<longrightarrow> off < 2 ^ 63 \<longrightarrow> 0 \<le> nxt \<longrightarrow> nxt < 2 ^ 63 \<longrightarrow>
        unmarshal g (range_reply sp sz off nxt fin (b64_spec data))
          = Some \<lparr>c_size = sz, c_next = nxt, c_done = fin, c_b64 = b64_spec data, c_error = []\<rparr>)"

text \<open>
  The agent's own reader and decoder decode the replies of the agent as well: an instance of
  the two parameters.
\<close>

definition chunk_of :: "string \<Rightarrow> file_chunk option" where
  "chunk_of r =
     (let n = 4 * Suc (length r) in
      case (ctc_json_get_string r ''content_base64'' n, ctc_json_get_string r ''error'' n) of
        (Ret b, Ret e) \<Rightarrow>
          Some \<lparr>c_size = ctc_json_get_int r ''size'' 0, c_next = ctc_json_get_int r ''next_offset'' 0,
            c_done = (ctc_json_get_bool r ''done'' 0 = 1), c_b64 = (case b of None \<Rightarrow> [] | Some b \<Rightarrow> b),
            c_error = (case e of None \<Rightarrow> [] | Some e \<Rightarrow> e)\<rparr>
      | _ \<Rightarrow> None)"

definition flat_std :: go_std where
  "flat_std = \<lparr>unmarshal = chunk_of, DecodeString = ctc_base64_decode True\<rparr>"

lemma find_key_brace: "find_key key ''}'' = None"
  by (simp add: find_key.simps)

lemma chunk_of_range:
  assumes "plain sp" "0 \<le> nxt" "nxt < 2 ^ 63" "0 \<le> sz" "sz < 2 ^ 63"
  shows "chunk_of (range_reply sp sz off nxt fin (b64_spec data))
       = Some \<lparr>c_size = sz, c_next = nxt, c_done = fin, c_b64 = b64_spec data, c_error = []\<rparr>"
proof -
  let ?r = "range_reply sp sz off nxt fin (b64_spec data)"
  note keys = range_reply_def find_key_comma find_key_str [OF _ _ assms(1)] find_key_raw find_key_brace
  have "length data < Suc (length ?r)" by (simp add: range_reply_def json_str_field_def b64_spec_length)
  note f = range_reply_fields [OF assms(1-3) this, of sz off fin]
  have "find_key ''error'' ?r = None" by (simp add: keys find_key_str)
  moreover have "ctc_json_get_int ?r ''size'' 0 = sz"
    using strtol10_show_int_stop [OF assms(4,5), of "CHR '',''"]
    by (simp add: ctc_json_get_int_def keys isdigit_def skip_space_show_int)
  ultimately show ?thesis using f by (simp add: chunk_of_def ctc_json_get_string_def [of _ "''error''"])
qed

lemma flat_std_decodes: "go_decodes flat_std"
  by (simp add: go_decodes_def flat_std_def ctc_base64_decode_spec chunk_of_range json_text_plain)

lemma range_len_pos: "0 \<le> off \<Longrightarrow> off < int len \<Longrightarrow> 0 < range_len len off lim \<and> off + int (range_len len off lim) \<le> int len"
  by (auto simp: range_len_def CHUNK_MAX_def min_def)

lemma agent_chunk:
  assumes "go_decodes g" "readable h fs path content" "0 \<le> off" "off \<le> int (length content)"
  defines "d \<equiv> take (range_len (length content) off chunkSize) (drop (nat off) content)"
  shows "Option.bind (agent_of h fs path off chunkSize) (unmarshal g)
     = Some \<lparr>c_size = int (length content), c_next = off + int (length d),
         c_done = (off + int (length d) \<ge> int (length content)), c_b64 = b64_spec d, c_error = []\<rparr>"
proof -
  obtain sp where sp: "json_text sp" "ctc_file_read_range_json h fs path off chunkSize
     = Ret (range_reply sp (int (length content)) off (off + int (length d))
              (off + int (length d) \<ge> int (length content)) (b64_spec d))"
    using read_range_run [OF assms(2-4), of chunkSize] unfolding d_def by blast
  have "int (length content) < 2 ^ 63" using assms(2) unfolding readable_def by blast
  moreover have "off + int (length d) \<le> int (length content)" using assms(3,4) by (auto simp: d_def)
  ultimately show ?thesis using sp(1) assms(1,3) by (simp add: agent_of_def sp(2) go_decodes_def)
qed

lemma take_nat_add: "0 \<le> off \<Longrightarrow> take (nat off) xs @ take k (drop (nat off) xs) = take (nat (off + int k)) xs"
  by (simp add: take_add [symmetric] nat_add_distrib)

lemma stream_loop_reads:
  assumes "go_decodes g" "readable h fs path content"
  shows "0 \<le> off \<Longrightarrow> off \<le> int (length content) \<Longrightarrow>
    stream_loop g (agent_of h fs path) (\<lambda>_ _. True) (int (length content)) off (take (nat off) content) = Some content"
proof (induction "nat (int (length content) - off)" arbitrary: off rule: less_induct)
  case less
  show ?case
  proof (cases "off < int (length content)")
    case True
    have decode: "DecodeString g (b64_spec d) = Some d" for d using assms(1) by (simp add: go_decodes_def)
    define k where "k = range_len (length content) off chunkSize"
    have k: "0 < k" "off + int k \<le> int (length content)"
      using range_len_pos [OF less(2) True, of chunkSize] by (auto simp: k_def)
    then have l: "length (take k (drop (nat off) content)) = k" using less(2) by simp
    note c = agent_chunk [OF assms less(2,3), folded k_def, unfolded l]
    show ?thesis
    proof (cases "off + int k \<ge> int (length content)")
      case True
      then show ?thesis using k \<open>off < _\<close> less(2) c
        by (subst stream_loop.simps) (simp add: writeChunk_def decode take_nat_add)
    next
      case False
      then show ?thesis using k \<open>off < _\<close> less(1) [of "off + int k"] less(2) c
        by (subst stream_loop.simps) (simp add: writeChunk_def decode take_nat_add)
    qed
  qed (use less(3) in \<open>subst stream_loop.simps, simp\<close>)
qed

lemma download_reads:
  assumes "go_decodes g" "readable h fs path content"
  shows "streamFileDownload g (agent_of h fs path) (\<lambda>_ _. True) = Some (Body (int (length content)) content)"
proof -
  have decode: "DecodeString g (b64_spec d) = Some d" for d using assms(1) by (simp add: go_decodes_def)
  define k where "k = range_len (length content) 0 chunkSize"
  have k: "k \<le> length content" by (auto simp: k_def range_len_def CHUNK_MAX_def)
  then have l: "length (take k content) = k" by simp
  note c = agent_chunk [OF assms order_refl, folded k_def, simplified, unfolded l]
  show ?thesis
    using c k stream_loop_reads [OF assms, of "int k"]
    by (auto simp: streamFileDownload_def writeChunk_def decode)
qed

text \<open>
  C22.  Downloads end: whatever the agent answers, wrong sizes and offsets, refusals and broken
  replies included, and whenever the HTTP client goes away, \<open>streamFileDownload\<close> returns.
\<close>

theorem download_terminates: "\<exists>r. streamFileDownload g ask sink = Some r"
proof -
  have "\<exists>r. map_option (Body n) (stream_loop g ask sink n off out) = Some r" for n off out
    using stream_loop_returns [of g ask sink n off out] by auto
  then show ?thesis unfolding streamFileDownload_def by (auto split: option.splits)
qed

subsection \<open>Upload and download\<close>

text \<open>An upload in pieces: the first request replaces the file, the others append.\<close>

fun upload :: "file_host \<Rightarrow> disk \<Rightarrow> string \<Rightarrow> bool \<Rightarrow> byte list list \<Rightarrow> disk option" where
  "upload h fs path app [] = Some fs"
| "upload h fs path app (d # ds) =
     (case ctc_file_write_json h fs (FileWritePayload path (the (ctc_base64_encode True d)) app) of
        Ret (fs', r) \<Rightarrow> if r = written then upload h fs' path True ds else None
      | _ \<Rightarrow> None)"

definition good_path :: "string \<Rightarrow> bool" where
  "good_path path \<longleftrightarrow> path \<noteq> [] \<and> json_text path \<and> length path < 200 \<and> ''..'' \<notin> set (strtok_all path ''/'')"

definition willing :: "file_host \<Rightarrow> bool" where
  "willing h \<longleftrightarrow> (\<forall>p m. fh_deny h p m = None) \<and> (\<forall>p n. n \<le> fh_room h p n) \<and> (\<forall>k. fh_mem h k \<and> fh_mem64 h k) \<and>
     (\<forall>p. fh_seek h p) \<and> \<not> S_ISDIR (fst (fh_newfile h))"

definition not_dir :: "fnode option \<Rightarrow> bool" where
  "not_dir e = (case e of None \<Rightarrow> True | Some n \<Rightarrow> \<not> S_ISDIR (st_mode n))"

definition abs_path :: "string \<Rightarrow> string" where
  "abs_path path = (if hd path \<noteq> CHR ''/'' then CHR ''/'' # path else path)"

lemma strtok_leading: "strtok_all (CHR ''/'' # p) ''/'' = strtok_all p ''/''"
  by (simp add: strtok_all_def)

lemma good_path_safe:
  assumes "good_path path"
  shows "safe_path path 1024 = Some (abs_path path)" "json_text (abs_path path)" "length (abs_path path) \<le> 200"
  using assms by (auto simp: good_path_def abs_path_def safe_path_Some strtok_leading json_text_def json_char_not)

definition bytes_of :: "fnode option \<Rightarrow> byte list" where
  "bytes_of e = (case e of None \<Rightarrow> [] | Some n \<Rightarrow> node_bytes n)"

lemma write_payload_fields:
  assumes "plain path" "length path < 1024" "length (b64_spec d) < n"
  shows "ctc_json_get_string (FileWritePayload path (b64_spec d) app) ''path'' 1024 = Ret (Some path)"
    and "ctc_json_get_string (FileWritePayload path (b64_spec d) app) ''content_base64'' n = Ret (Some (b64_spec d))"
    and "ctc_json_get_bool (FileWritePayload path (b64_spec d) app) ''append'' 0 = (if app then 1 else 0)"
  using assms
  by (simp_all add: FileWritePayload_def ctc_json_get_string_def ctc_json_get_bool_def find_key_comma find_key_str
      find_key_raw find_key_brace isspace_def get_loop_plain)

lemma write_run:
  assumes "good_path path" "willing h" "not_dir (fs (fh_canon h (abs_path path)))" "length (b64_spec d) < 16777212"
  shows "\<exists>n. ctc_file_write_json h fs (FileWritePayload path (b64_spec d) app)
        = Ret (fs(fh_canon h (abs_path path) \<mapsto> n), written) \<and> \<not> S_ISDIR (st_mode n) \<and>
      node_bytes n = (if app then bytes_of (fs (fh_canon h (abs_path path))) else []) @ d \<and>
      st_size n = int (length (node_bytes n))"
proof -
  have p: "plain path" "length path < 1024" "cstr path = path" using assms(1) by (auto simp: good_path_def json_text_plain)
  have b: "cstr (b64_spec d) = b64_spec d" using base64_cstr by simp
  show ?thesis
    using assms good_path_safe [OF assms(1)] write_payload_fields [OF p(1,2) assms(4), of app] p(3) b
    by (auto simp: ctc_file_write_json_def Let_def willing_def ctc_base64_decode_spec fopen_w_def not_dir_def
        bytes_of_def fwrite_node_def split: option.splits)
qed

lemma upload_run:
  assumes "good_path path" "willing h" "list_all (\<lambda>d. length (b64_spec d) < 16777212) ds"
  shows "not_dir (fs (fh_canon h (abs_path path))) \<Longrightarrow> ds \<noteq> [] \<Longrightarrow>
    \<exists>n. upload h fs path app ds = Some (fs(fh_canon h (abs_path path) \<mapsto> n)) \<and> \<not> S_ISDIR (st_mode n) \<and>
      node_bytes n = (if app then bytes_of (fs (fh_canon h (abs_path path))) else []) @ concat ds \<and>
      st_size n = int (length (node_bytes n))"
  using assms(3)
proof (induction ds arbitrary: fs app)
  case (Cons d ds)
  let ?e = "fh_canon h (abs_path path)"
  obtain n where n: "ctc_file_write_json h fs (FileWritePayload path (b64_spec d) app) = Ret (fs(?e \<mapsto> n), written)"
    "\<not> S_ISDIR (st_mode n)" "node_bytes n = (if app then bytes_of (fs ?e) else []) @ d"
    "st_size n = int (length (node_bytes n))"
    using write_run [of path h fs d app, OF assms(1,2) Cons.prems(1)] Cons.prems(3) by auto
  show ?case
  proof (cases "ds = []")
    case True
    then show ?thesis using n by (intro exI [of _ n]) (simp add: ctc_base64_encode_spec fun_upd_def)
  next
    case False
    have "not_dir ((fs(?e \<mapsto> n)) ?e)" using n(2) by (simp add: not_dir_def)
    from Cons.IH [of "fs(?e \<mapsto> n)" True, OF this False] Cons.prems(3) obtain n' where
      "upload h (fs(?e \<mapsto> n)) path True ds = Some ((fs(?e \<mapsto> n))(?e \<mapsto> n'))" "\<not> S_ISDIR (st_mode n')"
      "node_bytes n' = bytes_of ((fs(?e \<mapsto> n)) ?e) @ concat ds" "st_size n' = int (length (node_bytes n'))" by (auto simp: fun_upd_def)
    then show ?thesis using n by (intro exI [of _ n']) (simp add: ctc_base64_encode_spec bytes_of_def fun_upd_def fun_eq_iff)
  qed
qed simp

text \<open>
  C21.  Files survive the transfer: a file uploaded in pieces, the first replacing it and the
  others appended, is downloaded again byte for byte, with its size announced, in as many
  ranges as it takes; no other file of the agent changes.  The path has fewer than 200
  printable characters and no \<open>..\<close> segment, no piece exceeds the 16 MB buffer of the agent, and the host
  of the agent refuses nothing; the decoders of Go are as \<open>go_decodes\<close> says.
\<close>

theorem transfer_roundtrip:
  assumes "go_decodes g" "good_path path" "willing h" "not_dir (fs (fh_canon h (abs_path path)))"
    and "ds \<noteq> []" "list_all (\<lambda>d. length d \<le> 12000000) ds" "int (length (concat ds)) < 2 ^ 63"
  shows "\<exists>fs'. upload h fs path False ds = Some fs' \<and>
     streamFileDownload g (agent_of h fs' path) (\<lambda>_ _. True) = Some (Body (int (length (concat ds))) (concat ds)) \<and>
     (\<forall>e. e \<noteq> fh_canon h (abs_path path) \<longrightarrow> fs' e = fs e)"
proof -
  let ?e = "fh_canon h (abs_path path)"
  have "list_all (\<lambda>d. length (b64_spec d) < 16777212) ds"
    using assms(6) by (auto simp: list_all_iff b64_spec_length)
  from upload_run [of path h ds fs False, OF assms(2,3) this assms(4,5)] obtain n where
    n: "upload h fs path False ds = Some (fs(?e \<mapsto> n))" "\<not> S_ISDIR (st_mode n)" "node_bytes n = concat ds"
      "st_size n = int (length (node_bytes n))" by auto
  have "readable h (fs(?e \<mapsto> n)) path (concat ds)"
    using n good_path_safe [OF assms(2)] assms(3,7) unfolding readable_def willing_def by auto
  from download_reads [OF assms(1) this] n(1) show ?thesis by auto
qed

definition sample_host :: file_host where
  "sample_host = \<lparr>fh_canon = (\<lambda>p. p), fh_deny = (\<lambda>_ _. None), fh_room = (\<lambda>_ n. n), fh_mem = (\<lambda>_. True),
     fh_mem64 = (\<lambda>_. True), fh_seek = (\<lambda>_. True), fh_strerror = (\<lambda>_. ''Error''), fh_newfile = (0x81A4, 7),
     fh_entries = (\<lambda>_. Inr []), fh_lstat = (\<lambda>_. None)\<rparr>"

theorem transfer_roundtrip_witness:
  "\<exists>fs'. upload sample_host (\<lambda>_. None) ''tmp/a'' False [''ab'', [NUL, CHR ''c'']] = Some fs' \<and>
     streamFileDownload flat_std (agent_of sample_host fs' ''tmp/a'') (\<lambda>_ _. True)
       = Some (Body 4 [CHR ''a'', CHR ''b'', NUL, CHR ''c''])"
proof -
  have "good_path ''tmp/a''" by code_simp
  moreover have "willing sample_host" by (simp add: willing_def sample_host_def S_ISDIR_def)
  ultimately show ?thesis
    using flat_std_decodes transfer_roundtrip [of flat_std "''tmp/a''" sample_host "\<lambda>_. None" "[''ab'', [NUL, CHR ''c'']]"]
    by (auto simp: not_dir_def)
qed

end
