(* ===== verification/Pool.thy ===== *)
theory Pool
  imports Interfaces "HOL-Library.Multiset"
begin

section \<open>The worker pool of the daemon\<close>

text \<open>
  \<open>ctforged/pool.c\<close>: a fixed set of worker threads and a ring of tasks under one mutex.
  \<open>ctforge_threadpool\<close> is the struct of \<open>ctforge.h\<close>; \<open>plock\<close> says whether the mutex is held.
  The answers of the C library and of pthreads (allocation, lock, signal, create, join) are
  parameters.  The second part puts the workers, the submitters and the destroyer side by
  side in a step relation: a critical section is one step, taken only while the mutex is free.
\<close>

definition MAX_THREADS :: int where
  "MAX_THREADS = 10"

definition QUEUE_SIZE :: int where
  "QUEUE_SIZE = 10"

record ctforge_task =
  task_function :: nat
  task_arg :: nat

record ctforge_threadpool =
  plock :: bool
  threads :: bool
  tasks :: "ctforge_task list"
  thread_count :: int
  queue_size :: int
  head :: int
  tail :: int
  count :: int
  shutdown :: int
  started :: int

text \<open>The heap objects of a pool, to account for what is released.\<close>

datatype pool_obj = PoolObj | ThreadsArr | TasksArr

subsection \<open>Operations\<close>

text \<open>Lines 72 to 75 and lines 106 to 109: the two ends of the ring.\<close>

definition pool_put :: "ctforge_task \<Rightarrow> ctforge_threadpool \<Rightarrow> ctforge_threadpool" where
  "pool_put t p =
     p\<lparr>tasks := (tasks p)[nat (tail p) := t],
       tail := (tail p + 1) mod queue_size p,
       count := count p + 1\<rparr>"

definition pool_take :: "ctforge_threadpool \<Rightarrow> ctforge_task \<times> ctforge_threadpool" where
  "pool_take p =
     (tasks p ! nat (head p),
      p\<lparr>head := (head p + 1) mod queue_size p, count := count p - 1\<rparr>)"

text \<open>
  \<open>threadpool_add\<close>: NULL arguments and a failing lock return -1 at once; a full ring and a
  pool that shuts down return -1 after the unlock.  The task stays queued when
  \<open>pthread_cond_signal\<close> or the unlock fails.
\<close>

record add_env =
  add_lock_ok :: bool
  add_signal_ok :: bool
  add_unlock_ok :: bool

definition threadpool_add ::
  "add_env \<Rightarrow> ctforge_threadpool option \<Rightarrow> nat option \<Rightarrow> nat \<Rightarrow> ctforge_threadpool option \<times> int"
where
  "threadpool_add e pool function arg =
     (case (pool, function) of
        (None, _) \<Rightarrow> (pool, -1)
      | (_, None) \<Rightarrow> (pool, -1)
      | (Some p, Some f) \<Rightarrow>
          if \<not> add_lock_ok e then (pool, -1)
          else
            let (p', err) =
                  (if count p = queue_size p then (p, -1)
                   else if shutdown p \<noteq> 0 then (p, -1)
                   else (pool_put \<lparr>task_function = f, task_arg = arg\<rparr> p,
                         if add_signal_ok e then 0 else -1));
                err' = (if add_unlock_ok e then err else -1)
            in (Some (p'\<lparr>plock := \<not> add_unlock_ok e\<rparr>), err'))"

text \<open>
  One pass of the worker loop from the lock to the unlock (lines 96 to 118): wait for the
  condition, leave, or take a task and run it outside the lock.
\<close>

datatype worker_action = Wait | Quit ctforge_threadpool | Run ctforge_task ctforge_threadpool

definition threadpool_thread :: "ctforge_threadpool \<Rightarrow> worker_action" where
  "threadpool_thread p =
     (if count p = 0 \<and> shutdown p = 0 then Wait
      else if shutdown p = 1 \<or> (shutdown p = 2 \<and> count p = 0)
      then Quit (p\<lparr>started := started p - 1\<rparr>)
      else (let (t, p') = pool_take p in Run t p'))"

definition threadpool_free :: "ctforge_threadpool option \<Rightarrow> pool_obj list \<times> int" where
  "threadpool_free pool =
     (case pool of
        None \<Rightarrow> ([], -1)
      | Some p \<Rightarrow>
          if started p > 0 then ([], -1)
          else if threads p then ([ThreadsArr, TasksArr, PoolObj], 0)
          else ([PoolObj], 0))"

text \<open>
  \<open>threadpool_destroy\<close> in two halves around the joins, during which the workers run.
  \<open>destroy_begin\<close> (lines 127 to 145) returns the pool and the error so far, and whether the
  code goes on to the joins; it leaves the block with the mutex held both when the pool
  already shuts down and when the broadcast fails.  \<open>destroy_finish\<close> (lines 147 to 156) gets
  the results of the joins and returns the objects released.
\<close>

record destroy_env =
  des_lock_ok :: bool
  des_broadcast_ok :: bool
  des_unlock_ok :: bool
  des_join_ok :: "nat \<Rightarrow> bool"
  des_exited :: nat

definition destroy_begin ::
  "destroy_env \<Rightarrow> ctforge_threadpool \<Rightarrow> ctforge_threadpool \<times> int \<times> bool"
where
  "destroy_begin e p =
     (if \<not> des_lock_ok e then (p, -1, False)
      else
        let p = p\<lparr>plock := True\<rparr> in
        if shutdown p \<noteq> 0 then (p, -1, False)
        else
          let p = p\<lparr>shutdown := 1\<rparr> in
          if \<not> des_broadcast_ok e \<or> \<not> des_unlock_ok e then (p, -1, False)
          else (p\<lparr>plock := False\<rparr>, 0, True))"

definition destroy_finish ::
  "(nat \<Rightarrow> bool) \<Rightarrow> ctforge_threadpool \<Rightarrow> pool_obj list \<times> int"
where
  "destroy_finish join_ok p =
     (if list_all join_ok [0..<nat (thread_count p)]
      then (fst (threadpool_free (Some p)), 0) else ([], -1))"

definition threadpool_destroy ::
  "destroy_env \<Rightarrow> ctforge_threadpool option \<Rightarrow> ctforge_threadpool option \<times> pool_obj list \<times> int"
where
  "threadpool_destroy e pool =
     (case pool of
        None \<Rightarrow> (None, [], -1)
      | Some p \<Rightarrow>
          (case destroy_begin e p of
             (p', err, False) \<Rightarrow> (Some p', [], err)
           | (p', err, True) \<Rightarrow>
               let p'' = p'\<lparr>started := started p' - int (des_exited e)\<rparr>;
                   (freed, err') = destroy_finish (des_join_ok e) p''
               in (if PoolObj \<in> set freed then None else Some p'', freed, err')))"

text \<open>
  \<open>threadpool_create\<close>: the result and the heap objects that are allocated when it returns.
  \<open>cr_create_ok\<close> holds the answer of the \<open>i\<close>-th \<open>pthread_create\<close>.
\<close>

record create_env =
  cr_pool_ok :: bool
  cr_threads_ok :: bool
  cr_tasks_ok :: bool
  cr_mutex_ok :: bool
  cr_cond_ok :: bool
  cr_create_ok :: "nat \<Rightarrow> bool"
  cr_destroy :: destroy_env

fun create_threads ::
  "destroy_env \<Rightarrow> bool list \<Rightarrow> ctforge_threadpool \<Rightarrow> ctforge_threadpool option \<times> pool_obj list"
where
  "create_threads e [] p = (Some p, [PoolObj, ThreadsArr, TasksArr])"
| "create_threads e (ok # oks) p =
     (if ok
      then create_threads e oks (p\<lparr>thread_count := thread_count p + 1, started := started p + 1\<rparr>)
      else
        (None, filter (\<lambda>ob. ob \<notin> set (fst (snd (threadpool_destroy e (Some p)))))
                 [PoolObj, ThreadsArr, TasksArr]))"

definition threadpool_create ::
  "create_env \<Rightarrow> ctforge_task \<Rightarrow> int \<Rightarrow> int \<Rightarrow> ctforge_threadpool option \<times> pool_obj list"
where
  "threadpool_create e junk tc qs =
     (if tc \<le> 0 \<or> tc > MAX_THREADS \<or> qs \<le> 0 \<or> qs > QUEUE_SIZE then (None, [])
      else if \<not> cr_pool_ok e then (None, [])
      else
        let p = \<lparr>plock = False, threads = cr_threads_ok e, tasks = replicate (nat qs) junk,
                 thread_count = 0, queue_size = qs, head = 0, tail = 0, count = 0,
                 shutdown = 0, started = 0\<rparr>
        in
          if \<not> cr_mutex_ok e \<or> \<not> cr_cond_ok e \<or> \<not> cr_threads_ok e \<or> \<not> cr_tasks_ok e
          then (None, [PoolObj] @ (if cr_threads_ok e then [ThreadsArr] else [])
                        @ (if cr_tasks_ok e then [TasksArr] else []))
          else create_threads (cr_destroy e) (map (cr_create_ok e) [0..<nat tc]) p)"

definition threadpoll_init ::
  "create_env \<Rightarrow> ctforge_task \<Rightarrow> ctforge_threadpool option \<times> int"
where
  "threadpoll_init e junk = (fst (threadpool_create e junk MAX_THREADS QUEUE_SIZE), 0)"

subsection \<open>The ring is a bounded FIFO queue\<close>

definition ring_inv :: "ctforge_threadpool \<Rightarrow> bool" where
  "ring_inv p \<longleftrightarrow>
     0 < queue_size p \<and> length (tasks p) = nat (queue_size p) \<and>
     0 \<le> head p \<and> head p < queue_size p \<and>
     0 \<le> count p \<and> count p \<le> queue_size p \<and>
     tail p = (head p + count p) mod queue_size p"

definition ring_list :: "ctforge_threadpool \<Rightarrow> ctforge_task list" where
  "ring_list p =
     map (\<lambda>i. tasks p ! nat ((head p + int i) mod queue_size p)) [0..<nat (count p)]"

definition ring_cap :: "ctforge_threadpool \<Rightarrow> nat" where
  "ring_cap p = nat (queue_size p)"

definition ring_enq :: "ctforge_task \<Rightarrow> ctforge_threadpool \<Rightarrow> ctforge_threadpool option" where
  "ring_enq t p = (if count p = queue_size p then None else Some (pool_put t p))"

definition ring_deq :: "ctforge_threadpool \<Rightarrow> (ctforge_task \<times> ctforge_threadpool) option" where
  "ring_deq p = (if count p = 0 then None else Some (pool_take p))"

lemma length_ring_list [simp]: "length (ring_list p) = nat (count p)"
  by (simp add: ring_list_def)

lemma ring_inv_put:
  assumes "ring_inv p" and "count p \<noteq> queue_size p"
  shows "ring_inv (pool_put t p)"
  using assms by (simp add: ring_inv_def pool_put_def mod_simps add.assoc)

lemma ring_slot_distinct:
  fixes h i c q :: int
  assumes "0 \<le> i" "i < c" "c < q"
  shows "(h + i) mod q \<noteq> (h + c) mod q"
proof
  assume "(h + i) mod q = (h + c) mod q"
  then have "q dvd c - i" by (metis add_diff_cancel_left mod_eq_dvd_iff dvd_diff_commute)
  then have "q \<le> c - i" using assms by (simp add: zdvd_imp_le)
  with assms show False by simp
qed

lemma ring_list_put:
  assumes inv: "ring_inv p" and room: "count p \<noteq> queue_size p"
  shows "ring_list (pool_put t p) = ring_list p @ [t]"
proof -
  let ?q = "queue_size p" and ?h = "head p" and ?c = "count p"
  have q: "0 < ?q" "?c < ?q" "0 \<le> ?c" and t: "tail p = (?h + ?c) mod ?q"
    and len: "length (tasks p) = nat ?q"
    using inv room by (auto simp: ring_inv_def)
  have old: "(tasks p)[nat (tail p) := t] ! nat ((?h + int i) mod ?q)
      = tasks p ! nat ((?h + int i) mod ?q)" if "i < nat ?c" for i
  proof -
    have "(?h + int i) mod ?q \<noteq> (?h + ?c) mod ?q"
      using that q by (intro ring_slot_distinct) auto
    then have "nat ((?h + int i) mod ?q) \<noteq> nat (tail p)"
      using q t by (simp add: nat_eq_iff)
    then show ?thesis by simp
  qed
  have new: "(tasks p)[nat (tail p) := t] ! nat ((?h + ?c) mod ?q) = t"
    using q t len by (simp add: nat_less_iff)
  have "nat (?c + 1) = Suc (nat ?c)" using q by simp
  then show ?thesis using old new q by (simp add: ring_list_def pool_put_def)
qed

lemma ring_inv_take:
  assumes "ring_inv p" and "count p \<noteq> 0"
  shows "ring_inv (snd (pool_take p))"
  using assms by (auto simp: ring_inv_def pool_take_def mod_simps)

lemma ring_list_take:
  assumes inv: "ring_inv p" and some: "count p \<noteq> 0"
  shows "ring_list p = fst (pool_take p) # ring_list (snd (pool_take p))"
proof -
  have h: "head p mod queue_size p = head p" and c: "0 < count p"
    using inv some by (auto simp: ring_inv_def)
  have "[0..<nat (count p)] = 0 # map Suc [0..<nat (count p - 1)]"
    using c by (metis Suc_nat_eq_nat_zadd1 diff_add_cancel map_Suc_upt upt_conv_Cons
        zero_less_nat_eq zle_diff1_eq diff_add_cancel add.commute)
  then show ?thesis using h
    by (simp add: ring_list_def pool_take_def mod_simps add.assoc add.commute add.left_commute)
qed

interpretation ring: bounded_queue ring_inv ring_list ring_cap ring_enq ring_deq
proof unfold_locales
  fix p :: ctforge_threadpool
  assume inv: "ring_inv p"
  then show "length (ring_list p) \<le> ring_cap p" by (simp add: ring_inv_def ring_cap_def nat_mono)
  show "(ring_enq x p = None) = (length (ring_list p) = ring_cap p)" for x
    using inv by (auto simp: ring_inv_def ring_enq_def ring_cap_def)
  show "ring_list p' = ring_list p @ [x]" if "ring_enq x p = Some p'" for x p'
    using that inv ring_list_put by (auto simp: ring_enq_def split: if_splits)
  show "ring_inv p' \<and> ring_cap p' = ring_cap p" if "ring_enq x p = Some p'" for x p'
    using that inv ring_inv_put by (auto simp: ring_enq_def ring_cap_def pool_put_def split: if_splits)
  show "(ring_deq p = None) = (ring_list p = [])"
    using inv by (auto simp: ring_deq_def ring_inv_def ring_list_def)
  show "ring_list p = y # ring_list p'" if "ring_deq p = Some (y, p')" for y p'
    using that inv ring_list_take by (auto simp: ring_deq_def split: if_splits)
  show "ring_inv p' \<and> ring_cap p' = ring_cap p" if "ring_deq p = Some (y, p')" for y p'
    using that inv ring_inv_take [of p]
    by (auto simp: ring_deq_def ring_cap_def pool_take_def split: if_splits)
qed

subsection \<open>Workers, submitters and destroyers together\<close>

text \<open>
  The program counter of a worker: about to lock, in \<open>pthread_cond_wait\<close>, running a task
  outside the lock, or terminated.  A waiting worker may wake at any time, which covers the
  signal, the broadcast and spurious wake-ups.  \<open>accepted\<close>, \<open>dispatched\<close> and \<open>executed\<close> record the
  tasks put into the ring, taken from it, and finished; \<open>joining\<close> says that a
  \<open>threadpool_destroy\<close> is in its joins, and \<open>freed\<close> what it has released.
\<close>

datatype worker_pc = WLock | WWait | WRun ctforge_task | WDone

record pool_sys =
  pool :: ctforge_threadpool
  workers :: "worker_pc list"
  accepted :: "ctforge_task list"
  dispatched :: "ctforge_task list"
  executed :: "ctforge_task list"
  joining :: bool
  freed :: "pool_obj list"

definition add_queues :: "ctforge_threadpool \<Rightarrow> bool" where
  "add_queues p \<longleftrightarrow> count p \<noteq> queue_size p \<and> shutdown p = 0"

inductive pool_step :: "pool_sys \<Rightarrow> pool_sys \<Rightarrow> bool" where
  submit: "\<not> plock (pool s) \<Longrightarrow> freed s = [] \<Longrightarrow> add_lock_ok e \<Longrightarrow> add_unlock_ok e \<Longrightarrow>
    threadpool_add e (Some (pool s)) (Some f) a = (Some p', r) \<Longrightarrow>
    pool_step s (s\<lparr>pool := p',
      accepted := accepted s @
        (if add_queues (pool s) then [\<lparr>task_function = f, task_arg = a\<rparr>] else [])\<rparr>)"
| wait: "\<not> plock (pool s) \<Longrightarrow> freed s = [] \<Longrightarrow> i < length (workers s) \<Longrightarrow>
    workers s ! i \<in> {WLock, WWait} \<Longrightarrow> threadpool_thread (pool s) = Wait \<Longrightarrow>
    pool_step s (s\<lparr>workers := (workers s)[i := WWait]\<rparr>)"
| quit: "\<not> plock (pool s) \<Longrightarrow> freed s = [] \<Longrightarrow> i < length (workers s) \<Longrightarrow>
    workers s ! i \<in> {WLock, WWait} \<Longrightarrow> threadpool_thread (pool s) = Quit p' \<Longrightarrow>
    pool_step s (s\<lparr>pool := p', workers := (workers s)[i := WDone]\<rparr>)"
| take_task: "\<not> plock (pool s) \<Longrightarrow> freed s = [] \<Longrightarrow> i < length (workers s) \<Longrightarrow>
    workers s ! i \<in> {WLock, WWait} \<Longrightarrow> threadpool_thread (pool s) = Run t p' \<Longrightarrow>
    pool_step s (s\<lparr>pool := p', workers := (workers s)[i := WRun t],
      dispatched := dispatched s @ [t]\<rparr>)"
| finish_task: "i < length (workers s) \<Longrightarrow> workers s ! i = WRun t \<Longrightarrow>
    pool_step s (s\<lparr>workers := (workers s)[i := WLock], executed := executed s @ [t]\<rparr>)"
| destroy: "\<not> plock (pool s) \<Longrightarrow> freed s = [] \<Longrightarrow> des_lock_ok e \<Longrightarrow>
    destroy_begin e (pool s) = (p', r, go) \<Longrightarrow>
    pool_step s (s\<lparr>pool := p', joining := joining s \<or> go\<rparr>)"
| join_all: "joining s \<Longrightarrow> freed s = [] \<Longrightarrow> list_all (\<lambda>w. w = WDone) (workers s) \<Longrightarrow>
    destroy_finish (\<lambda>_. True) (pool s) = (objs, r) \<Longrightarrow>
    pool_step s (s\<lparr>freed := objs\<rparr>)"

text \<open>The system right after \<open>threadpool_create\<close>: every worker is about to lock.\<close>

definition pool_start :: "ctforge_threadpool \<Rightarrow> pool_sys" where
  "pool_start p =
     \<lparr>pool = p, workers = replicate (nat (thread_count p)) WLock, accepted = [],
      dispatched = [], executed = [], joining = False, freed = []\<rparr>"

inductive pool_reach :: "pool_sys \<Rightarrow> pool_sys \<Rightarrow> bool" for s0 where
  start: "pool_reach s0 s0"
| step: "pool_reach s0 s \<Longrightarrow> pool_step s s' \<Longrightarrow> pool_reach s0 s'"

inductive_cases pool_step_cases: "pool_step s s'"

fun running :: "worker_pc \<Rightarrow> ctforge_task list" where
  "running (WRun t) = [t]"
| "running _ = []"

definition in_flight :: "pool_sys \<Rightarrow> ctforge_task multiset" where
  "in_flight s = (\<Sum>w\<in>#mset (workers s). mset (running w))"

definition live :: "pool_sys \<Rightarrow> nat" where
  "live s = length (filter (\<lambda>w. w \<noteq> WDone) (workers s))"

definition pool_inv :: "pool_sys \<Rightarrow> bool" where
  "pool_inv s \<longleftrightarrow>
     ring_inv (pool s) \<and>
     accepted s = dispatched s @ ring_list (pool s) \<and>
     mset (dispatched s) = mset (executed s) + in_flight s \<and>
     started (pool s) = int (live s) \<and>
     shutdown (pool s) \<in> {0, 1} \<and>
     thread_count (pool s) = int (length (workers s)) \<and>
     threads (pool s)"

lemmas pool_op_defs = threadpool_add_def threadpool_thread_def destroy_begin_def
  destroy_finish_def threadpool_free_def Let_def

lemma in_flight_update:
  assumes "i < length ws"
  shows "(\<Sum>w\<in>#mset (ws[i := v]). mset (running w)) + mset (running (ws ! i))
       = (\<Sum>w\<in>#mset ws. mset (running w)) + mset (running v)"
  using assms
proof (induction ws arbitrary: i)
  case (Cons w ws)
  then show ?case by (cases i) (auto simp: ac_simps)
qed simp

lemma in_flight_set:
  assumes "i < length (workers s)" and "workers s ! i \<in> {WLock, WWait}"
  shows "in_flight (s\<lparr>workers := (workers s)[i := v]\<rparr>) = in_flight s + mset (running v)"
  using in_flight_update [OF assms(1), of v] assms(2) by (auto simp: in_flight_def)

lemma in_flight_done:
  assumes "i < length (workers s)" and "workers s ! i = WRun t"
  shows "in_flight s = add_mset t (in_flight (s\<lparr>workers := (workers s)[i := WLock]\<rparr>))"
  using in_flight_update [OF assms(1), of WLock] assms(2) by (simp add: in_flight_def)

lemma live_set:
  assumes "i < length (workers s)" and "workers s ! i \<noteq> WDone"
  shows "live (s\<lparr>workers := (workers s)[i := v]\<rparr>) + (if v = WDone then 1 else 0) = live s"
  using count_update [OF assms(1), of "\<lambda>w. w \<noteq> WDone" v] assms(2)
  by (auto simp: live_def)

lemma view_frame [simp]:
  "in_flight (s\<lparr>pool := p\<rparr>) = in_flight s" "in_flight (s\<lparr>accepted := a\<rparr>) = in_flight s"
  "in_flight (s\<lparr>dispatched := d\<rparr>) = in_flight s" "in_flight (s\<lparr>executed := x\<rparr>) = in_flight s"
  "in_flight (s\<lparr>joining := j\<rparr>) = in_flight s" "in_flight (s\<lparr>freed := f\<rparr>) = in_flight s"
  "live (s\<lparr>pool := p\<rparr>) = live s" "live (s\<lparr>accepted := a\<rparr>) = live s"
  "live (s\<lparr>dispatched := d\<rparr>) = live s" "live (s\<lparr>executed := x\<rparr>) = live s"
  "live (s\<lparr>joining := j\<rparr>) = live s" "live (s\<lparr>freed := f\<rparr>) = live s"
  by (simp_all add: in_flight_def live_def)

lemma ring_frame [simp]:
  "ring_inv (p\<lparr>plock := b\<rparr>) = ring_inv p" "ring_inv (p\<lparr>shutdown := n\<rparr>) = ring_inv p"
  "ring_inv (p\<lparr>started := n\<rparr>) = ring_inv p" "ring_list (p\<lparr>plock := b\<rparr>) = ring_list p"
  "ring_list (p\<lparr>shutdown := n\<rparr>) = ring_list p" "ring_list (p\<lparr>started := n\<rparr>) = ring_list p"
  by (simp_all add: ring_inv_def ring_list_def)

lemma pool_put_frame [simp]:
  "started (pool_put t p) = started p" "shutdown (pool_put t p) = shutdown p"
  "thread_count (pool_put t p) = thread_count p" "threads (pool_put t p) = threads p"
  "plock (pool_put t p) = plock p" "queue_size (pool_put t p) = queue_size p"
  by (simp_all add: pool_put_def)

lemma pool_take_frame [simp]:
  "started (snd (pool_take p)) = started p" "shutdown (snd (pool_take p)) = shutdown p"
  "thread_count (snd (pool_take p)) = thread_count p" "threads (snd (pool_take p)) = threads p"
  "plock (snd (pool_take p)) = plock p" "queue_size (snd (pool_take p)) = queue_size p"
  by (simp_all add: pool_take_def)

lemma threadpool_add_cases:
  assumes "threadpool_add e (Some p) (Some f) a = (Some p', r)" and "add_lock_ok e" "add_unlock_ok e"
  shows "p' = (if add_queues p then pool_put \<lparr>task_function = f, task_arg = a\<rparr> p else p)\<lparr>plock := False\<rparr>"
  using assms by (auto simp: threadpool_add_def add_queues_def Let_def split: if_splits)

lemma thread_Run:
  assumes "threadpool_thread p = Run t p'" and "shutdown p \<in> {0, 1}"
  shows "count p \<noteq> 0 \<and> shutdown p = 0 \<and> t = fst (pool_take p) \<and> p' = snd (pool_take p)"
  using assms by (auto simp: threadpool_thread_def Let_def split: if_splits prod.splits)

lemma thread_Quit:
  assumes "threadpool_thread p = Quit p'"
  shows "p' = p\<lparr>started := started p - 1\<rparr> \<and> shutdown p \<noteq> 0"
  using assms by (auto simp: threadpool_thread_def Let_def split: if_splits prod.splits)

lemma destroy_begin_cases:
  assumes "destroy_begin e p = (p', r, go)" and "des_lock_ok e"
  shows "p' = (if shutdown p = 0 then p\<lparr>shutdown := 1\<rparr> else p)\<lparr>plock := \<not> go\<rparr> \<and>
    (go \<longrightarrow> shutdown p = 0) \<and> r = (if go then 0 else -1)"
  using assms by (auto simp: destroy_begin_def Let_def split: if_splits)

lemma pool_step_inv:
  assumes "pool_step s s'" and "pool_inv s"
  shows "pool_inv s'"
  using assms
proof (induction rule: pool_step.induct)
  case (submit s e f a p' r)
  note eq = threadpool_add_cases [OF submit(5,3,4)]
  then show ?case using submit(6) ring_inv_put [of "pool s"] ring_list_put [of "pool s"]
    by (cases "add_queues (pool s)") (auto simp: pool_inv_def add_queues_def)
next
  case (wait s i)
  then show ?case using in_flight_set [of i s WWait] live_set [of i s WWait]
    by (auto simp: pool_inv_def)
next
  case (quit s i p')
  note eq = thread_Quit [OF quit(5)]
  have "in_flight (s\<lparr>workers := (workers s)[i := WDone]\<rparr>) = in_flight s"
    using in_flight_set [of i s WDone] quit by simp
  moreover have "live (s\<lparr>workers := (workers s)[i := WDone]\<rparr>) + 1 = live s"
    using live_set [of i s WDone] quit by auto
  ultimately show ?case using eq quit(6)
    by (auto simp: pool_inv_def in_flight_def live_def)
next
  case (take_task s i t p')
  then have "shutdown (pool s) \<in> {0, 1}" by (simp add: pool_inv_def)
  note eq = thread_Run [OF take_task(5) this]
  have "in_flight (s\<lparr>workers := (workers s)[i := WRun t]\<rparr>) = in_flight s + {#t#}"
    using in_flight_set [of i s "WRun t"] take_task by simp
  moreover have "live (s\<lparr>workers := (workers s)[i := WRun t]\<rparr>) = live s"
    using live_set [of i s "WRun t"] take_task by auto
  ultimately show ?case
    using eq take_task(6) ring_inv_take [of "pool s"] ring_list_take [of "pool s"]
    by (auto simp: pool_inv_def in_flight_def live_def)
next
  case (finish_task i s t)
  then show ?case using in_flight_done [of i s t] live_set [of i s WLock]
    by (auto simp: pool_inv_def in_flight_def live_def)
next
  case (destroy s e p' r go)
  then show ?case using destroy_begin_cases [OF destroy(4,3)]
    by (auto simp: pool_inv_def split: if_splits)
next
  case (join_all s objs r)
  then show ?case by (simp add: pool_inv_def)
qed

subsection \<open>Creation, reachable states\<close>

lemma create_threads_Some:
  assumes "create_threads e oks p = (Some p', objs)"
  shows "p' = p\<lparr>thread_count := thread_count p + int (length oks),
                started := started p + int (length oks)\<rparr>"
  using assms
proof (induction oks arbitrary: p)
  case (Cons ok oks)
  then have ok: "ok" by (cases ok) simp_all
  with Cons.prems have
    "create_threads e oks (p\<lparr>thread_count := thread_count p + 1, started := started p + 1\<rparr>) = (Some p', objs)"
    by simp
  from Cons.IH [OF this] show ?case by (simp add: add.assoc)
qed simp

lemma threadpool_create_Some:
  assumes "threadpool_create e junk tc qs = (Some p, objs)"
  shows "p = \<lparr>plock = False, threads = True, tasks = replicate (nat qs) junk,
              thread_count = tc, queue_size = qs, head = 0, tail = 0, count = 0,
              shutdown = 0, started = tc\<rparr> \<and> 0 < tc \<and> tc \<le> MAX_THREADS \<and> 0 < qs \<and> qs \<le> QUEUE_SIZE"
  using assms by (auto simp: threadpool_create_def Let_def split: if_splits dest!: create_threads_Some)

lemma pool_inv_start:
  assumes "threadpool_create e junk tc qs = (Some p, objs)"
  shows "pool_inv (pool_start p) \<and> queue_size p = qs"
  using threadpool_create_Some [OF assms]
  by (auto simp: pool_inv_def pool_start_def ring_inv_def ring_list_def in_flight_def live_def)

lemma pool_step_queue_size:
  "pool_step s s' \<Longrightarrow> queue_size (pool s') = queue_size (pool s)"
  by (induction rule: pool_step.induct)
     (auto simp: pool_op_defs pool_put_def pool_take_def split: if_splits)

lemma pool_reach_inv:
  assumes "pool_reach s0 s" and "pool_inv s0"
  shows "pool_inv s \<and> queue_size (pool s) = queue_size (pool s0)"
  using assms by (induction) (auto intro: pool_step_inv dest: pool_step_queue_size)


definition sample_pool_env :: create_env where
  "sample_pool_env =
     \<lparr>cr_pool_ok = True, cr_threads_ok = True, cr_tasks_ok = True, cr_mutex_ok = True,
      cr_cond_ok = True, cr_create_ok = (\<lambda>_. True),
      cr_destroy = \<lparr>des_lock_ok = True, des_broadcast_ok = True, des_unlock_ok = True,
                    des_join_ok = (\<lambda>_. True), des_exited = 2\<rparr>\<rparr>"

definition sample_task :: ctforge_task where
  "sample_task = \<lparr>task_function = 7, task_arg = 9\<rparr>"

definition sample_pool :: ctforge_threadpool where
  "sample_pool =
     \<lparr>plock = False, threads = True, tasks = [sample_task, sample_task], thread_count = 2,
      queue_size = 2, head = 0, tail = 0, count = 0, shutdown = 0, started = 2\<rparr>"

definition sample_submitted :: pool_sys where
  "sample_submitted =
     (pool_start sample_pool)\<lparr>pool := (pool_put sample_task sample_pool)\<lparr>plock := False\<rparr>,
        accepted := [sample_task]\<rparr>"

definition sample_running :: pool_sys where
  "sample_running =
     sample_submitted\<lparr>pool := snd (pool_take (pool sample_submitted)),
        workers := [WRun sample_task, WLock], dispatched := [sample_task]\<rparr>"

lemma sample_create:
  "threadpool_create sample_pool_env sample_task 2 2 = (Some sample_pool, [PoolObj, ThreadsArr, TasksArr])"
  by code_simp

lemma sample_submit: "pool_reach (pool_start sample_pool) sample_submitted"
  using pool_reach.step [OF pool_reach.start pool_step.submit
      [of "pool_start sample_pool" "\<lparr>add_lock_ok = True, add_signal_ok = True, add_unlock_ok = True\<rparr>" 7 9
        "(pool_put sample_task sample_pool)\<lparr>plock := False\<rparr>" 0]]
  by (simp add: sample_submitted_def pool_start_def sample_pool_def threadpool_add_def
      sample_task_def add_queues_def pool_put_def)

lemma sample_take: "pool_reach (pool_start sample_pool) sample_running"
  using pool_reach.step [OF sample_submit pool_step.take_task
      [of sample_submitted 0 sample_task "snd (pool_take (pool sample_submitted))"]]
  by (simp add: sample_running_def sample_submitted_def pool_start_def sample_pool_def
      threadpool_thread_def pool_take_def pool_put_def numeral_2_eq_2)



lemma pool_destroy_begin_reach:
  assumes "pool_reach s0 s" "\<not> plock (pool s)" "freed s = []" "shutdown (pool s) = 0"
  shows "pool_reach s0 (s\<lparr>pool := (pool s)\<lparr>shutdown := 1, plock := False\<rparr>, joining := True\<rparr>)"
  using assms pool_reach.step [OF assms(1) pool_step.destroy
      [of s "cr_destroy sample_pool_env" "(pool s)\<lparr>shutdown := 1, plock := False\<rparr>" 0 True]]
  by (simp add: destroy_begin_def sample_pool_env_def)

lemma pool_quit_reach:
  assumes "pool_reach s0 s" "\<not> plock (pool s)" "freed s = []" "shutdown (pool s) = 1"
    "i < length (workers s)" "workers s ! i = WLock"
  shows "pool_reach s0 (s\<lparr>pool := (pool s)\<lparr>started := started (pool s) - 1\<rparr>,
            workers := (workers s)[i := WDone]\<rparr>)"
  using assms pool_reach.step [OF assms(1) pool_step.quit
      [of s i "(pool s)\<lparr>started := started (pool s) - 1\<rparr>"]]
  by (simp add: threadpool_thread_def)

definition sample_closing :: pool_sys where
  "sample_closing =
     (pool_start sample_pool)\<lparr>pool := sample_pool\<lparr>shutdown := 1, plock := False\<rparr>, joining := True\<rparr>"

definition sample_stopped :: pool_sys where
  "sample_stopped =
     sample_closing\<lparr>pool := sample_pool\<lparr>shutdown := 1, plock := False, started := 0\<rparr>,
        workers := [WDone, WDone]\<rparr>"

lemma sample_close: "pool_reach (pool_start sample_pool) sample_closing"
  using pool_destroy_begin_reach [OF pool_reach.start [of "pool_start sample_pool"]]
  by (simp add: pool_start_def sample_pool_def sample_closing_def)

lemma sample_stop: "pool_reach (pool_start sample_pool) sample_stopped"
proof -
  let ?s1 = "sample_closing\<lparr>pool := (pool sample_closing)\<lparr>started := 1\<rparr>, workers := [WDone, WLock]\<rparr>"
  have "pool_reach (pool_start sample_pool) ?s1"
    using pool_quit_reach [OF sample_close, of 0]
    by (simp add: sample_closing_def pool_start_def sample_pool_def numeral_2_eq_2)
  from pool_quit_reach [OF this, of 1] show ?thesis
    by (simp add: sample_closing_def sample_stopped_def pool_start_def sample_pool_def)
qed


lemma wedged_step:
  assumes "pool_step s s'" and "plock (pool s)" and "freed s = []" and "0 < live s"
  shows "plock (pool s') \<and> freed s' = [] \<and> live s' = live s \<and> accepted s' = accepted s"
  using assms
proof (induction rule: pool_step.induct)
  case (finish_task i s t)
  then show ?case using live_set [of i s WLock] by (simp add: live_def)
next
  case (join_all s objs r)
  then have "live s = 0" by (simp add: live_def list_all_iff)
  with join_all show ?case by simp
qed auto

lemma wedged_reach:
  assumes "pool_reach s s'" and "plock (pool s)" and "freed s = []" and "0 < live s"
  shows "plock (pool s') \<and> freed s' = [] \<and> live s' = live s \<and> accepted s' = accepted s"
  using assms
proof (induction rule: pool_reach.induct)
  case (step s1 s2)
  then show ?case using wedged_step [of s1 s2] by simp
qed simp

text \<open>
  C35.  A second \<open>threadpool_destroy\<close>, on a pool that already shuts down, returns -1 with the
  mutex still held.  If a worker is alive at that moment the pool is wedged: in every state
  reachable from there the mutex is held, no worker terminates, no task is accepted, and the
  first destroyer never gets past its joins, so the pool is never released.
\<close>

theorem second_destroy_wedges_pool:
  assumes "shutdown (pool s) \<noteq> 0" and "des_lock_ok e"
    and "destroy_begin e (pool s) = (p', r, go)"
    and "freed s = []" and "0 < live s"
    and "pool_reach (s\<lparr>pool := p'\<rparr>) s'"
  shows "r = -1 \<and> plock (pool s') \<and> freed s' = [] \<and> live s' = live s \<and> accepted s' = accepted s"
proof -
  have "p' = (pool s)\<lparr>plock := True\<rparr> \<and> r = -1"
    using assms(1-3) destroy_begin_cases [OF assms(3,2)] by auto
  then show ?thesis using wedged_reach [OF assms(6)] assms(4,5) by simp
qed

definition sample_wedged :: pool_sys where
  "sample_wedged = sample_closing\<lparr>pool := (pool sample_closing)\<lparr>plock := True\<rparr>\<rparr>"

theorem second_destroy_wedges_pool_witness:
  "pool_reach (pool_start sample_pool) sample_closing \<and> joining sample_closing \<and>
   destroy_begin (cr_destroy sample_pool_env) (pool sample_closing) =
     ((pool sample_closing)\<lparr>plock := True\<rparr>, -1, False) \<and>
   plock (pool sample_wedged) \<and> freed sample_wedged = [] \<and> live sample_wedged = 2"
proof -
  have d: "destroy_begin (cr_destroy sample_pool_env) (pool sample_closing) =
     ((pool sample_closing)\<lparr>plock := True\<rparr>, -1, False)"
    by (simp add: destroy_begin_def sample_pool_env_def sample_closing_def pool_start_def sample_pool_def)
  have pre: "shutdown (pool sample_closing) \<noteq> 0" "des_lock_ok (cr_destroy sample_pool_env)"
    "freed sample_closing = []" "live sample_closing = 2" "joining sample_closing"
    by (simp_all add: sample_pool_env_def sample_closing_def pool_start_def sample_pool_def live_def)
  have "pool_reach (sample_closing\<lparr>pool := (pool sample_closing)\<lparr>plock := True\<rparr>\<rparr>) sample_wedged"
    unfolding sample_wedged_def by (rule pool_reach.start)
  from second_destroy_wedges_pool [OF pre(1,2) d pre(3) _ this] show ?thesis
    using pre sample_close d by simp
qed

end
