(* ===== verification/ModuleList.thy ===== *)
theory ModuleList
  imports Interfaces
begin

section \<open>The list of loaded modules\<close>

text \<open>
  \<open>ctforged/payload.c\<close>, lines 12 to 82, and the list macros of \<open>ctforge.h\<close>: a circular doubly
  linked list through the \<open>list\<close> member of \<open>module_info\<close>, headed by \<open>module_list_head\<close>.  The
  store maps an address to its \<open>next\<close> and \<open>prev\<close> field and to the module found there; address
  \<open>HEAD\<close> is the list head, and a NULL field is \<open>None\<close>.  \<open>dll\<close> relates the store to the list of
  addresses it links, and every operation is shown to act on that list.
\<close>

type_synonym addr = nat

definition HEAD :: addr where
  "HEAD = 0"

definition NAME_MAX :: nat where
  "NAME_MAX = 255"

text \<open>\<open>payload_fd\<close> is a \<open>__u32\<close>, so the -1 it is compared with is \<open>0xFFFFFFFF\<close>.\<close>

record module_info =
  mod_name :: string
  payload_fullpath :: string
  payload_memfd_path :: string
  ops_init :: "nat option"
  ops_exit :: "nat option"
  dl_handle :: "nat option"
  payload_fd :: "32 word"
  payload_size :: nat

record modtab =
  lnext :: "addr \<Rightarrow> addr option"
  lprev :: "addr \<Rightarrow> addr option"
  mods :: "addr \<Rightarrow> module_info option"

subsection \<open>List operations\<close>

definition list_add_between :: "addr \<Rightarrow> addr \<Rightarrow> addr \<Rightarrow> modtab \<Rightarrow> modtab" where
  "list_add_between new prv nxt h =
     (let h = h\<lparr>lprev := (lprev h)(nxt := Some new)\<rparr>;
          h = h\<lparr>lnext := (lnext h)(new := Some nxt)\<rparr>;
          h = h\<lparr>lprev := (lprev h)(new := Some prv)\<rparr>
      in h\<lparr>lnext := (lnext h)(prv := Some new)\<rparr>)"

definition list_add :: "addr \<Rightarrow> addr \<Rightarrow> modtab \<Rightarrow> modtab outcome" where
  "list_add new hd_addr h =
     (case lnext h hd_addr of
        None \<Rightarrow> Undef
      | Some nxt \<Rightarrow> Ret (list_add_between new hd_addr nxt h))"

definition list_unlink :: "addr \<Rightarrow> addr \<Rightarrow> modtab \<Rightarrow> modtab" where
  "list_unlink prv nxt h =
     (let h = h\<lparr>lprev := (lprev h)(nxt := Some prv)\<rparr>
      in h\<lparr>lnext := (lnext h)(prv := Some nxt)\<rparr>)"

definition list_del :: "addr \<Rightarrow> modtab \<Rightarrow> modtab outcome" where
  "list_del entry h =
     (case (lprev h entry, lnext h entry) of
        (Some prv, Some nxt) \<Rightarrow>
          let h = list_unlink prv nxt h;
              h = h\<lparr>lnext := (lnext h)(entry := None)\<rparr>
          in Ret (h\<lparr>lprev := (lprev h)(entry := None)\<rparr>)
      | _ \<Rightarrow> Undef)"

definition list_empty_careful :: "addr \<Rightarrow> modtab \<Rightarrow> bool" where
  "list_empty_careful hd_addr h \<longleftrightarrow> lnext h hd_addr = Some hd_addr \<and> lnext h hd_addr = lprev h hd_addr"

text \<open>
  The loop of \<open>find_module_unlocked\<close> from position \<open>pos\<close>.  It may run forever on a store that is
  not a list, so it is a partial function: \<open>None\<close> is a run that does not return.
\<close>

partial_function (option) find_from :: "modtab \<Rightarrow> string \<Rightarrow> addr \<Rightarrow> addr option outcome option" where
  "find_from h name pos =
     (if pos = HEAD then Some (Ret None)
      else
        (case mods h pos of
           None \<Rightarrow> Some Undef
         | Some iter \<Rightarrow>
             if strncmp_eq (mod_name iter) name NAME_MAX then Some (Ret (Some pos))
             else
               (case lnext h pos of
                  None \<Rightarrow> Some Undef
                | Some q \<Rightarrow> find_from h name q)))"

declare find_from.simps [code]

definition find_module_unlocked :: "modtab \<Rightarrow> string \<Rightarrow> addr option outcome option" where
  "find_module_unlocked h name =
     (case lnext h HEAD of None \<Rightarrow> Some Undef | Some q \<Rightarrow> find_from h name q)"

text \<open>\<open>find_module\<close> is the same loop between a lock and an unlock of \<open>module_list_lock\<close>.\<close>

definition find_module :: "modtab \<Rightarrow> string \<Rightarrow> addr option outcome option" where
  "find_module h name =
     (case lnext h HEAD of None \<Rightarrow> Some Undef | Some q \<Rightarrow> find_from h name q)"

definition add_module :: "addr \<Rightarrow> modtab \<Rightarrow> (modtab \<times> int) outcome option" where
  "add_module m h =
     (case mods h m of
        None \<Rightarrow> Some Undef
      | Some mi \<Rightarrow>
          (case find_module_unlocked h (mod_name mi) of
             None \<Rightarrow> None
           | Some r \<Rightarrow>
               Some (and_then r (\<lambda>found.
                 case found of
                   Some _ \<Rightarrow> Ret (h, -1)
                 | None \<Rightarrow> and_then (list_add m HEAD h) (\<lambda>h'. Ret (h', 0))))))"

definition delete_module :: "addr \<Rightarrow> modtab \<Rightarrow> modtab outcome" where
  "delete_module m h = list_del m h"

subsection \<open>Chains\<close>

fun chain :: "(addr \<Rightarrow> addr option) \<Rightarrow> addr \<Rightarrow> addr list \<Rightarrow> addr \<Rightarrow> bool" where
  "chain f p [] q \<longleftrightarrow> f p = Some q"
| "chain f p (x # xs) q \<longleftrightarrow> f p = Some x \<and> chain f x xs q"

definition dll :: "modtab \<Rightarrow> addr list \<Rightarrow> bool" where
  "dll h xs \<longleftrightarrow>
     distinct (HEAD # xs) \<and> chain (lnext h) HEAD xs HEAD \<and> chain (lprev h) HEAD (rev xs) HEAD"

lemma chain_append [simp]:
  "chain f p (xs @ y # ys) q \<longleftrightarrow> chain f p xs y \<and> chain f y ys q"
  by (induction xs arbitrary: p) auto

lemma chain_frame [simp]:
  "a \<notin> set (p # xs) \<Longrightarrow> chain (f(a := v)) p xs q = chain f p xs q"
  by (induction xs arbitrary: p) auto

text \<open>Redirecting the last link of a chain whose nodes are distinct.\<close>

lemma chain_last:
  "distinct (p # xs) \<Longrightarrow> chain f p xs q \<Longrightarrow> chain (f(last (p # xs) := Some r)) p xs r"
  by (induction xs arbitrary: p) auto

lemma chain_first:
  "p \<notin> set xs \<Longrightarrow> chain f p xs q \<Longrightarrow> f p = Some (hd (xs @ [q]))"
  by (cases xs) auto

lemma dll_add:
  assumes "dll h xs" and "new \<notin> set (HEAD # xs)"
  shows "\<exists>h'. list_add new HEAD h = Ret h' \<and> dll h' (new # xs) \<and> mods h' = mods h"
proof -
  have d: "distinct (HEAD # xs)" and cn: "chain (lnext h) HEAD xs HEAD"
    and cp: "chain (lprev h) HEAD (rev xs) HEAD"
    using assms(1) by (auto simp: dll_def)
  let ?nxt = "hd (xs @ [HEAD])"
  have nx: "lnext h HEAD = Some ?nxt" using chain_first [of HEAD xs, OF _ cn] d by auto
  let ?h = "list_add_between new HEAD ?nxt h"
  have next': "chain (lnext ?h) HEAD (new # xs) HEAD"
    using cn assms(2) d
    by (cases xs) (auto simp: list_add_between_def Let_def)
  have lst: "last (HEAD # rev xs) = ?nxt" by (cases xs) auto
  have "chain ((lprev h)(?nxt := Some new)) HEAD (rev xs) new"
    using chain_last [of HEAD "rev xs" "lprev h" HEAD new] cp d lst by auto
  then have "chain (lprev ?h) HEAD (rev xs) new"
    using assms(2) by (auto simp: list_add_between_def Let_def)
  then have "chain (lprev ?h) HEAD (rev (new # xs)) HEAD"
    by (simp add: list_add_between_def Let_def)
  with next' have "dll ?h (new # xs)" using d assms(2) by (auto simp: dll_def)
  then show ?thesis using nx by (simp add: list_add_def list_add_between_def Let_def)
qed

lemma dll_del:
  assumes "dll h (xs @ e # ys)"
  shows "\<exists>h'. list_del e h = Ret h' \<and> dll h' (xs @ ys) \<and> mods h' = mods h"
proof -
  have d: "distinct (HEAD # xs @ e # ys)"
    and cn1: "chain (lnext h) HEAD xs e" and cn2: "chain (lnext h) e ys HEAD"
    and cp1: "chain (lprev h) HEAD (rev ys) e" and cp2: "chain (lprev h) e (rev xs) HEAD"
    using assms by (auto simp: dll_def)
  let ?prv = "last (HEAD # xs)" and ?nxt = "hd (ys @ [HEAD])"
  have n: "lnext h e = Some ?nxt" using chain_first [OF _ cn2] d by auto
  have "lprev h e = Some (hd (rev xs @ [HEAD]))" using chain_first [OF _ cp2] d by auto
  then have p: "lprev h e = Some ?prv" by (cases xs rule: rev_cases) auto
  let ?f = "(lnext h)(?prv := Some ?nxt, e := None)"
  let ?g = "(lprev h)(?nxt := Some ?prv, e := None)"
  have f: "chain ?f HEAD (xs @ ys) HEAD"
  proof (cases ys)
    case Nil
    then show ?thesis using chain_last [of HEAD xs "lnext h" e HEAD] cn1 d by auto
  next
    case (Cons y ys')
    have "chain ((lnext h)(?prv := Some y)) HEAD xs y" using chain_last [of HEAD xs "lnext h" e y] cn1 d by auto
    moreover have "?prv \<notin> set (y # ys')" using d Cons by (cases xs rule: rev_cases) auto
    ultimately show ?thesis using Cons cn2 d by auto
  qed
  have lst: "last (HEAD # rev ys) = ?nxt" by (cases ys) auto
  have g: "chain ?g HEAD (rev (xs @ ys)) HEAD"
  proof (cases xs rule: rev_cases)
    case Nil
    then show ?thesis using chain_last [of HEAD "rev ys" "lprev h" e HEAD] cp1 d lst by auto
  next
    case (snoc xs' x)
    have "chain ((lprev h)(?nxt := Some x)) HEAD (rev ys) x"
      using chain_last [of HEAD "rev ys" "lprev h" e x] cp1 d lst by auto
    moreover have "?nxt \<notin> set (x # rev xs')" using d snoc by (cases ys) auto
    ultimately show ?thesis using snoc cp2 d by auto
  qed
  have "\<exists>h'. list_del e h = Ret h' \<and> lnext h' = ?f \<and> lprev h' = ?g \<and> mods h' = mods h"
    using n p by (simp add: list_del_def list_unlink_def Let_def)
  then show ?thesis using f g d by (auto simp: dll_def)
qed

subsection \<open>Searching\<close>

definition name_matches :: "modtab \<Rightarrow> string \<Rightarrow> addr \<Rightarrow> bool" where
  "name_matches h name x =
     (case mods h x of Some mi \<Rightarrow> strncmp_eq (mod_name mi) name NAME_MAX | None \<Rightarrow> False)"

definition all_mapped :: "modtab \<Rightarrow> addr list \<Rightarrow> bool" where
  "all_mapped h xs \<longleftrightarrow> (\<forall>x\<in>set xs. mods h x \<noteq> None)"

lemma find_from_chain:
  "chain (lnext h) p xs HEAD \<Longrightarrow> HEAD \<notin> set xs \<Longrightarrow> all_mapped h xs \<Longrightarrow>
     lnext h p = Some q \<Longrightarrow> find_from h name q = Some (Ret (find (name_matches h name) xs))"
proof (induction xs arbitrary: p q)
  case Nil
  then have "q = HEAD" by simp
  then show ?case by (subst find_from.simps) simp
next
  case (Cons x xs)
  then obtain mi where mi: "mods h x = Some mi" by (auto simp: all_mapped_def)
  from Cons.prems have q: "q = x" and x: "x \<noteq> HEAD" by auto
  obtain q' where q': "lnext h x = Some q'" using Cons.prems by (cases xs) auto
  have "find_from h name q' = Some (Ret (find (name_matches h name) xs))"
    by (rule Cons.IH [of x]) (use Cons.prems q' in \<open>auto simp: all_mapped_def\<close>)
  then show ?case using mi q x q' by (subst find_from.simps) (simp add: name_matches_def)
qed

lemma find_module_list:
  assumes "dll h xs" and "all_mapped h xs"
  shows "find_module h name = Some (Ret (find (name_matches h name) xs))"
    and "find_module_unlocked h name = Some (Ret (find (name_matches h name) xs))"
proof -
  have c: "chain (lnext h) HEAD xs HEAD" and d: "HEAD \<notin> set xs" using assms(1) by (auto simp: dll_def)
  obtain q where q: "lnext h HEAD = Some q" using c by (cases xs) auto
  from find_from_chain [OF c d assms(2) q]
  show "find_module h name = Some (Ret (find (name_matches h name) xs))"
    and "find_module_unlocked h name = Some (Ret (find (name_matches h name) xs))"
    using q by (simp_all add: find_module_def find_module_unlocked_def)
qed

lemma find_Some_split:
  "find P xs = Some x \<Longrightarrow> \<exists>ys zs. xs = ys @ x # zs \<and> P x \<and> (\<forall>y\<in>set ys. \<not> P y)"
proof (induction xs)
  case (Cons a xs)
  show ?case
  proof (cases "P a")
    case True
    with Cons.prems have "a # xs = [] @ x # xs \<and> P x \<and> (\<forall>y\<in>set []. \<not> P y)" by simp
    then show ?thesis by blast
  next
    case False
    with Cons obtain ys zs where "xs = ys @ x # zs" "P x" "\<forall>y\<in>set ys. \<not> P y" by auto
    with False have "a # xs = (a # ys) @ x # zs \<and> P x \<and> (\<forall>y\<in>set (a # ys). \<not> P y)" by simp
    then show ?thesis by blast
  qed
qed simp

text \<open>The names in the table, and that no two loaded modules can be confused by a search.\<close>

definition names_distinct :: "modtab \<Rightarrow> addr list \<Rightarrow> bool" where
  "names_distinct h xs \<longleftrightarrow>
     (\<forall>x\<in>set xs. \<exists>mi. mods h x = Some mi \<and> length (mod_name mi) < NAME_MAX) \<and>
     distinct (map (\<lambda>x. map_option mod_name (mods h x)) xs)"

lemma short_name_match:
  "mods h x = Some mi \<Longrightarrow> length (mod_name mi) < NAME_MAX \<Longrightarrow> length name < NAME_MAX \<Longrightarrow>
     name_matches h name x \<longleftrightarrow> mod_name mi = name"
  by (simp add: name_matches_def strncmp_eq_def)

definition modlist_inv :: "modtab \<Rightarrow> addr list \<Rightarrow> bool" where
  "modlist_inv h xs \<longleftrightarrow> dll h xs \<and> names_distinct h xs"

lemma names_distinct_alt:
  "names_distinct h xs \<longleftrightarrow>
     (\<forall>x\<in>set xs. \<exists>n. map_option mod_name (mods h x) = Some n \<and> length n < NAME_MAX) \<and>
     distinct (map (\<lambda>x. map_option mod_name (mods h x)) xs)"
  by (auto simp: names_distinct_def)

lemma modlist_inv_cong:
  assumes "lnext h' = lnext h" and "lprev h' = lprev h"
    and same: "\<And>x. x \<in> set xs \<Longrightarrow> map_option mod_name (mods h' x) = map_option mod_name (mods h x)"
  shows "modlist_inv h' xs = modlist_inv h xs"
proof -
  have "map (\<lambda>x. map_option mod_name (mods h' x)) xs = map (\<lambda>x. map_option mod_name (mods h x)) xs"
    by (rule map_cong [OF refl same])
  then have "names_distinct h' xs = names_distinct h xs"
    unfolding names_distinct_alt using same by (metis (no_types, lifting))
  then show ?thesis using assms(1,2) by (simp add: modlist_inv_def dll_def)
qed

lemma modlist_inv_mapped: "modlist_inv h xs \<Longrightarrow> all_mapped h xs"
  by (force simp: modlist_inv_def names_distinct_def all_mapped_def)

lemma modlist_find:
  assumes "modlist_inv h xs" and "length name < NAME_MAX"
  shows "find_module h name = Some (Ret (find (\<lambda>x. map_option mod_name (mods h x) = Some name) xs))"
proof -
  have "name_matches h name x \<longleftrightarrow> map_option mod_name (mods h x) = Some name" if "x \<in> set xs" for x
    using that assms short_name_match [of h x _ name] by (force simp: modlist_inv_def names_distinct_def)
  then have "find (name_matches h name) xs = find (\<lambda>x. map_option mod_name (mods h x) = Some name) xs"
    by (intro find_cong) auto
  then show ?thesis using find_module_list(1) [of h xs name] assms modlist_inv_mapped
    by (auto simp: modlist_inv_def)
qed

text \<open>
  C4.  On a well-formed module list whose names are pairwise different, \<open>add_module\<close> returns:
  it refuses a module whose name is loaded and leaves everything as it was, and otherwise
  links the module in front and keeps the list well formed with pairwise different names.
  \<open>delete_module\<close> of any member returns, unlinks exactly that module and keeps the rest.
\<close>

theorem module_list_refines:
  assumes "modlist_inv h xs" and "mods h m = Some mi" and "length (mod_name mi) < NAME_MAX"
    and "m \<notin> set (HEAD # xs)"
  shows "(if mod_name mi \<in> (\<lambda>x. mod_name (the (mods h x))) ` set xs
          then add_module m h = Some (Ret (h, -1))
          else \<exists>h'. add_module m h = Some (Ret (h', 0)) \<and> modlist_inv h' (m # xs) \<and> mods h' = mods h) \<and>
    (\<forall>ys x zs. xs = ys @ x # zs \<longrightarrow>
       (\<exists>h'. delete_module x h = Ret h' \<and> modlist_inv h' (ys @ zs) \<and> mods h' = mods h))"
proof (intro conjI allI impI)
  let ?P = "\<lambda>x. map_option mod_name (mods h x) = Some (mod_name mi)"
  have dl: "dll h xs" and nd: "names_distinct h xs" using assms(1) by (auto simp: modlist_inv_def)
  have f: "find_module_unlocked h (mod_name mi) = Some (Ret (find ?P xs))"
    using modlist_find [OF assms(1,3)] by (simp add: find_module_def find_module_unlocked_def)
  have ex: "(find ?P xs \<noteq> None) \<longleftrightarrow> mod_name mi \<in> (\<lambda>x. mod_name (the (mods h x))) ` set xs"
    using nd by (force simp: find_None_iff names_distinct_def)
  obtain h' where h': "list_add m HEAD h = Ret h'" "dll h' (m # xs)" "mods h' = mods h"
    using dll_add [OF dl assms(4)] by blast
  show "if mod_name mi \<in> (\<lambda>x. mod_name (the (mods h x))) ` set xs
        then add_module m h = Some (Ret (h, -1))
        else \<exists>h'. add_module m h = Some (Ret (h', 0)) \<and> modlist_inv h' (m # xs) \<and> mods h' = mods h"
  proof (cases "find ?P xs")
    case None
    then have "modlist_inv h' (m # xs)"
      using h' nd assms(2,3) by (auto simp: modlist_inv_def names_distinct_def find_None_iff) force
    with None ex h' f assms(2) show ?thesis by (simp add: add_module_def)
  next
    case (Some y)
    with ex f assms(2) show ?thesis by (simp add: add_module_def)
  qed
  fix ys x zs
  assume xs: "xs = ys @ x # zs"
  with dl have "dll h (ys @ x # zs)" by simp
  from dll_del [OF this] nd xs
  show "\<exists>h'. delete_module x h = Ret h' \<and> modlist_inv h' (ys @ zs) \<and> mods h' = mods h"
    by (auto simp: delete_module_def modlist_inv_def names_distinct_def)
qed

definition sample_module :: "string \<Rightarrow> module_info" where
  "sample_module n =
     \<lparr>mod_name = n, payload_fullpath = [], payload_memfd_path = [], ops_init = Some 11,
      ops_exit = Some 12, dl_handle = Some 5, payload_fd = -1, payload_size = 0\<rparr>"

definition sample_tab :: modtab where
  "sample_tab =
     \<lparr>lnext = [0 \<mapsto> 1, 1 \<mapsto> 0], lprev = [0 \<mapsto> 1, 1 \<mapsto> 0],
      mods = [1 \<mapsto> sample_module ''net'', 2 \<mapsto> sample_module ''fs'']\<rparr>"

lemma sample_tab_inv: "modlist_inv sample_tab [1]"
  by (simp add: modlist_inv_def dll_def names_distinct_def sample_tab_def sample_module_def HEAD_def NAME_MAX_def)

theorem module_list_refines_witness:
  "\<exists>h'. add_module 2 sample_tab = Some (Ret (h', 0)) \<and> modlist_inv h' [2, 1] \<and> mods h' = mods sample_tab"
  using module_list_refines [OF sample_tab_inv, of 2 "sample_module ''fs''"]
  by (simp add: sample_tab_def sample_module_def HEAD_def NAME_MAX_def)

end
