(* ===== verification/Tools.thy ===== *)
theory Tools
  imports CPrelude
begin

section \<open>Utilities and error messages of the daemon\<close>

text \<open>
  \<open>ctforged/tools.c\<close> and \<open>ctforged/error.c\<close>: bounded appends, the file helpers the signature
  check is built on, and the table of error messages.  \<open>os_env\<close> is the file system: the
  contents of the files and the answers of the C library for each path.
\<close>

record os_env =
  files :: "string \<Rightarrow> byte list option"
  fopen_ok :: "string \<Rightarrow> string \<Rightarrow> bool"
  stat_ok :: "string \<Rightarrow> bool"
  seek_ok :: "string \<Rightarrow> bool"
  tell_ok :: "string \<Rightarrow> bool"
  read_ok :: "string \<Rightarrow> bool"
  write_ok :: "string \<Rightarrow> bool"
  trunc_ok :: "string \<Rightarrow> bool"
  malloc_ok :: "nat \<Rightarrow> bool"

text \<open>\<open>fopen\<close> in a mode that needs the file to exist.\<close>

definition open_existing :: "os_env \<Rightarrow> string \<Rightarrow> string \<Rightarrow> byte list option" where
  "open_existing os mode path = (if fopen_ok os path mode then files os path else None)"

subsection \<open>Bounded strings\<close>

definition starts_with :: "string option \<Rightarrow> string option \<Rightarrow> bool" where
  "starts_with str substr =
     (case (str, substr) of
        (Some s, Some p) \<Rightarrow> strncmp_eq s p (length p)
      | _ \<Rightarrow> False)"

text \<open>\<open>strscpy\<close>: the string left in the destination and the return value.\<close>

definition strscpy :: "string \<Rightarrow> nat \<Rightarrow> string option \<times> int" where
  "strscpy src n =
     (if n = 0 then (None, -1)
      else let len = min (length src) (n - 1) in (Some (take len src), int len))"

text \<open>
  \<open>strnappend\<close>: \<open>out\<close> is the text the format produces, \<open>None\<close> where \<open>vsnprintf\<close> fails.  The
  result is the new string and the return value.
\<close>

definition strnappend :: "string \<Rightarrow> nat \<Rightarrow> string option \<Rightarrow> string \<times> nat" where
  "strnappend str sz out =
     (if length str \<ge> sz then (str, length str)
      else
        (case out of
           None \<Rightarrow> (str, length str)
         | Some t \<Rightarrow>
             (str @ snprintf_s (sz - length str) t,
              if length str + length t \<ge> sz then sz - 1 else length str + length t)))"

definition RESP_LEN_MAX :: nat where
  "RESP_LEN_MAX = 2048"

record ctforged_params =
  res :: string
  res_size :: nat

definition sk_resappend :: "ctforged_params \<Rightarrow> string option \<Rightarrow> ctforged_params \<times> nat" where
  "sk_resappend s out =
     (if res_size s \<ge> RESP_LEN_MAX then (s, res_size s)
      else
        (case out of
           None \<Rightarrow> (s, res_size s)
         | Some t \<Rightarrow>
             let res' = take (res_size s) (res s) @ snprintf_s (RESP_LEN_MAX - res_size s) t;
                 n = res_size s + length t;
                 n' = (if n \<ge> RESP_LEN_MAX then RESP_LEN_MAX - 1 else n)
             in (s\<lparr>res := res', res_size := n'\<rparr>, n')))"

fun sk_append_all :: "ctforged_params \<Rightarrow> string list \<Rightarrow> ctforged_params" where
  "sk_append_all s [] = s"
| "sk_append_all s (t # ts) = sk_append_all (fst (sk_resappend s (Some t))) ts"

definition resp_inv :: "ctforged_params \<Rightarrow> bool" where
  "resp_inv s \<longleftrightarrow> length (res s) = res_size s \<and> res_size s < RESP_LEN_MAX"

lemma sk_resappend_res:
  assumes "resp_inv s"
  shows "resp_inv (fst (sk_resappend s (Some t))) \<and>
    res (fst (sk_resappend s (Some t))) = take (RESP_LEN_MAX - 1) (res s @ t)"
  using assms by (auto simp: sk_resappend_def resp_inv_def RESP_LEN_MAX_def snprintf_s_def Let_def)

lemma sk_append_all_res:
  "resp_inv s \<Longrightarrow> resp_inv (sk_append_all s ts) \<and>
     res (sk_append_all s ts) = take (RESP_LEN_MAX - 1) (res s @ concat ts)"
proof (induction ts arbitrary: s)
  case Nil
  then show ?case by (simp add: resp_inv_def RESP_LEN_MAX_def)
next
  case (Cons t ts)
  let ?s = "fst (sk_resappend s (Some t))" and ?n = "RESP_LEN_MAX - 1"
  have s: "resp_inv ?s" "res ?s = take ?n (res s @ t)" using sk_resappend_res [OF Cons.prems] by auto
  have "take ?n (take ?n a @ b) = take ?n (a @ b)" for a b :: string
    by (cases "length a \<le> ?n") simp_all
  with Cons.IH [OF s(1)] s(2) show ?case by (metis append_assoc concat.simps(2) sk_append_all.simps(2))
qed

text \<open>
  Any sequence of \<open>sk_resappend\<close> calls on an empty response leaves the concatenation of
  the texts, cut to 2047 bytes, and \<open>res_size\<close> is its length: the response buffer of
  \<open>RESP_LEN_MAX\<close> bytes is never left, and an append after the cut adds nothing.
\<close>

lemma sk_resappend_bounded_concat:
  "let s = sk_append_all \<lparr>res = [], res_size = 0\<rparr> ts in
     res s = take (RESP_LEN_MAX - 1) (concat ts) \<and> res_size s = length (res s) \<and>
     res_size s < RESP_LEN_MAX"
proof -
  have "resp_inv \<lparr>res = [], res_size = 0\<rparr>" by (simp add: resp_inv_def RESP_LEN_MAX_def)
  from sk_append_all_res [OF this, of ts] show ?thesis
    unfolding Let_def resp_inv_def by (metis append_Nil ctforged_params.select_convs(1))
qed

subsection \<open>Files\<close>

definition is_ebpf_file :: "os_env \<Rightarrow> string \<Rightarrow> bool outcome" where
  "is_ebpf_file os filename =
     (case open_existing os ''rb'' filename of
        None \<Rightarrow> Exited
      | Some b \<Rightarrow>
          if \<not> seek_ok os filename then Exited
          else if \<not> read_ok os filename then Exited
          else (case bslice 18 2 b of None \<Rightarrow> Exited | Some m \<Rightarrow> Ret (le16 m = 0xf7)))"

definition is_elf_magic :: "byte list \<Rightarrow> bool" where
  "is_elf_magic b \<longleftrightarrow> b ! 0 = CHR 0x7F \<and> b ! 1 = CHR ''E'' \<and> b ! 2 = CHR ''L'' \<and> b ! 3 = CHR ''F''"

definition is_elf_file :: "os_env \<Rightarrow> string \<Rightarrow> bool outcome" where
  "is_elf_file os filename =
     (case open_existing os ''rb'' filename of
        None \<Rightarrow> Exited
      | Some b \<Rightarrow>
          if \<not> read_ok os filename then Ret False
          else (case bslice 0 4 b of None \<Rightarrow> Ret False | Some m \<Rightarrow> Ret (is_elf_magic m)))"

text \<open>\<open>get_file_size\<close> returns a \<open>size_t\<close>, so its -1 is the largest 64-bit value.\<close>

definition SIZE_MAX :: nat where
  "SIZE_MAX = 2 ^ 64 - 1"

definition get_file_size :: "os_env \<Rightarrow> string \<Rightarrow> nat" where
  "get_file_size os input_file =
     (case open_existing os ''r+b'' input_file of
        None \<Rightarrow> SIZE_MAX
      | Some b \<Rightarrow>
          if \<not> seek_ok os input_file then SIZE_MAX
          else if \<not> tell_ok os input_file then SIZE_MAX
          else length b)"

definition file_tail_truncate :: "os_env \<Rightarrow> string \<Rightarrow> nat \<Rightarrow> os_env \<times> int" where
  "file_tail_truncate os input_file sz =
     (case open_existing os ''r+b'' input_file of
        None \<Rightarrow> (os, -1)
      | Some b \<Rightarrow>
          if \<not> seek_ok os input_file then (os, -1)
          else if \<not> tell_ok os input_file then (os, -1)
          else
            let new_size = sint (word_of_int (int (length b) - int sz) :: 64 word) in
            if new_size < 0 then (os, -1)
            else if \<not> trunc_ok os input_file then (os, -1)
            else (os\<lparr>files := (files os)(input_file \<mapsto>
                     take (nat new_size) b @ replicate (nat new_size - length b) NUL)\<rparr>, 0))"

text \<open>
  \<open>write2file\<close>: an existing file is updated in place, another one created; \<open>fwrite\<close> of one
  item of \<open>datalen\<close> bytes reports 0 items for an empty item.
\<close>

definition write2file :: "os_env \<Rightarrow> string \<Rightarrow> byte list \<Rightarrow> nat \<Rightarrow> os_env \<times> int" where
  "write2file os filename data start =
     (case (case open_existing os ''r+b'' filename of
              Some b \<Rightarrow> Some b
            | None \<Rightarrow> if fopen_ok os filename ''wb'' then Some [] else None) of
        None \<Rightarrow> (os, -1)
      | Some b \<Rightarrow>
          let opened = os\<lparr>files := (files os)(filename \<mapsto> b)\<rparr> in
          if \<not> seek_ok os filename then (opened, -1)
          else if data = [] \<or> \<not> write_ok os filename then (opened, -1)
          else
            (os\<lparr>files := (files os)(filename \<mapsto>
               take start b @ replicate (start - length b) NUL @ data @ drop (start + length data) b)\<rparr>, 0))"

subsection \<open>Error messages\<close>

definition CT_ERRNO_MAX :: int where
  "CT_ERRNO_MAX = 59"

definition ct_err_str :: "string list" where
  "ct_err_str =
    [''success'', ''argument list too long'', ''permission denied'', ''address already in use'',
     ''cannot assign requested address'', ''address family not supported'',
     ''resource temporarily unavailable'', ''connection already in progress'',
     ''bad file descriptor'', ''resource busy or locked'', ''operation canceled'',
     ''invalid Unicode character'', ''software caused connection abort'', ''connection refused'',
     ''connection reset by peer'', ''destination address required'', ''file already exists'',
     ''bad address in system call argument'', ''file too large'', ''host is unreachable'',
     ''interrupted system call'', ''invalid argument'', ''i/o error'',
     ''socket is already connected'', ''illegal operation on a directory'',
     ''too many symbolic links encountered'', ''too many open files'', ''message too long'',
     ''name too long'', ''network is down'', ''network is unreachable'', ''file table overflow'',
     ''no buffer space available'', ''no such device'', ''no such file or directory'',
     ''not enough memory'', ''machine is not on the network'', ''protocol not available'',
     ''no space left on device'', ''function not implemented'', ''socket is not connected'',
     ''not a directory'', ''directory not empty'', ''socket operation on non-socket'',
     ''operation not supported'', ''operation not permitted'', ''broken pipe'', ''protocol error'',
     ''protocol not supported'', ''protocol wrong type for socket'', ''result too large'',
     ''read-only file system'', ''cannot send after transport endpoint shutdown'', ''invalid seek'',
     ''no such process'', ''connection timed out'', ''text file is busy'',
     ''cross-device link not permitted'', ''unknown error'']"

text \<open>The negation of the smallest \<open>int\<close> is a signed overflow.\<close>

definition ct_strerror :: "int \<Rightarrow> string outcome" where
  "ct_strerror err =
     (if err = - (2 ^ 31) then Undef
      else
        let idx = (if err < 0 then - err else err) in
        if 0 \<le> idx \<and> idx < CT_ERRNO_MAX then Ret (ct_err_str ! nat idx) else Ret ''unknown error'')"

definition ct_strerror_r :: "int \<Rightarrow> nat option \<Rightarrow> (string option \<times> string) outcome" where
  "ct_strerror_r err buflen =
     and_then (ct_strerror err) (\<lambda>msg.
       Ret (case buflen of
              Some n \<Rightarrow> if n > 0 then (Some (snprintf_s n msg), msg) else (None, msg)
            | None \<Rightarrow> (None, msg)))"

lemma ct_err_str_length: "length ct_err_str = 59"
  by (simp add: ct_err_str_def)

lemma ct_err_str_distinct: "distinct ct_err_str"
  by code_simp

lemma ct_err_str_last: "ct_err_str ! 58 = ''unknown error''"
  by code_simp

lemma ct_strerror_index: "0 \<le> n \<Longrightarrow> n < 59 \<Longrightarrow> ct_strerror (- n) = Ret (ct_err_str ! nat n)"
  by (simp add: ct_strerror_def CT_ERRNO_MAX_def Let_def)

lemma ct_strerror_out_of_table:
  "err \<noteq> - (2 ^ 31) \<Longrightarrow> 58 \<le> \<bar>err\<bar> \<Longrightarrow> ct_strerror err = Ret ''unknown error''"
proof (cases "\<bar>err\<bar> = 58")
  case True
  then have "err = 58 \<or> err = - 58" by arith
  then show ?thesis using ct_err_str_last by (auto simp: ct_strerror_def CT_ERRNO_MAX_def)
qed (auto simp: ct_strerror_def CT_ERRNO_MAX_def Let_def)

text \<open>
  The error codes 0 to -57 of \<open>ctforge.h\<close> have pairwise different messages, none of them
  the catch-all text, and every other \<open>int\<close> but the smallest yields ``unknown error'': the
  table has no gap and is not read out of range.
\<close>

lemma ct_strerror_faithful:
  "\<lbrakk>0 \<le> m; m < 58; 0 \<le> n; n < 58; ct_strerror (- m) = ct_strerror (- n)\<rbrakk> \<Longrightarrow>
     m = n \<and> ct_strerror (- m) \<noteq> Ret ''unknown error'' \<and>
     (\<forall>err. err \<noteq> - (2 ^ 31) \<longrightarrow> 58 \<le> \<bar>err\<bar> \<longrightarrow> ct_strerror err = Ret ''unknown error'')"
proof -
  assume m: "0 \<le> m" "m < 58" and n: "0 \<le> n" "n < 58" and eq: "ct_strerror (- m) = ct_strerror (- n)"
  have "ct_err_str ! nat m = ct_err_str ! nat n" using eq m n by (simp add: ct_strerror_index)
  then have "nat m = nat n"
    using m n ct_err_str_distinct by (simp add: nth_eq_iff_index_eq ct_err_str_length)
  moreover have "ct_err_str ! nat m \<noteq> ct_err_str ! 58"
    using m ct_err_str_distinct by (simp add: nth_eq_iff_index_eq ct_err_str_length nat_eq_iff)
  ultimately show ?thesis
    using m n by (simp add: ct_strerror_index ct_err_str_last ct_strerror_out_of_table)
qed

end
