(* ===== verification/Signature.thy ===== *)
theory Signature
  imports Tools
begin

section \<open>Signature checks on payloads\<close>

text \<open>
  \<open>ctforged/signature.c\<close>: a payload is an ELF file that ends in a \<open>ctforged_sign_header\<close>
  (8 bytes of flag, a 32-bit length, 128 bytes of signature, 140 bytes in all); an eBPF
  object also carries a \<open>SIGN_x\<close> section for every program section \<open>x\<close>.  The checks exist
  twice, on a file and on a buffer.  OpenSSL (\<open>ossl\<close>) and libelf (\<open>libelf\<close>) are parameters:
  the key in a PEM file, the result of \<open>EVP_DigestVerify\<close>, and the sections libelf lists.
\<close>

record 'k ossl =
  key_open :: "string \<Rightarrow> bool"
  pem_pubkey :: "string \<Rightarrow> 'k option"
  pem_privkey :: "string \<Rightarrow> 'k option"
  md_ctx_ok :: bool
  verify_init_ok :: "'k \<Rightarrow> bool"
  digest_verify :: "'k \<Rightarrow> byte list \<Rightarrow> byte list \<Rightarrow> int"
  sign_init_ok :: "'k \<Rightarrow> bool"
  digest_sign_size :: "'k \<Rightarrow> byte list \<Rightarrow> nat option"
  digest_sign :: "'k \<Rightarrow> byte list \<Rightarrow> byte list option"

record elf_scn =
  scn_hdr_ok :: bool
  scn_name :: "string option"
  scn_data :: "byte list option"

record libelf =
  elf_version_ok :: bool
  elf_rw_ok :: "string \<Rightarrow> bool"
  elf_parse :: "byte list \<Rightarrow> elf_scn list option"
  shstrndx_ok :: "byte list \<Rightarrow> bool"

record 'k sig_env =
  sos :: os_env
  ssl :: "'k ossl"
  elf :: libelf

text \<open>An argument of the verifier: NULL, a readable object, or a range that leaves its object.\<close>

datatype buf_ref = Null | Obj "byte list" | PastEnd

definition SIGN_HDR :: nat where
  "SIGN_HDR = 140"

definition SIGN_MAX :: nat where
  "SIGN_MAX = 128"

subsection \<open>Keys and files\<close>

definition load_file :: "os_env \<Rightarrow> string \<Rightarrow> byte list option" where
  "load_file os filename =
     (case open_existing os ''rb'' filename of
        None \<Rightarrow> None
      | Some b \<Rightarrow>
          if \<not> stat_ok os filename then None
          else if \<not> malloc_ok os (length b + 1) then None
          else if \<not> read_ok os filename then None
          else Some (b @ [NUL]))"

definition sm2_verify ::
  "'k ossl \<Rightarrow> byte list option \<Rightarrow> string option \<Rightarrow> buf_ref \<Rightarrow> int outcome"
where
  "sm2_verify cr msg pubkey_pem_path sig =
     (case (msg, pubkey_pem_path) of
        (Some m, Some path) \<Rightarrow>
          if sig = Null then Ret (-1)
          else if \<not> key_open cr path then Ret (-2)
          else
            (case pem_pubkey cr path of
               None \<Rightarrow> Ret (-3)
             | Some pkey \<Rightarrow>
                 if \<not> md_ctx_ok cr then Ret (-4)
                 else if \<not> verify_init_ok cr pkey then Ret (-5)
                 else
                   (case sig of
                      Obj s \<Rightarrow> Ret (if digest_verify cr pkey s m = 1 then 0 else -6)
                    | _ \<Rightarrow> Undef))
      | _ \<Rightarrow> Ret (-1))"

text \<open>\<open>sm2_sign\<close>: the first \<open>EVP_DigestSign\<close> asks for the size of the signature, the second signs.\<close>

definition sm2_sign ::
  "os_env \<Rightarrow> 'k ossl \<Rightarrow> byte list option \<Rightarrow> string option \<Rightarrow> byte list option \<times> int"
where
  "sm2_sign os cr msg privkey_pem_path =
     (case (msg, privkey_pem_path) of
        (Some m, Some path) \<Rightarrow>
          if \<not> key_open cr path then (None, -2)
          else
            (case pem_privkey cr path of
               None \<Rightarrow> (None, -3)
             | Some pkey \<Rightarrow>
                 if \<not> md_ctx_ok cr then (None, -4)
                 else if \<not> sign_init_ok cr pkey then (None, -5)
                 else
                   (case digest_sign_size cr pkey m of
                      None \<Rightarrow> (None, -5)
                    | Some n \<Rightarrow>
                        if \<not> malloc_ok os n then (None, -6)
                        else
                          (case digest_sign cr pkey m of
                             None \<Rightarrow> (None, -7)
                           | Some s \<Rightarrow> (Some s, 0))))
      | _ \<Rightarrow> (None, -1))"

definition is_tail_signed :: "os_env \<Rightarrow> string \<Rightarrow> bool outcome" where
  "is_tail_signed os input_file =
     (case open_existing os ''rb'' input_file of
        None \<Rightarrow> Exited
      | Some b \<Rightarrow>
          if \<not> seek_ok os input_file \<or> length b < SIGN_HDR then Exited
          else if \<not> read_ok os input_file then Exited
          else Ret (take 7 (drop (length b - SIGN_HDR) b) = ''CTFORGE''))"

subsection \<open>Sections of an ELF file\<close>

definition open_elf :: "'k sig_env \<Rightarrow> string \<Rightarrow> (byte list \<times> elf_scn list) option" where
  "open_elf e input_filename =
     (if \<not> elf_rw_ok (elf e) input_filename then None
      else
        (case files (sos e) input_filename of
           None \<Rightarrow> None
         | Some b \<Rightarrow>
             if \<not> elf_version_ok (elf e) then None
             else map_option (\<lambda>scns. (b, scns)) (elf_parse (elf e) b)))"

text \<open>
  The loop of \<open>list_sections\<close> over the section names: a failed \<open>strdup\<close> gives NULL, a header or
  a name libelf does not deliver is used all the same.
\<close>

fun list_names :: "os_env \<Rightarrow> elf_scn list \<Rightarrow> string list option outcome" where
  "list_names os [] = Ret (Some [])"
| "list_names os (s # ss) =
     (if \<not> scn_hdr_ok s then Undef
      else
        (case scn_name s of
           None \<Rightarrow> Undef
         | Some n \<Rightarrow>
             if \<not> malloc_ok os (length n + 1) then Ret None
             else and_then (list_names os ss) (\<lambda>r. Ret (map_option ((#) n) r))))"

definition list_sections :: "'k sig_env \<Rightarrow> string \<Rightarrow> string list option outcome" where
  "list_sections e input_filename =
     (case open_elf e input_filename of
        None \<Rightarrow> Ret None
      | Some (b, scns) \<Rightarrow>
          if \<not> shstrndx_ok (elf e) b then Ret None
          else if \<not> malloc_ok (sos e) (8 * length scns) then Ret None
          else list_names (sos e) scns)"

text \<open>The first section of a given name, as the two loops with \<open>strcmp\<close> find it.\<close>

fun find_scn :: "string \<Rightarrow> elf_scn list \<Rightarrow> elf_scn option outcome" where
  "find_scn section_name [] = Ret None"
| "find_scn section_name (s # ss) =
     (if \<not> scn_hdr_ok s then Undef
      else
        (case scn_name s of
           None \<Rightarrow> Undef
         | Some n \<Rightarrow> if n = section_name then Ret (Some s) else find_scn section_name ss))"

text \<open>\<open>get_section_content\<close>: NULL, or the \<open>data\<close> field, which may be NULL itself.\<close>

definition get_section_content ::
  "'k sig_env \<Rightarrow> string \<Rightarrow> string \<Rightarrow> byte list option option outcome"
where
  "get_section_content e input_filename section_name =
     (if \<not> malloc_ok (sos e) 16 then Ret None
      else
        (case open_elf e input_filename of
           None \<Rightarrow> Ret None
         | Some (b, scns) \<Rightarrow>
             if \<not> shstrndx_ok (elf e) b then Undef
             else
               and_then (find_scn section_name scns) (\<lambda>r.
                 Ret (Some (case r of
                   None \<Rightarrow> None
                 | Some s \<Rightarrow>
                     (case scn_data s of
                        None \<Rightarrow> None
                      | Some d \<Rightarrow>
                          if length d > 0 \<and> malloc_ok (sos e) (length d) then Some d else None))))))"

definition section_exists :: "'k sig_env \<Rightarrow> string \<Rightarrow> string \<Rightarrow> bool outcome" where
  "section_exists e input_filename section_name =
     (case open_elf e input_filename of
        None \<Rightarrow> Ret False
      | Some (b, scns) \<Rightarrow>
          if \<not> shstrndx_ok (elf e) b then Undef
          else and_then (find_scn section_name scns) (\<lambda>r. Ret (r \<noteq> None)))"

definition sign_name :: "string \<Rightarrow> string" where
  "sign_name n = snprintf_s 256 (''SIGN_'' @ n)"

subsection \<open>Section signatures\<close>

text \<open>
  The loop of \<open>do_verify_ebpf_section_sign\<close> over the section names: names that start with a
  dot are skipped, \<open>SIGN_\<close> names are noted, any other section needs its signature section.
\<close>

fun verify_names ::
  "'k sig_env \<Rightarrow> string \<Rightarrow> string \<Rightarrow> string list \<Rightarrow> bool \<Rightarrow> int outcome"
where
  "verify_names e key_path input_file [] has_sign_section = Ret (if has_sign_section then 0 else -1)"
| "verify_names e key_path input_file (n # ns) has_sign_section =
     (if take 1 n = ''.'' then verify_names e key_path input_file ns has_sign_section
      else if starts_with (Some n) (Some ''SIGN_'') then verify_names e key_path input_file ns True
      else
        and_then (section_exists e input_file (sign_name n)) (\<lambda>ex.
        if \<not> ex then Ret (-1)
        else
          and_then (get_section_content e input_file n) (\<lambda>sc.
          case sc of
            Some (Some data) \<Rightarrow>
              and_then (get_section_content e input_file (sign_name n)) (\<lambda>sn.
              case sn of
                Some (Some sig) \<Rightarrow>
                  and_then (sm2_verify (ssl e) (Some data) (Some key_path) (Obj sig)) (\<lambda>ret.
                  if ret \<noteq> 0 then Ret (-1)
                  else verify_names e key_path input_file ns has_sign_section)
              | _ \<Rightarrow> Ret (-1))
          | _ \<Rightarrow> Ret (-1))))"

definition do_verify_ebpf_section_sign :: "'k sig_env \<Rightarrow> string \<Rightarrow> string \<Rightarrow> int outcome" where
  "do_verify_ebpf_section_sign e key_path input_file =
     and_then (list_sections e input_file) (\<lambda>secname.
       case secname of
         None \<Rightarrow> Ret (-1)
       | Some names \<Rightarrow> verify_names e key_path input_file names False)"

text \<open>
  The loop of the buffer variant runs over the sections themselves; sections without a
  readable header or with an empty name are skipped.
\<close>

fun find_scn_mem :: "string \<Rightarrow> elf_scn list \<Rightarrow> elf_scn option" where
  "find_scn_mem name [] = None"
| "find_scn_mem name (s # ss) =
     (if scn_hdr_ok s \<and> scn_name s = Some name then Some s else find_scn_mem name ss)"

definition scn_bytes :: "elf_scn \<Rightarrow> byte list option" where
  "scn_bytes s = (case scn_data s of Some d \<Rightarrow> if d = [] then None else Some d | None \<Rightarrow> None)"

fun verify_scns ::
  "'k ossl \<Rightarrow> string \<Rightarrow> elf_scn list \<Rightarrow> elf_scn list \<Rightarrow> bool \<Rightarrow> int outcome"
where
  "verify_scns cr key_path scns [] has_sign_section = Ret (if has_sign_section then 0 else -1)"
| "verify_scns cr key_path scns (s # ss) has_sign_section =
     (if \<not> scn_hdr_ok s then verify_scns cr key_path scns ss has_sign_section
      else
        (case scn_name s of
           None \<Rightarrow> verify_scns cr key_path scns ss has_sign_section
         | Some n \<Rightarrow>
             if n = [] \<or> take 1 n = ''.'' then verify_scns cr key_path scns ss has_sign_section
             else if starts_with (Some n) (Some ''SIGN_'') then verify_scns cr key_path scns ss True
             else
               (case find_scn_mem (sign_name n) scns of
                  None \<Rightarrow> Ret (-1)
                | Some sign_scn \<Rightarrow>
                    (case (scn_bytes s, scn_bytes sign_scn) of
                       (Some data, Some sig) \<Rightarrow>
                         and_then (sm2_verify cr (Some data) (Some key_path) (Obj sig)) (\<lambda>ret.
                         if ret \<noteq> 0 then Ret (-1)
                         else verify_scns cr key_path scns ss has_sign_section)
                     | _ \<Rightarrow> Ret (-1)))))"

definition do_verify_ebpf_section_sign_from_mem ::
  "'k sig_env \<Rightarrow> string option \<Rightarrow> byte list option \<Rightarrow> int outcome"
where
  "do_verify_ebpf_section_sign_from_mem e key_path buf =
     (case (key_path, buf) of
        (Some key, Some b) \<Rightarrow>
          if b = [] then Ret (-1)
          else if \<not> elf_version_ok (elf e) then Ret (-1)
          else
            (case elf_parse (elf e) b of
               None \<Rightarrow> Ret (-1)
             | Some scns \<Rightarrow>
                 if \<not> shstrndx_ok (elf e) b then Ret (-1)
                 else verify_scns (ssl e) key scns scns False)
      | _ \<Rightarrow> Ret (-1))"

subsection \<open>The tail signature\<close>

text \<open>
  \<open>do_verify_tail_sign\<close>: the size of the signed part is computed in \<open>size_t\<close>, so it wraps; the
  length field is taken from the file as it is.
\<close>

definition do_verify_tail_sign :: "'k sig_env \<Rightarrow> string \<Rightarrow> string \<Rightarrow> int outcome" where
  "do_verify_tail_sign e key_path input_file =
     and_then (is_tail_signed (sos e) input_file) (\<lambda>signed.
       if \<not> signed then Ret 1
       else
         (case load_file (sos e) input_file of
            None \<Rightarrow> Ret 1
          | Some file_content \<Rightarrow>
              let total_size = get_file_size (sos e) input_file;
                  file_size = nat ((int total_size - int SIGN_HDR) mod 2 ^ 64)
              in
                (case bslice (file_size + 8) 4 file_content of
                   None \<Rightarrow> Undef
                 | Some len \<Rightarrow>
                     let sig = (case bslice (file_size + 12) (le32 len) file_content of
                                  None \<Rightarrow> PastEnd | Some s \<Rightarrow> Obj s)
                     in
                       and_then (sm2_verify (ssl e) (Some (take file_size file_content)) (Some key_path) sig)
                         (\<lambda>ret. Ret (if ret \<noteq> 0 then 1 else 0)))))"

definition do_verify_tail_sign_from_mem ::
  "'k sig_env \<Rightarrow> string option \<Rightarrow> byte list option \<Rightarrow> int outcome"
where
  "do_verify_tail_sign_from_mem e key_path buf =
     (case (key_path, buf) of
        (Some key, Some b) \<Rightarrow>
          if b = [] then Ret 1
          else if length b < SIGN_HDR then Ret 1
          else
            let data_size = length b - SIGN_HDR;
                sign_len = le32 (drop (data_size + 8) b)
            in
              if sign_len = 0 \<or> sign_len > SIGN_MAX then Ret 1
              else
                let sig = (case bslice (data_size + 12) sign_len b of None \<Rightarrow> PastEnd | Some s \<Rightarrow> Obj s)
                in
                  and_then (sm2_verify (ssl e) (Some (take data_size b)) (Some key) sig)
                    (\<lambda>ret. Ret (if ret \<noteq> 0 then 1 else 0))
      | _ \<Rightarrow> Ret 1)"

subsection \<open>The whole check\<close>

definition do_safty_verify_sign ::
  "'k sig_env \<Rightarrow> string option \<Rightarrow> string option \<Rightarrow> int outcome"
where
  "do_safty_verify_sign e public_key_path input_file =
     (case (public_key_path, input_file) of
        (Some key, Some file) \<Rightarrow>
          (case open_existing (sos e) ''rb'' file of
             None \<Rightarrow> Ret 1
           | Some b \<Rightarrow>
               if \<not> read_ok (sos e) file \<or> length b < 4 then Ret 1
               else if \<not> is_elf_magic b then Ret 1
               else if \<not> seek_ok (sos e) file \<or> length b < 20 then Ret 1
               else
                 let magic = le16 (drop 18 b) in
                 and_then
                   (if magic = 0xf7 then do_verify_ebpf_section_sign e key file else Ret 0)
                   (\<lambda>ebpf_ret.
                 and_then (do_verify_tail_sign e key file) (\<lambda>tail_ret.
                 if magic = 0xf7 then Ret (if ebpf_ret = 0 \<and> tail_ret = 0 then 0 else 1)
                 else Ret tail_ret)))
      | _ \<Rightarrow> Ret 1)"

definition do_safety_verify_sign_from_mem ::
  "'k sig_env \<Rightarrow> string option \<Rightarrow> byte list option \<Rightarrow> int outcome"
where
  "do_safety_verify_sign_from_mem e public_key_path buf =
     (case (public_key_path, buf) of
        (Some key, Some b) \<Rightarrow>
          if b = [] then Ret 1
          else if length b < 4 then Ret 1
          else if \<not> is_elf_magic b then Ret 1
          else if length b < 20 then Ret 1
          else
            let magic = le16 (drop 18 b) in
            and_then
              (if magic = 0xf7 then do_verify_ebpf_section_sign_from_mem e (Some key) (Some b) else Ret 0)
              (\<lambda>ebpf_ret.
            and_then (do_verify_tail_sign_from_mem e (Some key) (Some b)) (\<lambda>tail_ret.
            if magic = 0xf7 then Ret (if ebpf_ret = 0 \<and> tail_ret = 0 then 0 else 1)
            else Ret tail_ret))
      | _ \<Rightarrow> Ret 1)"

subsection \<open>What an accepted payload is\<close>

lemma sm2_verify_0:
  "sm2_verify cr (Some m) (Some path) sig = Ret 0 \<longleftrightarrow>
     key_open cr path \<and> md_ctx_ok cr \<and>
     (\<exists>k s. pem_pubkey cr path = Some k \<and> verify_init_ok cr k \<and> sig = Obj s \<and>
            digest_verify cr k s m = 1)"
  by (auto simp: sm2_verify_def split: option.splits buf_ref.splits if_splits)

text \<open>
  The section contents the file variant sees, and a section whose contents verify: \<open>verified\<close>
  says that under the key at \<open>path\<close> the bytes \<open>d\<close> have the signature \<open>sg\<close>.
\<close>

definition verified :: "'k ossl \<Rightarrow> string \<Rightarrow> byte list \<Rightarrow> byte list \<Rightarrow> bool" where
  "verified cr path d sg \<longleftrightarrow>
     (case pem_pubkey cr path of Some k \<Rightarrow> digest_verify cr k sg d = 1 | None \<Rightarrow> False)"

lemma sm2_verify_verified:
  "sm2_verify cr (Some m) (Some path) (Obj sg) = Ret 0 \<Longrightarrow> verified cr path m sg"
  by (auto simp: sm2_verify_0 verified_def)

definition must_be_signed :: "string \<Rightarrow> bool" where
  "must_be_signed n \<longleftrightarrow> take 1 n \<noteq> ''.'' \<and> \<not> starts_with (Some n) (Some ''SIGN_'')"

lemma content_Ret_0:
  "(case sc of Some (Some d) \<Rightarrow> f d | _ \<Rightarrow> Ret (-1 :: int)) = Ret 0 \<longleftrightarrow>
     (\<exists>d. sc = Some (Some d) \<and> f d = Ret 0)"
  by (auto split: option.splits)

lemma verify_names_sound:
  assumes "verify_names e key file names has = Ret 0"
    and "n \<in> set names" and "must_be_signed n"
  shows "\<exists>d sg. get_section_content e file n = Ret (Some (Some d)) \<and>
      get_section_content e file (sign_name n) = Ret (Some (Some sg)) \<and> verified (ssl e) key d sg"
  using assms
proof (induction names arbitrary: has)
  case (Cons x ns)
  show ?case
  proof (cases "must_be_signed x")
    case False
    with Cons.prems obtain h where "verify_names e key file ns h = Ret 0" and "n \<in> set ns"
      by (auto simp: must_be_signed_def split: if_splits)
    then show ?thesis using Cons.IH Cons.prems(3) by blast
  next
    case True
    then have c: "take 1 x \<noteq> ''.''" "\<not> starts_with (Some x) (Some ''SIGN_'')"
      by (simp_all add: must_be_signed_def)
    obtain d sg where d: "get_section_content e file x = Ret (Some (Some d))"
      and sg: "get_section_content e file (sign_name x) = Ret (Some (Some sg))"
      and v: "sm2_verify (ssl e) (Some d) (Some key) (Obj sg) = Ret 0"
      and rest: "verify_names e key file ns has = Ret 0"
      using Cons.prems(1) c by (auto simp: and_then_Ret content_Ret_0 split: if_splits)
    show ?thesis
      using d sg sm2_verify_verified [OF v] Cons.IH [OF rest] Cons.prems(2,3) by auto
  qed
qed simp

lemma list_names_Some:
  "list_names os scns = Ret (Some names) \<Longrightarrow> map scn_name scns = map Some names"
proof (induction scns arbitrary: names)
  case (Cons s ss)
  then show ?case by (auto simp: and_then_Ret split: if_splits option.splits)
qed simp

lemma ebpf_sections_sound:
  assumes "do_verify_ebpf_section_sign e key file = Ret 0"
  shows "\<exists>b scns. open_elf e file = Some (b, scns) \<and>
    (\<forall>s\<in>set scns. \<forall>n. scn_name s = Some n \<longrightarrow> must_be_signed n \<longrightarrow>
       (\<exists>d sg. get_section_content e file n = Ret (Some (Some d)) \<and>
          get_section_content e file (sign_name n) = Ret (Some (Some sg)) \<and>
          verified (ssl e) key d sg))"
proof -
  from assms obtain names where l: "list_sections e file = Ret (Some names)"
    and v: "verify_names e key file names False = Ret 0"
    by (auto simp: do_verify_ebpf_section_sign_def and_then_Ret split: option.splits)
  from l obtain b scns where o: "open_elf e file = Some (b, scns)"
    and ln: "list_names (sos e) scns = Ret (Some names)"
    by (auto simp: list_sections_def split: option.splits prod.splits if_splits)
  have "n \<in> set names" if "s \<in> set scns" "scn_name s = Some n" for s n
  proof -
    have "Some n \<in> set (map scn_name scns)" using that by force
    then show ?thesis using list_names_Some [OF ln] by auto
  qed
  then show ?thesis using o verify_names_sound [OF v] by blast
qed

lemma tail_size:
  assumes "load_file os file = Some buf" and "is_tail_signed os file = Ret True"
    and "files os file = Some b" and "length b < 2 ^ 63"
    and "bslice (nat ((int (get_file_size os file) - int SIGN_HDR) mod 2 ^ 64) + 8) 4 buf = Some len"
  shows "buf = b @ [NUL] \<and> SIGN_HDR \<le> length b \<and>
    nat ((int (get_file_size os file) - int SIGN_HDR) mod 2 ^ 64) = length b - SIGN_HDR \<and>
    take 7 (drop (length b - SIGN_HDR) b) = ''CTFORGE''"
proof -
  have buf: "buf = b @ [NUL]" and hdr: "SIGN_HDR \<le> length b"
    and flag: "take 7 (drop (length b - SIGN_HDR) b) = ''CTFORGE''"
    using assms(1-3)
    by (auto simp: load_file_def is_tail_signed_def open_existing_def split: option.splits if_splits)
  have "get_file_size os file \<noteq> SIZE_MAX"
    using assms(4,5) by (auto simp: bslice_def buf SIZE_MAX_def SIGN_HDR_def)
  then have "get_file_size os file = length b"
    using assms(3) by (auto simp: get_file_size_def open_existing_def split: option.splits if_splits)
  moreover have "nat ((int (length b) - int SIGN_HDR) mod 2 ^ 64) = length b - SIGN_HDR"
    using hdr assms(4) by (simp add: SIGN_HDR_def mod_if)
  ultimately show ?thesis using buf hdr flag by simp
qed

definition tail_signature :: "byte list \<Rightarrow> byte list" where
  "tail_signature b =
     take (le32 (take 4 (drop (length b - 132) b))) (drop (length b - SIGN_MAX) (b @ [NUL]))"

lemma tail_sound:
  assumes "do_verify_tail_sign e key file = Ret 0"
    and "files (sos e) file = Some b" and "length b < 2 ^ 63"
  shows "SIGN_HDR \<le> length b \<and> take 7 (drop (length b - SIGN_HDR) b) = ''CTFORGE'' \<and>
    verified (ssl e) key (take (length b - SIGN_HDR) b) (tail_signature b)"
proof -
  let ?fs = "nat ((int (get_file_size (sos e) file) - int SIGN_HDR) mod 2 ^ 64)"
  from assms(1) obtain buf len sg where
    t: "is_tail_signed (sos e) file = Ret True" and l: "load_file (sos e) file = Some buf"
    and len: "bslice (?fs + 8) 4 buf = Some len"
    and sg: "bslice (?fs + 12) (le32 len) buf = Some sg"
    and v: "sm2_verify (ssl e) (Some (take ?fs buf)) (Some key) (Obj sg) = Ret 0"
    by (auto simp: do_verify_tail_sign_def and_then_Ret Let_def sm2_verify_0
        split: option.splits if_splits)
  note sz = tail_size [OF l t assms(2,3) len]
  have "len = take 4 (drop (length b - 132) b)"
    using len sz by (auto simp: bslice_def SIGN_HDR_def split: if_splits)
  then have "sg = tail_signature b"
    using sg sz by (auto simp: bslice_def tail_signature_def SIGN_HDR_def SIGN_MAX_def split: if_splits)
  then show ?thesis using sz sm2_verify_verified [OF v] by auto
qed

lemma safty_parts:
  assumes "do_safty_verify_sign e (Some key) (Some file) = Ret 0"
    and "files (sos e) file = Some b"
  shows "is_elf_magic b" and "do_verify_tail_sign e key file = Ret 0"
    and "le16 (drop 18 b) = 0xf7 \<Longrightarrow> do_verify_ebpf_section_sign e key file = Ret 0"
proof -
  have "open_existing (sos e) ''rb'' file = Some b"
    using assms by (auto simp: do_safty_verify_sign_def open_existing_def split: option.splits if_splits)
  then show "is_elf_magic b" and "do_verify_tail_sign e key file = Ret 0"
    and "le16 (drop 18 b) = 0xf7 \<Longrightarrow> do_verify_ebpf_section_sign e key file = Ret 0"
    using assms(1) by (auto simp: do_safty_verify_sign_def Let_def and_then_Ret split: if_splits)
qed


text \<open>
  A sample world for the concrete cases: one key, the sum of the bytes as its ``signature'',
  every call of the C library successful, and one file.
\<close>

definition sum_sig :: "byte list \<Rightarrow> byte list" where
  "sum_sig m = [char_of (sum_list (map of_char m) :: nat)]"

definition sample_ssl :: "nat ossl" where
  "sample_ssl =
     \<lparr>key_open = (\<lambda>_. True), pem_pubkey = (\<lambda>_. Some 1), pem_privkey = (\<lambda>_. Some 1),
      md_ctx_ok = True, verify_init_ok = (\<lambda>_. True),
      digest_verify = (\<lambda>_ s m. if s = sum_sig m then 1 else 0), sign_init_ok = (\<lambda>_. True),
      digest_sign_size = (\<lambda>_ _. Some 1), digest_sign = (\<lambda>_ m. Some (sum_sig m))\<rparr>"

definition sample_os :: "byte list \<Rightarrow> os_env" where
  "sample_os b =
     \<lparr>files = (\<lambda>p. if p = ''p'' then Some b else None), fopen_ok = (\<lambda>_ _. True),
      stat_ok = (\<lambda>_. True), seek_ok = (\<lambda>_. True), tell_ok = (\<lambda>_. True), read_ok = (\<lambda>_. True),
      write_ok = (\<lambda>_. True), trunc_ok = (\<lambda>_. True), malloc_ok = (\<lambda>_. True)\<rparr>"

definition sample_sig_env :: "byte list \<Rightarrow> elf_scn list \<Rightarrow> nat sig_env" where
  "sample_sig_env b scns =
     \<lparr>sos = sample_os b, ssl = sample_ssl,
      elf = \<lparr>elf_version_ok = True, elf_rw_ok = (\<lambda>_. True), elf_parse = (\<lambda>_. Some scns),
             shstrndx_ok = (\<lambda>_. True)\<rparr>\<rparr>"

definition scn :: "string \<Rightarrow> byte list \<Rightarrow> elf_scn" where
  "scn n d = \<lparr>scn_hdr_ok = True, scn_name = Some n, scn_data = Some d\<rparr>"

text \<open>An ELF header of 20 bytes for the eBPF machine, and a trailer with a given length field.\<close>

definition sample_head :: "byte list" where
  "sample_head = [CHR 0x7F] @ ''ELF'' @ replicate 14 NUL @ [CHR 0xF7, NUL]"

definition sample_payload :: "nat \<Rightarrow> byte list" where
  "sample_payload len =
     sample_head @ ''CTFORGE'' @ [NUL, char_of len, NUL, NUL, NUL] @
     sum_sig sample_head @ replicate 127 NUL"

definition sample_scns :: "elf_scn list" where
  "sample_scns =
     [scn ''.text'' ''xyz'', scn ''prog'' ''AB'', scn ''SIGN_prog'' (sum_sig ''AB'')]"

lemma sample_accepted:
  "do_safty_verify_sign (sample_sig_env (sample_payload 1) sample_scns) (Some ''k'') (Some ''p'') = Ret 0"
  by code_simp


text \<open>
  A readable ELF file of 20 to 139 bytes (not an eBPF object) makes the check end the
  daemon: \<open>is_tail_signed\<close> calls \<open>exit\<close> where the trailer does not fit, instead of reporting an
  unsigned payload.
\<close>

lemma short_payload_exits:
  assumes "open_existing (sos e) ''rb'' file = Some b" and "read_ok (sos e) file" "seek_ok (sos e) file"
    and "is_elf_magic b" and "20 \<le> length b" "length b < SIGN_HDR" and "le16 (drop 18 b) \<noteq> 0xf7"
  shows "do_safty_verify_sign e (Some key) (Some file) = Exited \<and>
    do_safety_verify_sign_from_mem e (Some key) (Some b) = Ret 1"
  using assms
  by (auto simp: do_safty_verify_sign_def do_verify_tail_sign_def is_tail_signed_def
      do_safety_verify_sign_from_mem_def do_verify_tail_sign_from_mem_def Let_def)

text \<open>
  C36.  The file variant trusts the length field of the trailer: with a length above 129 the
  verifier is given a range that leaves the loaded buffer, whatever the contents.  The buffer
  variant rejects every such length.
\<close>

theorem tail_length_unchecked:
  assumes "load_file (sos e) file = Some (b @ [NUL])" and "is_tail_signed (sos e) file = Ret True"
    and "get_file_size (sos e) file = length b" and "SIGN_HDR \<le> length b" and "length b < 2 ^ 63"
    and "le32 (take 4 (drop (length b - 132) b)) > 129"
    and "key_open (ssl e) key" and "pem_pubkey (ssl e) key = Some k" and "md_ctx_ok (ssl e)"
    and "verify_init_ok (ssl e) k"
  shows "do_verify_tail_sign e key file = Undef \<and>
    do_verify_tail_sign_from_mem e (Some key) (Some b) = Ret 1"
proof -
  have fs: "nat ((int (length b) - int SIGN_HDR) mod 2 ^ 64) = length b - SIGN_HDR"
    using assms(4,5) by (simp add: SIGN_HDR_def mod_if)
  have "le32 (drop (length b - 132) b) = le32 (take 4 (drop (length b - 132) b))"
    by (simp add: le32_def)
  then show ?thesis using assms fs
    by (auto simp: do_verify_tail_sign_def do_verify_tail_sign_from_mem_def bslice_def SIGN_HDR_def
        SIGN_MAX_def sm2_verify_def Let_def split: option.splits)
qed

lemma sample_payload_facts:
  "load_file (sample_os (sample_payload 200)) ''p'' = Some (sample_payload 200 @ [NUL])"
  "is_tail_signed (sample_os (sample_payload 200)) ''p'' = Ret True"
  "get_file_size (sample_os (sample_payload 200)) ''p'' = length (sample_payload 200)"
  "length (sample_payload 200) = 160"
  "le32 (take 4 (drop 28 (sample_payload 200))) = 200"
  by code_simp+

theorem tail_length_unchecked_witness:
  "do_verify_tail_sign (sample_sig_env (sample_payload 200) []) ''k'' ''p'' = Undef"
  using tail_length_unchecked [of "sample_sig_env (sample_payload 200) []" "''p''" "sample_payload 200" "''k''" 1]
  by (simp add: sample_sig_env_def sample_payload_facts SIGN_HDR_def) (simp add: sample_ssl_def)

subsection \<open>The buffer variant\<close>

lemma sm2_verify_Obj: "\<exists>r. sm2_verify cr m k (Obj s) = Ret r"
  by (auto simp: sm2_verify_def split: option.splits)

lemma verify_scns_returns: "\<exists>r. verify_scns cr key scns ss has = Ret r"
proof (induction ss arbitrary: has)
  case (Cons s ss)
  have "\<exists>r. and_then (sm2_verify cr (Some d) (Some key) (Obj sg)) (\<lambda>ret.
      if ret \<noteq> 0 then Ret (-1) else verify_scns cr key scns ss has) = Ret r" for d sg
    using sm2_verify_Obj [of cr "Some d" "Some key" sg] Cons.IH by auto
  with Cons.IH show ?case by (auto split: option.splits)
qed simp

lemma tail_mem_cases:
  "do_verify_tail_sign_from_mem e (Some key) (Some b) = Ret 1 \<or>
   (SIGN_HDR \<le> length b \<and> 0 < le32 (drop (length b - 132) b) \<and>
    le32 (drop (length b - 132) b) \<le> SIGN_MAX \<and>
    do_verify_tail_sign_from_mem e (Some key) (Some b) =
      and_then (sm2_verify (ssl e) (Some (take (length b - SIGN_HDR) b)) (Some key)
                 (Obj (take (le32 (drop (length b - 132) b)) (drop (length b - SIGN_MAX) b))))
        (\<lambda>ret. Ret (if ret \<noteq> 0 then 1 else 0)))"
  by (auto simp: do_verify_tail_sign_from_mem_def Let_def bslice_def SIGN_HDR_def SIGN_MAX_def)

lemma tail_mem_returns: "\<exists>r. do_verify_tail_sign_from_mem e (Some key) (Some b) = Ret r"
  using tail_mem_cases [of e key b] sm2_verify_Obj by (metis and_then.simps(1))



subsection \<open>Section checks: file against buffer\<close>

definition scns_ok :: "elf_scn list \<Rightarrow> bool" where
  "scns_ok scns \<longleftrightarrow>
     (\<forall>s\<in>set scns. scn_hdr_ok s \<and> (\<exists>n. scn_name s = Some n \<and> n \<noteq> [])) \<and>
     distinct (map scn_name scns)"

lemma find_scn_eq:
  "\<forall>s\<in>set scns. scn_hdr_ok s \<and> scn_name s \<noteq> None \<Longrightarrow> find_scn n scns = Ret (find_scn_mem n scns)"
  by (induction scns) auto

lemma find_scn_mem_self:
  "scns_ok scns \<Longrightarrow> s \<in> set scns \<Longrightarrow> scn_name s = Some n \<Longrightarrow> find_scn_mem n scns = Some s"
proof (induction scns)
  case (Cons x xs)
  then show ?case by (force simp: scns_ok_def)
qed simp

lemma list_names_all:
  "scns_ok scns \<Longrightarrow> (\<And>n. malloc_ok os n) \<Longrightarrow>
     list_names os scns = Ret (Some (map (\<lambda>s. the (scn_name s)) scns))"
  by (induction scns) (auto simp: scns_ok_def)

lemma section_views:
  assumes "scns_ok scns" and "open_elf e file = Some (b, scns)" and "shstrndx_ok (elf e) b"
    and "\<And>n. malloc_ok (sos e) n"
  shows "section_exists e file n = Ret (find_scn_mem n scns \<noteq> None)"
    and "get_section_content e file n = Ret (Some (case find_scn_mem n scns of None \<Rightarrow> None | Some s \<Rightarrow> scn_bytes s))"
proof -
  have f: "find_scn n scns = Ret (find_scn_mem n scns)"
    using assms(1) by (intro find_scn_eq) (auto simp: scns_ok_def)
  show "section_exists e file n = Ret (find_scn_mem n scns \<noteq> None)"
    using assms f by (simp add: section_exists_def)
  show "get_section_content e file n = Ret (Some (case find_scn_mem n scns of None \<Rightarrow> None | Some s \<Rightarrow> scn_bytes s))"
    using assms f by (auto simp: get_section_content_def scn_bytes_def split: option.splits)
qed

lemma verify_loops_agree:
  assumes ok: "scns_ok scns" and o: "open_elf e file = Some (b, scns)" "shstrndx_ok (elf e) b"
    "\<And>n. malloc_ok (sos e) n"
  shows "set ss \<subseteq> set scns \<Longrightarrow>
    verify_names e key file (map (\<lambda>s. the (scn_name s)) ss) has = verify_scns (ssl e) key scns ss has"
proof (induction ss arbitrary: has)
  case (Cons s ss)
  then obtain n where n: "scn_name s = Some n" "n \<noteq> []" "scn_hdr_ok s" and s: "s \<in> set scns"
    using ok by (auto simp: scns_ok_def)
  note views = section_views [OF ok o] find_scn_mem_self [OF ok s n(1)]
  show ?case using Cons n by (auto simp: views split: option.splits cong: if_cong)
qed simp



text \<open>
  With two sections of the same name the two checks differ: the file variant looks the
  contents up by name, so it verifies the first section twice and never the second, and
  accepts; the buffer variant verifies each section and rejects.
\<close>

lemma duplicate_section_escapes_file_check:
  assumes "scns_ok [scn n d, scn (sign_name n) sg]" and "must_be_signed n"
    and "open_elf e file = Some (b, [scn n d, scn n d', scn (sign_name n) sg])" and "shstrndx_ok (elf e) b"
    and "\<And>n. malloc_ok (sos e) n" and "b \<noteq> []" and "starts_with (Some (sign_name n)) (Some ''SIGN_'')"
    and "d \<noteq> []" "d' \<noteq> []" "sg \<noteq> []"
    and "key_open (ssl e) key" "md_ctx_ok (ssl e)" "pem_pubkey (ssl e) key = Some k" "verify_init_ok (ssl e) k"
    and "digest_verify (ssl e) k sg d = 1" and "digest_verify (ssl e) k sg d' \<noteq> 1"
  shows "do_verify_ebpf_section_sign e key file = Ret 0 \<and>
    do_verify_ebpf_section_sign_from_mem e (Some key) (Some b) = Ret (-1)"
proof -
  have p: "elf_version_ok (elf e)" "elf_parse (elf e) b = Some [scn n d, scn n d', scn (sign_name n) sg]"
    using assms(3) by (auto simp: open_elf_def split: if_splits option.splits)
  have n: "n \<noteq> []" "n \<noteq> sign_name n" "take (Suc 0) (sign_name n) \<noteq> ''.''"
    using assms(1) by (auto simp: scns_ok_def scn_def) (simp add: sign_name_def snprintf_s_def)
  have d: "take (Suc 0) n \<noteq> ''.''" "\<not> starts_with (Some n) (Some ''SIGN_'')"
    using assms(2) by (simp_all add: must_be_signed_def)
  have vf: "do_verify_ebpf_section_sign e key file = Ret 0"
    using assms(3-16) n d
    by (simp add: do_verify_ebpf_section_sign_def list_sections_def section_exists_def
        get_section_content_def scn_def sm2_verify_def)
  have "do_verify_ebpf_section_sign_from_mem e (Some key) (Some b) = Ret (-1)"
    using assms(4-16) n d p
    by (simp add: do_verify_ebpf_section_sign_from_mem_def scn_def scn_bytes_def sm2_verify_def)
  with vf show ?thesis by simp
qed

end
