(* ===== verification/Payload.thy ===== *)
theory Payload
  imports ModuleList Signature
begin

section \<open>Loading and unloading payloads\<close>

text \<open>
  \<open>ctforged/payload.c\<close> from line 84: unpacking an xz payload into a memfd, checking it, mapping
  it with \<open>dlopen\<close>, running its \<open>init\<close>, and the way back.  \<open>daemon\<close> holds the module table, the
  open memfds with their contents, the open library handles and the payload functions that
  have been called.  Liblzma, the dynamic linker and the payload's own code are parameters
  (\<open>payload_env\<close>).  Log messages are left out.
\<close>

definition PUBLICKEY_PATH :: string where
  "PUBLICKEY_PATH = ''/etc/ctforge/public.pem''"

definition PATH_MAX :: nat where
  "PATH_MAX = 4096"

datatype lzma_ret = LZMA_OK | LZMA_STREAM_END | LZMA_ERROR

text \<open>
  What \<open>init\<close> returns: NULL, a JSON value that is no object, or an object with its \<open>code\<close>
  member, which may be absent, not an integer, or an integer.
\<close>

datatype code_field = NoCode | CodeOther | CodeInt int

datatype init_result = InitNull | InitOther | InitObject code_field

record 'k payload_env =
  env_sig :: "'k sig_env"
  env_mem_ok :: bool
  env_new :: addr
  env_payload_dir :: string
  env_memfd :: int
  env_decoder_ok :: bool
  env_lzma :: "(lzma_ret \<times> byte list \<times> bool) list"
  env_seek_end_ok :: bool
  env_dlopen :: "string \<Rightarrow> nat option"
  env_dlsym :: "nat \<Rightarrow> string \<Rightarrow> nat option"
  env_init :: "nat \<Rightarrow> init_result"

record daemon =
  tab :: modtab
  memfds :: "32 word \<Rightarrow> byte list option"
  handles :: "nat list"
  called :: "nat list"

subsection \<open>Symbols\<close>

definition symbol_full_name :: "string \<Rightarrow> string \<Rightarrow> string" where
  "symbol_full_name m sy = snprintf_s PATH_MAX (''ctforge_'' @ m @ ''_'' @ sy)"

definition module_find_symbol :: "'k payload_env \<Rightarrow> nat \<Rightarrow> string \<Rightarrow> string \<Rightarrow> nat option" where
  "module_find_symbol e handle m sy = env_dlsym e handle (symbol_full_name m sy)"

definition mod_find_sym :: "'k payload_env \<Rightarrow> nat \<Rightarrow> string \<Rightarrow> string \<Rightarrow> nat option" where
  "mod_find_sym e handle m sy = env_dlsym e handle (symbol_full_name m sy)"

subsection \<open>Unpacking\<close>

text \<open>
  The loop around \<open>lzma_code\<close>: each answer is its return value, the bytes it produced, and
  whether \<open>write\<close> took them all.  \<open>None\<close> means that the loop is still running after the answers.
\<close>

fun xz_loop :: "(lzma_ret \<times> byte list \<times> bool) list \<Rightarrow> byte list \<Rightarrow> (byte list \<times> bool) option" where
  "xz_loop [] out = None"
| "xz_loop ((r, produced, wok) # rest) out =
     (if r = LZMA_ERROR then Some (out, False)
      else if produced \<noteq> [] \<and> \<not> wok then Some (out, False)
      else if r = LZMA_STREAM_END then Some (out @ produced, True)
      else xz_loop rest (out @ produced))"

definition memfd_path :: "32 word \<Rightarrow> string" where
  "memfd_path fd = snprintf_s PATH_MAX (''/proc/self/fd/'' @ show_int (sint fd))"

text \<open>
  \<open>decompress_xzpayload\<close>: on success the memfd stays open with the unpacked bytes; every failure
  closes it again and leaves \<open>payload_fd\<close> at -1.
\<close>

definition decompress_xzpayload ::
  "'k payload_env \<Rightarrow> daemon \<Rightarrow> module_info \<Rightarrow> (daemon \<times> module_info \<times> int) option"
where
  "decompress_xzpayload e d mi =
     (let os = sos (env_sig e); mi = mi\<lparr>payload_fd := -1\<rparr>; path = payload_fullpath mi in
      case open_existing os ''rb'' path of
        None \<Rightarrow> Some (d, mi, -1)
      | Some file_data \<Rightarrow>
          if \<not> seek_ok os path then Some (d, mi, -1)
          else if \<not> tell_ok os path then Some (d, mi, -1)
          else if \<not> malloc_ok os (length file_data) then Some (d, mi, -1)
          else if \<not> read_ok os path then Some (d, mi, -1)
          else
            let fd = word_of_int (env_memfd e) :: 32 word; mi' = mi\<lparr>payload_fd := fd\<rparr> in
            if fd = -1 then Some (d, mi', -1)
            else if \<not> env_decoder_ok e then Some (d, mi'\<lparr>payload_fd := -1\<rparr>, -1)
            else
              (case xz_loop (env_lzma e) [] of
                 None \<Rightarrow> None
               | Some (out, ok) \<Rightarrow>
                   if \<not> ok then Some (d, mi'\<lparr>payload_fd := -1\<rparr>, -1)
                   else if \<not> env_seek_end_ok e then Some (d, mi'\<lparr>payload_fd := -1\<rparr>, -1)
                   else
                     Some (d\<lparr>memfds := (memfds d)(fd \<mapsto> out)\<rparr>,
                           mi'\<lparr>payload_size := length out, payload_memfd_path := memfd_path fd\<rparr>, 0)))"

subsection \<open>Loading\<close>

text \<open>The file system as the check sees it: the memfd appears under its \<open>/proc/self/fd\<close> path.\<close>

definition with_memfd :: "'k sig_env \<Rightarrow> string \<Rightarrow> byte list option \<Rightarrow> 'k sig_env" where
  "with_memfd s path out = s\<lparr>sos := (sos s)\<lparr>files := (files (sos s))(path := out)\<rparr>\<rparr>"

definition set_mod :: "addr \<Rightarrow> module_info option \<Rightarrow> daemon \<Rightarrow> daemon" where
  "set_mod a mi d = d\<lparr>tab := (tab d)\<lparr>mods := (mods (tab d))(a := mi)\<rparr>\<rparr>"

definition dl_close :: "nat \<Rightarrow> daemon \<Rightarrow> daemon" where
  "dl_close hdl d = d\<lparr>handles := remove1 hdl (handles d)\<rparr>"

definition code_value :: "code_field \<Rightarrow> int" where
  "code_value c = (case c of NoCode \<Rightarrow> 0 | CodeOther \<Rightarrow> -1 | CodeInt n \<Rightarrow> n)"

text \<open>
  Lines 303 to 392, after \<open>dlopen\<close>: the symbols, the call of \<open>init\<close>, its verdict, the insertion,
  and the exit that closes the handle.
\<close>

definition start_module ::
  "'k payload_env \<Rightarrow> daemon \<Rightarrow> string \<Rightarrow> addr \<Rightarrow> module_info \<Rightarrow> nat \<Rightarrow> (daemon \<times> int) outcome option"
where
  "start_module e d name a mi hdl =
     (case module_find_symbol e hdl name ''init'' of
        None \<Rightarrow> Some (Ret (dl_close hdl (set_mod a (Some (mi\<lparr>ops_init := None\<rparr>)) d), 1))
      | Some init \<Rightarrow>
          (case module_find_symbol e hdl name ''exit'' of
             None \<Rightarrow> Some (Ret (dl_close hdl (set_mod a (Some (mi\<lparr>ops_init := Some init, ops_exit := None\<rparr>)) d), 1))
           | Some ex \<Rightarrow>
               let mi = mi\<lparr>ops_init := Some init, ops_exit := Some ex\<rparr>;
                   d = (set_mod a (Some mi) d)\<lparr>called := called d @ [init]\<rparr>
               in
                 (case env_init e init of
                    InitNull \<Rightarrow> Some (Ret (dl_close hdl d, 1))
                  | InitOther \<Rightarrow> Some (Ret (dl_close hdl d, 1))
                  | InitObject code \<Rightarrow>
                      if code_value code \<noteq> 0 then Some (Ret (dl_close hdl d, 1))
                      else
                        (case add_module a (tab d) of
                           None \<Rightarrow> None
                         | Some r \<Rightarrow>
                             Some (and_then r (\<lambda>(t, ret).
                               if ret \<noteq> 0 then Ret (dl_close hdl (d\<lparr>tab := t\<rparr>), 1)
                               else
                                 Ret (set_mod a (Some (mi\<lparr>payload_fd := -1\<rparr>))
                                        (d\<lparr>tab := t, memfds := (memfds d)(payload_fd mi := None)\<rparr>), 0)))))))"

text \<open>Lines 264 to 269: the fresh \<open>module_info\<close>, its other fields being whatever \<open>malloc\<close> left.\<close>

definition new_module :: "'k payload_env \<Rightarrow> string \<Rightarrow> module_info \<Rightarrow> module_info" where
  "new_module e name junk =
     junk\<lparr>mod_name := snprintf_s NAME_MAX name,
          payload_fullpath := snprintf_s PATH_MAX (env_payload_dir e @ ''/ctforge_'' @ name @ ''.so.xz'')\<rparr>"

definition do_one_insmod ::
  "'k payload_env \<Rightarrow> daemon \<Rightarrow> string \<Rightarrow> module_info \<Rightarrow> (daemon \<times> int) outcome option"
where
  "do_one_insmod e d name junk =
     (if \<not> env_mem_ok e then Some Undef
      else
        let a = env_new e;
            mi = new_module e name junk;
            d1 = set_mod a (Some mi) d
        in
          case find_module (tab d1) name of
            None \<Rightarrow> None
          | Some Exited \<Rightarrow> Some Exited
          | Some Undef \<Rightarrow> Some Undef
          | Some (Ret (Some _)) \<Rightarrow> Some (Ret (set_mod a None d1, 1))
          | Some (Ret None) \<Rightarrow>
              (case decompress_xzpayload e d1 mi of
                 None \<Rightarrow> None
               | Some (d2, mi2, ret) \<Rightarrow>
                   if ret \<noteq> 0 then Some (Ret (set_mod a None d2, 1))
                   else
                     let d3 = set_mod a (Some mi2) d2; path = payload_memfd_path mi2 in
                     (case do_safty_verify_sign (with_memfd (env_sig e) path (memfds d3 (payload_fd mi2)))
                             (Some PUBLICKEY_PATH) (Some path) of
                        Exited \<Rightarrow> Some Exited
                      | Undef \<Rightarrow> Some Undef
                      | Ret v \<Rightarrow>
                          if v \<noteq> 0 then Some (Ret (d3, 1))
                          else
                            (case env_dlopen e path of
                               None \<Rightarrow> Some (Ret (d3, 1))
                             | Some hdl \<Rightarrow>
                                 start_module e (d3\<lparr>handles := hdl # handles d3\<rparr>) name a
                                   (mi2\<lparr>dl_handle := Some hdl, mod_name := snprintf_s NAME_MAX name\<rparr>) hdl))))"

subsection \<open>Unloading\<close>

definition do_one_rmmod :: "daemon \<Rightarrow> string \<Rightarrow> (daemon \<times> int) outcome option" where
  "do_one_rmmod d name =
     (case find_module (tab d) name of
        None \<Rightarrow> None
      | Some r \<Rightarrow>
          Some (and_then r (\<lambda>found.
            case found of
              None \<Rightarrow> Ret (d, -1)
            | Some a \<Rightarrow>
                (case mods (tab d) a of
                   None \<Rightarrow> Undef
                 | Some mi \<Rightarrow>
                     (case ops_exit mi of
                        None \<Rightarrow> Ret (d, -1)
                      | Some ex \<Rightarrow>
                          let d = d\<lparr>called := called d @ [ex]\<rparr>;
                              d = (case dl_handle mi of
                                     None \<Rightarrow> d
                                   | Some hdl \<Rightarrow> set_mod a (Some (mi\<lparr>dl_handle := None\<rparr>)) (dl_close hdl d));
                              d = (if payload_fd mi \<noteq> -1
                                   then d\<lparr>memfds := (memfds d)(payload_fd mi := None)\<rparr> else d)
                          in and_then (delete_module a (tab d)) (\<lambda>t.
                               Ret (set_mod a None (d\<lparr>tab := t\<rparr>), 0)))))))"

subsection \<open>What loading does\<close>

lemma decompress_cases:
  assumes "decompress_xzpayload e d mi = Some (d', mi', ret)"
  shows "(ret = -1 \<and> d' = d) \<or>
    (\<exists>out fd. ret = 0 \<and> fd = word_of_int (env_memfd e) \<and> fd \<noteq> -1 \<and>
       xz_loop (env_lzma e) [] = Some (out, True) \<and>
       d' = d\<lparr>memfds := (memfds d)(fd \<mapsto> out)\<rparr> \<and>
       mi' = mi\<lparr>payload_fd := fd, payload_size := length out, payload_memfd_path := memfd_path fd\<rparr>)"
  using assms
  by (auto simp: decompress_xzpayload_def Let_def split: option.splits if_splits prod.splits)

lemma set_mod_frame [simp]:
  "memfds (set_mod a m d) = memfds d" "handles (set_mod a m d) = handles d"
  "called (set_mod a m d) = called d"
  "mods (tab (set_mod a m d)) = (mods (tab d))(a := m)"
  by (simp_all add: set_mod_def)

lemma dl_close_frame [simp]:
  "memfds (dl_close h d) = memfds d" "called (dl_close h d) = called d" "tab (dl_close h d) = tab d"
  "handles (dl_close h (d\<lparr>handles := h # hs\<rparr>)) = hs"
  by (simp_all add: dl_close_def)

text \<open>
  Everything that can happen up to the check: \<open>insmod_cases\<close> lists the exits of
  \<open>do_one_insmod\<close> before \<open>dlopen\<close>, and the state in which \<open>start_module\<close> takes over.
\<close>

definition unpacked_module :: "'k payload_env \<Rightarrow> string \<Rightarrow> module_info \<Rightarrow> byte list \<Rightarrow> module_info" where
  "unpacked_module e name junk out =
     (let fd = word_of_int (env_memfd e) in
      (new_module e name junk)\<lparr>payload_fd := fd, payload_size := length out, payload_memfd_path := memfd_path fd\<rparr>)"

definition unpacked_state :: "'k payload_env \<Rightarrow> daemon \<Rightarrow> string \<Rightarrow> module_info \<Rightarrow> byte list \<Rightarrow> daemon" where
  "unpacked_state e d name junk out =
     set_mod (env_new e) (Some (unpacked_module e name junk out))
       ((set_mod (env_new e) (Some (new_module e name junk)) d)
          \<lparr>memfds := (memfds d)(word_of_int (env_memfd e) \<mapsto> out)\<rparr>)"

definition payload_check :: "'k payload_env \<Rightarrow> byte list \<Rightarrow> int outcome" where
  "payload_check e out =
     (let path = memfd_path (word_of_int (env_memfd e)) in
      do_safty_verify_sign (with_memfd (env_sig e) path (Some out)) (Some PUBLICKEY_PATH) (Some path))"

lemma insmod_cases:
  assumes "do_one_insmod e d name junk = Some (Ret (d', r))"
  shows "(r = 1 \<and> d' = set_mod (env_new e) None d) \<or>
    (\<exists>out. xz_loop (env_lzma e) [] = Some (out, True) \<and>
       find_module (tab (set_mod (env_new e) (Some (new_module e name junk)) d)) name = Some (Ret None) \<and>
       ((\<exists>v. payload_check e out = Ret v \<and> (v \<noteq> 0 \<or> env_dlopen e (memfd_path (word_of_int (env_memfd e))) = None) \<and>
             r = 1 \<and> d' = unpacked_state e d name junk out) \<or>
        (\<exists>hdl. payload_check e out = Ret 0 \<and> env_dlopen e (memfd_path (word_of_int (env_memfd e))) = Some hdl \<and>
           start_module e ((unpacked_state e d name junk out)\<lparr>handles := hdl # handles d\<rparr>) name (env_new e)
             ((unpacked_module e name junk out)\<lparr>dl_handle := Some hdl\<rparr>) hdl = Some (Ret (d', r)))))"
proof -
  let ?d1 = "set_mod (env_new e) (Some (new_module e name junk)) d"
  have undo: "set_mod (env_new e) None ?d1 = set_mod (env_new e) None d" by (simp add: set_mod_def)
  have def: "do_one_insmod e d name junk \<noteq> Some Undef" using assms by simp
  show ?thesis
  proof (cases "find_module (tab ?d1) name = Some (Ret None)")
    case False
    then show ?thesis using assms undo
      by (auto simp: do_one_insmod_def Let_def split: if_splits option.splits outcome.splits)
  next
    case found: True
    show ?thesis
    proof (cases "decompress_xzpayload e ?d1 (new_module e name junk)")
      case None
      then show ?thesis using assms found
        by (auto simp: do_one_insmod_def Let_def split: if_splits)
    next
      case (Some t)
      obtain d2 mi2 ret where t: "t = (d2, mi2, ret)" by (cases t) auto
      from decompress_cases [OF Some [unfolded t]] show ?thesis
      proof
        assume "ret = -1 \<and> d2 = ?d1"
        then show ?thesis using assms found Some t undo
          by (auto simp: do_one_insmod_def Let_def split: if_splits)
      next
        assume "\<exists>out fd. ret = 0 \<and> fd = word_of_int (env_memfd e) \<and> fd \<noteq> -1 \<and>
          xz_loop (env_lzma e) [] = Some (out, True) \<and>
          d2 = ?d1\<lparr>memfds := (memfds ?d1)(fd \<mapsto> out)\<rparr> \<and>
          mi2 = (new_module e name junk)\<lparr>payload_fd := fd, payload_size := length out, payload_memfd_path := memfd_path fd\<rparr>"
        then obtain out where ret: "ret = 0" and x: "xz_loop (env_lzma e) [] = Some (out, True)"
          and d2: "set_mod (env_new e) (Some mi2) d2 = unpacked_state e d name junk out"
          and mi2: "mi2 = unpacked_module e name junk out"
          by (auto simp: unpacked_state_def unpacked_module_def Let_def)
        have view: "memfds (unpacked_state e d name junk out) (payload_fd mi2) = Some out"
          "handles (unpacked_state e d name junk out) = handles d"
          "payload_memfd_path mi2 = memfd_path (word_of_int (env_memfd e))"
          "mi2\<lparr>dl_handle := h, mod_name := snprintf_s NAME_MAX name\<rparr> = mi2\<lparr>dl_handle := h\<rparr>" for h
          by (simp_all add: unpacked_state_def mi2 unpacked_module_def new_module_def Let_def)
        show ?thesis using assms found Some t ret x d2 view
          by (auto simp: do_one_insmod_def Let_def payload_check_def mi2 [symmetric]
              split: if_splits outcome.splits option.splits)
      qed
    qed
  qed
qed

lemma add_module_refused:
  "add_module m h = Some (Ret (t, r)) \<Longrightarrow> r \<noteq> 0 \<Longrightarrow> t = h"
  by (auto simp: add_module_def and_then_Ret split: option.splits)

lemma start_module_cases:
  assumes "start_module e d name a mi hdl = Some (Ret (d', r))"
  shows "(r = 1 \<and> (\<exists>mi' c. d' = dl_close hdl ((set_mod a (Some mi') d)\<lparr>called := c\<rparr>))) \<or>
    (r = 0 \<and> (\<exists>init ex t mi'. module_find_symbol e hdl name ''init'' = Some init \<and>
       module_find_symbol e hdl name ''exit'' = Some ex \<and>
       mi' = mi\<lparr>ops_init := Some init, ops_exit := Some ex\<rparr> \<and>
       (\<exists>c. env_init e init = InitObject c \<and> code_value c = 0) \<and>
       add_module a (tab (set_mod a (Some mi') d)) = Some (Ret (t, 0)) \<and>
       d' = set_mod a (Some (mi'\<lparr>payload_fd := -1\<rparr>))
              (d\<lparr>tab := t, called := called d @ [init], memfds := (memfds d)(payload_fd mi := None)\<rparr>)))"
proof (cases "module_find_symbol e hdl name ''init''")
  case None
  with assms have "r = 1 \<and> d' = dl_close hdl ((set_mod a (Some (mi\<lparr>ops_init := None\<rparr>)) d)\<lparr>called := called d\<rparr>)"
    by (simp add: start_module_def set_mod_def)
  then show ?thesis by blast
next
  case i: (Some init)
  show ?thesis
  proof (cases "module_find_symbol e hdl name ''exit''")
    case None
    with assms i have "r = 1 \<and> d' = dl_close hdl ((set_mod a (Some (mi\<lparr>ops_init := Some init, ops_exit := None\<rparr>)) d)\<lparr>called := called d\<rparr>)"
      by (simp add: start_module_def set_mod_def)
    then show ?thesis by blast
  next
    case x: (Some ex)
    let ?mi = "mi\<lparr>ops_init := Some init, ops_exit := Some ex\<rparr>"
    let ?d = "(set_mod a (Some ?mi) d)\<lparr>called := called d @ [init]\<rparr>"
    have tab: "tab ?d = tab (set_mod a (Some ?mi) d)" by simp
    consider (failed) "r = 1 \<and> d' = dl_close hdl ?d"
      | (added) c t where "env_init e init = InitObject c" "code_value c = 0"
          "add_module a (tab (set_mod a (Some ?mi) d)) = Some (Ret (t, 0))" "r = 0"
          "d' = set_mod a (Some (?mi\<lparr>payload_fd := -1\<rparr>)) (?d\<lparr>tab := t, memfds := (memfds ?d)(payload_fd ?mi := None)\<rparr>)"
    proof (cases "env_init e init")
      case (InitObject c)
      show thesis
      proof (cases "code_value c = 0")
        case True
        obtain t ret where am: "add_module a (tab (set_mod a (Some ?mi) d)) = Some (Ret (t, ret))"
          using assms i x InitObject True
          by (auto simp: start_module_def Let_def and_then_Ret split: option.splits)
        show thesis
        proof (cases "ret = 0")
          case True
          with am that(2) [OF InitObject \<open>code_value c = 0\<close>] assms i x InitObject \<open>code_value c = 0\<close>
          show thesis by (simp add: start_module_def Let_def)
        next
          case False
          have "t = tab (set_mod a (Some ?mi) d)" using add_module_refused [OF am False] .
          with False am that(1) assms i x InitObject True show thesis by (simp add: start_module_def)
        qed
      qed (use that(1) assms i x InitObject in \<open>simp add: start_module_def Let_def\<close>)
    qed (use that(1) assms i x in \<open>simp_all add: start_module_def Let_def\<close>)
    then show ?thesis
    proof cases
      case failed
      then show ?thesis by blast
    next
      case (added c t)
      then show ?thesis using i x by (auto simp: set_mod_def)
    qed
  qed
qed


lemma modlist_inv_set_mod:
  "a \<notin> set xs \<Longrightarrow> modlist_inv (tab (set_mod a v d)) xs = modlist_inv (tab d) xs"
  by (rule modlist_inv_cong) (auto simp: set_mod_def)

lemma fresh_not_listed: "modlist_inv t xs \<Longrightarrow> mods t a = None \<Longrightarrow> a \<notin> set xs"
  by (force simp: modlist_inv_def names_distinct_def)

lemma add_module_ok:
  assumes inv: "modlist_inv t xs" and a: "a \<notin> set xs" "a \<noteq> HEAD"
    and mi: "mods t a = Some mi" "length (mod_name mi) < NAME_MAX"
    and ok: "add_module a t = Some (Ret (t', 0))"
  shows "modlist_inv t' (a # xs) \<and> mods t' = mods t"
proof -
  have "find_module_unlocked t (mod_name mi) = Some (Ret None) \<and> list_add a HEAD t = Ret t'"
    using ok mi find_module_list(2) [of t xs] inv modlist_inv_mapped [OF inv]
    by (auto simp: add_module_def modlist_inv_def and_then_Ret split: option.splits)
  moreover then have "find (name_matches t (mod_name mi)) xs = None"
    using find_module_list(2) [of t xs] inv modlist_inv_mapped [OF inv] by (simp add: modlist_inv_def)
  moreover have "\<exists>h'. list_add a HEAD t = Ret h' \<and> dll h' (a # xs) \<and> mods h' = mods t"
    using dll_add [of t xs a] inv a by (auto simp: modlist_inv_def)
  ultimately have d: "dll t' (a # xs)" "mods t' = mods t"
    and n: "\<forall>x\<in>set xs. \<not> name_matches t (mod_name mi) x"
    by (auto simp: find_None_iff)
  have "map_option mod_name (mods t x) \<noteq> Some (mod_name mi)" if "x \<in> set xs" for x
    using that n inv short_name_match [of t x _ "mod_name mi"] mi(2)
    by (fastforce simp: modlist_inv_def names_distinct_def)
  then have "names_distinct t' (a # xs)"
    using d(2) inv mi by (auto simp: modlist_inv_def names_distinct_alt) (metis option.simps(9) map_option_eq_Some)
  with d show ?thesis by (simp add: modlist_inv_def)
qed

text \<open>
  The assumptions of a load: a well-formed list, and an address and a descriptor that are
  not in use.
\<close>

definition load_ready :: "'k payload_env \<Rightarrow> daemon \<Rightarrow> addr list \<Rightarrow> bool" where
  "load_ready e d xs \<longleftrightarrow>
     modlist_inv (tab d) xs \<and> mods (tab d) (env_new e) = None \<and> env_new e \<noteq> HEAD \<and>
     memfds d (word_of_int (env_memfd e)) = None"

lemma insmod_success:
  assumes ready: "load_ready e d xs" and len: "length name < NAME_MAX"
    and run: "do_one_insmod e d name junk = Some (Ret (d', 0))"
  shows "\<exists>hdl init ex. modlist_inv (tab d') (env_new e # xs) \<and>
    memfds d' = memfds d \<and> handles d' = hdl # handles d \<and> called d' = called d @ [init] \<and>
    (\<exists>mi. mods (tab d') = (mods (tab d))(env_new e \<mapsto> mi) \<and> mod_name mi = name \<and>
          dl_handle mi = Some hdl \<and> ops_exit mi = Some ex \<and> payload_fd mi = -1)"
proof -
  let ?a = "env_new e"
  have a: "?a \<notin> set xs" "?a \<noteq> HEAD" and inv: "modlist_inv (tab d) xs"
    using ready fresh_not_listed by (auto simp: load_ready_def)
  from insmod_cases [OF run] obtain out hdl where
    "start_module e ((unpacked_state e d name junk out)\<lparr>handles := hdl # handles d\<rparr>) name ?a
       ((unpacked_module e name junk out)\<lparr>dl_handle := Some hdl\<rparr>) hdl = Some (Ret (d', 0))"
    by auto
  from start_module_cases [OF this] obtain init ex t mi where
    mi: "mi = (unpacked_module e name junk out)\<lparr>dl_handle := Some hdl, ops_init := Some init, ops_exit := Some ex\<rparr>"
    and add: "add_module ?a (tab (set_mod ?a (Some mi) (unpacked_state e d name junk out))) = Some (Ret (t, 0))"
    and d': "d' = set_mod ?a (Some (mi\<lparr>payload_fd := -1\<rparr>))
       ((unpacked_state e d name junk out)\<lparr>handles := hdl # handles d, tab := t, called := called d @ [init],
          memfds := (memfds (unpacked_state e d name junk out))(word_of_int (env_memfd e) := None)\<rparr>)"
    by (auto simp: set_mod_def unpacked_module_def unpacked_state_def Let_def)
  have u: "modlist_inv (tab (set_mod ?a (Some mi) (unpacked_state e d name junk out))) xs"
    using inv modlist_inv_set_mod [OF a(1), of "Some mi" d] by (simp add: unpacked_state_def set_mod_def)
  have nm: "mod_name mi = name" using len by (simp add: mi unpacked_module_def new_module_def Let_def)
  have t: "modlist_inv t (?a # xs)" "mods t = (mods (tab d))(?a \<mapsto> mi)"
    using add_module_ok [OF u a _ _ add] nm len by (auto simp: unpacked_state_def)
  have fds: "memfds d' = memfds d" using ready by (auto simp: d' unpacked_state_def load_ready_def)
  have "mods (tab d') = (mods (tab d))(?a \<mapsto> mi\<lparr>payload_fd := -1\<rparr>)" using t(2) by (simp add: d')
  moreover have "modlist_inv (tab d') (?a # xs)"
    using t modlist_inv_cong [of "tab d'" t "?a # xs"] by (auto simp: d' set_mod_def)
  moreover have "handles d' = hdl # handles d" "called d' = called d @ [init]"
    by (simp_all add: d' unpacked_state_def)
  moreover have "dl_handle mi = Some hdl" "ops_exit mi = Some ex" by (simp_all add: mi)
  ultimately show ?thesis using fds nm
    by (intro exI [of _ hdl] exI [of _ init] exI [of _ ex] conjI exI [of _ "mi\<lparr>payload_fd := -1\<rparr>"]) simp_all
qed

lemma insmod_failure:
  assumes ready: "load_ready e d xs"
    and run: "do_one_insmod e d name junk = Some (Ret (d', r))" and fail: "r \<noteq> 0"
  shows "r = 1 \<and> modlist_inv (tab d') xs \<and> handles d' = handles d"
proof -
  let ?a = "env_new e"
  have a: "?a \<notin> set xs" and inv: "modlist_inv (tab d) xs"
    using ready fresh_not_listed by (auto simp: load_ready_def)
  have keep: "modlist_inv (tab (set_mod ?a v d)) xs" for v using modlist_inv_set_mod [OF a] inv by simp
  have unp: "modlist_inv (tab (set_mod ?a v (unpacked_state e d name junk out))) xs" for v out
    using keep [of v] by (simp add: unpacked_state_def set_mod_def)
  have unp': "modlist_inv (tab (unpacked_state e d name junk out)) xs" for out
    using keep by (simp add: unpacked_state_def set_mod_def)
  from insmod_cases [OF run] show ?thesis
  proof
    assume "r = 1 \<and> d' = set_mod ?a None d"
    then show ?thesis using keep by simp
  next
    assume "\<exists>out. xz_loop (env_lzma e) [] = Some (out, True) \<and>
       find_module (tab (set_mod ?a (Some (new_module e name junk)) d)) name = Some (Ret None) \<and>
       ((\<exists>v. payload_check e out = Ret v \<and> (v \<noteq> 0 \<or> env_dlopen e (memfd_path (word_of_int (env_memfd e))) = None) \<and>
             r = 1 \<and> d' = unpacked_state e d name junk out) \<or>
        (\<exists>hdl. payload_check e out = Ret 0 \<and> env_dlopen e (memfd_path (word_of_int (env_memfd e))) = Some hdl \<and>
           start_module e ((unpacked_state e d name junk out)\<lparr>handles := hdl # handles d\<rparr>) name ?a
             ((unpacked_module e name junk out)\<lparr>dl_handle := Some hdl\<rparr>) hdl = Some (Ret (d', r))))"
    then obtain out hdl where o: "(r = 1 \<and> d' = unpacked_state e d name junk out) \<or>
        start_module e ((unpacked_state e d name junk out)\<lparr>handles := hdl # handles d\<rparr>) name ?a
             ((unpacked_module e name junk out)\<lparr>dl_handle := Some hdl\<rparr>) hdl = Some (Ret (d', r))"
      by blast
    then show ?thesis
    proof
      assume "r = 1 \<and> d' = unpacked_state e d name junk out"
      then show ?thesis using unp' by (simp add: unpacked_state_def)
    next
      assume "start_module e ((unpacked_state e d name junk out)\<lparr>handles := hdl # handles d\<rparr>) name ?a
             ((unpacked_module e name junk out)\<lparr>dl_handle := Some hdl\<rparr>) hdl = Some (Ret (d', r))"
      from start_module_cases [OF this] fail obtain mi' c where "r = 1" and
        d': "d' = dl_close hdl ((set_mod ?a (Some mi') ((unpacked_state e d name junk out)\<lparr>handles := hdl # handles d\<rparr>))\<lparr>called := c\<rparr>)"
        by auto
      then show ?thesis using unp [of "Some mi'" out] by (simp add: set_mod_def dl_close_def)
    qed
  qed
qed

text \<open>
  C6.  Every return of \<open>do_one_insmod\<close> leaves a well-formed module list with pairwise different
  names.  On success the new module is in front, one library handle more is open, no
  descriptor is left open, and the module is found under its name.  On failure the result is
  1, and the list and the open handles are what they were.
\<close>

theorem insmod_keeps_module_list:
  assumes "load_ready e d xs" and "length name < NAME_MAX"
    and "do_one_insmod e d name junk = Some (Ret (d', r))"
  shows "if r = 0
    then modlist_inv (tab d') (env_new e # xs) \<and> memfds d' = memfds d \<and>
      length (handles d') = length (handles d) + 1 \<and>
      find_module (tab d') name = Some (Ret (Some (env_new e)))
    else r = 1 \<and> modlist_inv (tab d') xs \<and> handles d' = handles d"
proof (cases "r = 0")
  case True
  from insmod_success [OF assms(1,2)] assms(3) True obtain hdl mi where
    inv: "modlist_inv (tab d') (env_new e # xs)" and fds: "memfds d' = memfds d"
    and h: "handles d' = hdl # handles d" and m: "mods (tab d') (env_new e) = Some mi" "mod_name mi = name"
    by fastforce
  then show ?thesis using True modlist_find [OF inv assms(2)] by simp
next
  case False
  then show ?thesis using insmod_failure [OF assms(1,3)] by simp
qed

lemma rmmod_run:
  assumes inv: "modlist_inv (tab d) (ys @ a # zs)" and mi: "mods (tab d) a = Some mi"
    and name: "mod_name mi = name" "length name < NAME_MAX"
    and ops: "ops_exit mi = Some ex" "dl_handle mi = Some hdl" "payload_fd mi = -1"
  shows "\<exists>t. do_one_rmmod d name = Some (Ret (set_mod a None
      (d\<lparr>called := called d @ [ex], handles := remove1 hdl (handles d), tab := t\<rparr>), 0)) \<and>
    modlist_inv t (ys @ zs) \<and> mods t = (mods (tab d))(a \<mapsto> mi\<lparr>dl_handle := None\<rparr>)"
proof -
  let ?P = "\<lambda>x. map_option mod_name (mods (tab d) x) = Some name"
  have a: "a \<notin> set ys" "a \<notin> set zs" using inv by (auto simp: modlist_inv_def dll_def)
  have "\<not> ?P y" if "y \<in> set ys" for y
    using that inv mi name(1) by (force simp: modlist_inv_def names_distinct_def)
  then have "find ?P (ys @ a # zs) = Some a"
    using mi name(1) by (induction ys) auto
  then have f: "find_module (tab d) name = Some (Ret (Some a))" using modlist_find [OF inv name(2)] by simp
  let ?d = "set_mod a (Some (mi\<lparr>dl_handle := None\<rparr>)) (dl_close hdl (d\<lparr>called := called d @ [ex]\<rparr>))"
  have i2: "modlist_inv (tab ?d) (ys @ a # zs)"
    using inv mi modlist_inv_cong [of "tab ?d" "tab d" "ys @ a # zs"] by (auto simp: set_mod_def)
  then obtain t where t: "delete_module a (tab ?d) = Ret t" "dll t (ys @ zs)" "mods t = mods (tab ?d)"
    using dll_del [of "tab ?d" ys a zs] by (auto simp: modlist_inv_def delete_module_def)
  have "modlist_inv t (ys @ zs)"
    using i2 t by (auto simp: modlist_inv_def names_distinct_def)
  moreover have "do_one_rmmod d name = Some (Ret (set_mod a None (?d\<lparr>tab := t\<rparr>), 0))"
    using f mi ops t(1) by (simp add: do_one_rmmod_def Let_def)
  moreover have "set_mod a None (?d\<lparr>tab := t\<rparr>) =
      set_mod a None (d\<lparr>called := called d @ [ex], handles := remove1 hdl (handles d), tab := t\<rparr>)"
    by (simp add: set_mod_def dl_close_def)
  ultimately show ?thesis using t(3) by (auto simp: dl_close_def)
qed

text \<open>
  C5.  Loading and unloading are inverse: after a successful \<open>do_one_insmod\<close>, \<open>do_one_rmmod\<close> of the
  same name returns 0, and the module list, the table of modules, the open descriptors and the
  open handles are what they were before; \<open>init\<close> and then \<open>exit\<close> of the payload were called.
\<close>

theorem insmod_rmmod_roundtrip:
  assumes "load_ready e d xs" and "length name < NAME_MAX"
    and "do_one_insmod e d name junk = Some (Ret (d', 0))"
  shows "\<exists>d'' init ex. do_one_rmmod d' name = Some (Ret (d'', 0)) \<and> modlist_inv (tab d'') xs \<and>
    mods (tab d'') = mods (tab d) \<and> memfds d'' = memfds d \<and> handles d'' = handles d \<and>
    called d'' = called d @ [init, ex]"
proof -
  let ?a = "env_new e"
  from insmod_success [OF assms] obtain hdl init ex mi where
    inv: "modlist_inv (tab d') (?a # xs)" and fds: "memfds d' = memfds d"
    and h: "handles d' = hdl # handles d" and c: "called d' = called d @ [init]"
    and m: "mods (tab d') = (mods (tab d))(?a \<mapsto> mi)" "mod_name mi = name" "dl_handle mi = Some hdl"
      "ops_exit mi = Some ex" "payload_fd mi = -1"
    by auto
  have fresh: "mods (tab d) ?a = None" "?a \<notin> set xs"
    using assms(1) fresh_not_listed by (auto simp: load_ready_def)
  obtain t where r: "do_one_rmmod d' name = Some (Ret (set_mod ?a None
      (d'\<lparr>called := called d' @ [ex], handles := remove1 hdl (handles d'), tab := t\<rparr>), 0))"
    and t: "modlist_inv t xs" "mods t = (mods (tab d'))(?a \<mapsto> mi\<lparr>dl_handle := None\<rparr>)"
    using rmmod_run [of d' "[]" ?a xs mi name ex hdl] inv m assms(2) by auto
  let ?d = "set_mod ?a None (d'\<lparr>called := called d' @ [ex], handles := remove1 hdl (handles d'), tab := t\<rparr>)"
  have "mods (tab ?d) = mods (tab d)" using t(2) m(1) fresh(1) by auto
  moreover have "modlist_inv (tab ?d) xs"
    using modlist_inv_set_mod [OF fresh(2), of None "d'\<lparr>tab := t\<rparr>"] t(1) by (simp add: set_mod_def)
  ultimately show ?thesis using r fds h c by (intro exI [of _ ?d]) auto
qed

text \<open>
  A payload that is refused by the signature check keeps its memfd: \<open>do_one_insmod\<close> returns 1
  with the descriptor still open and holding the unpacked payload, and with the
  \<open>module_info\<close> still allocated, although nothing in the module list refers to it.
\<close>

lemma rejected_payload_leaks_descriptor:
  assumes "load_ready e d xs" and "env_mem_ok e" and "decompress_xzpayload e
      (set_mod (env_new e) (Some (new_module e name junk)) d) (new_module e name junk) = Some (d2, mi2, 0)"
    and "find_module (tab (set_mod (env_new e) (Some (new_module e name junk)) d)) name = Some (Ret None)"
    and "xz_loop (env_lzma e) [] = Some (out, True)" and "payload_check e out = Ret v" and "v \<noteq> 0"
  shows "\<exists>d'. do_one_insmod e d name junk = Some (Ret (d', 1)) \<and>
    memfds d (word_of_int (env_memfd e)) = None \<and> memfds d' (word_of_int (env_memfd e)) = Some out \<and>
    mods (tab d') (env_new e) \<noteq> None \<and> modlist_inv (tab d') xs"
proof -
  let ?a = "env_new e" and ?fd = "word_of_int (env_memfd e) :: 32 word"
  let ?d1 = "set_mod ?a (Some (new_module e name junk)) d"
  from decompress_cases [OF assms(3)] assms(5) have
    d2: "d2 = ?d1\<lparr>memfds := (memfds ?d1)(?fd \<mapsto> out)\<rparr>"
    and mi2: "payload_fd mi2 = ?fd" "payload_memfd_path mi2 = memfd_path ?fd" by auto
  have view: "memfds (set_mod ?a (Some mi2) d2) (payload_fd mi2) = Some out" by (simp add: d2 mi2)
  have run: "do_one_insmod e d name junk = Some (Ret (set_mod ?a (Some mi2) d2, 1))"
    using assms(2-4,6,7) view mi2 by (simp add: do_one_insmod_def Let_def payload_check_def)
  have "?a \<notin> set xs" "modlist_inv (tab d) xs"
    using assms(1) fresh_not_listed by (auto simp: load_ready_def)
  then have "modlist_inv (tab (set_mod ?a (Some mi2) d2)) xs"
    using modlist_inv_set_mod [of ?a xs _ d] by (simp add: d2 set_mod_def)
  then show ?thesis using run assms(1) by (auto simp: load_ready_def d2)
qed

subsection \<open>A sample daemon\<close>

definition sample_payload_env :: "byte list \<Rightarrow> nat payload_env" where
  "sample_payload_env out =
     \<lparr>env_sig = (sample_sig_env [] sample_scns)\<lparr>sos := (sample_os [])\<lparr>files := (\<lambda>_. Some ''xz'')\<rparr>\<rparr>,
      env_mem_ok = True, env_new = 3, env_payload_dir = ''/d'', env_memfd = 7,
      env_decoder_ok = True,
      env_lzma = [(LZMA_OK, take 50 out, True), (LZMA_STREAM_END, drop 50 out, True)],
      env_seek_end_ok = True, env_dlopen = (\<lambda>_. Some 5),
      env_dlsym = (\<lambda>_ s. if s = ''ctforge_net_init'' then Some 11
                         else if s = ''ctforge_net_exit'' then Some 12 else None),
      env_init = (\<lambda>_. InitObject (CodeInt 0))\<rparr>"

definition sample_daemon :: daemon where
  "sample_daemon =
     \<lparr>tab = \<lparr>lnext = [0 \<mapsto> 0], lprev = [0 \<mapsto> 0], mods = Map.empty\<rparr>, memfds = Map.empty,
      handles = [], called = []\<rparr>"

lemma sample_ready: "load_ready (sample_payload_env out) sample_daemon []"
  by (simp add: load_ready_def sample_payload_env_def sample_daemon_def modlist_inv_def dll_def
      names_distinct_def HEAD_def)

lemma sample_net_short: "length ''net'' < NAME_MAX"
  by (simp add: NAME_MAX_def)

lemma sample_insmod:
  "\<exists>d'. do_one_insmod (sample_payload_env (sample_payload 1)) sample_daemon ''net'' (sample_module []) = Some (Ret (d', 0))"
proof -
  have "case do_one_insmod (sample_payload_env (sample_payload 1)) sample_daemon ''net'' (sample_module []) of
      Some (Ret (d', r)) \<Rightarrow> r = 0 | _ \<Rightarrow> False"
    by code_simp
  then show ?thesis by (auto split: option.splits outcome.splits prod.splits)
qed


theorem insmod_keeps_module_list_witness:
  "\<exists>d'. do_one_insmod (sample_payload_env (sample_payload 1)) sample_daemon ''net'' (sample_module []) = Some (Ret (d', 0)) \<and>
     modlist_inv (tab d') [3] \<and> find_module (tab d') ''net'' = Some (Ret (Some 3))"
proof -
  obtain d' where r: "do_one_insmod (sample_payload_env (sample_payload 1)) sample_daemon ''net'' (sample_module []) = Some (Ret (d', 0))"
    using sample_insmod by blast
  have "env_new (sample_payload_env (sample_payload 1)) = 3" by (simp add: sample_payload_env_def)
  with insmod_keeps_module_list [OF sample_ready sample_net_short r] r show ?thesis by auto
qed

theorem insmod_rmmod_roundtrip_witness:
  "\<exists>d' d''. do_one_insmod (sample_payload_env (sample_payload 1)) sample_daemon ''net'' (sample_module []) = Some (Ret (d', 0)) \<and>
     do_one_rmmod d' ''net'' = Some (Ret (d'', 0)) \<and> handles d'' = [] \<and> modlist_inv (tab d'') []"
proof -
  obtain d' where r: "do_one_insmod (sample_payload_env (sample_payload 1)) sample_daemon ''net'' (sample_module []) = Some (Ret (d', 0))"
    using sample_insmod by blast
  have "handles sample_daemon = []" by (simp add: sample_daemon_def)
  with insmod_rmmod_roundtrip [OF sample_ready sample_net_short r] r show ?thesis by auto
qed

text \<open>A payload whose signature byte is wrong: the trailer announces a signature of two bytes.\<close>

lemma sample_rejected: "payload_check (sample_payload_env (sample_payload 2)) (sample_payload 2) = Ret 1"
  by code_simp

end
