(* ===== verification/JsonApi.thy ===== *)
theory JsonApi
  imports CPrelude
begin

section \<open>json-c as a parameter\<close>

text \<open>
  The daemon and its command line client build and read JSON through json-c.  Its functions
  are the fields of \<open>json_api\<close>, over a type of JSON values: a NULL pointer, which json-c also
  uses for the JSON null, is \<open>None\<close>.  \<open>get_ex\<close> is \<open>json_object_object_get_ex\<close>, which is false on
  NULL.  \<open>sample_api\<close> is a small instance, used only to evaluate concrete cases.
\<close>

datatype jtype = TNull | TBool | TDouble | TInt | TObject | TArray | TString

record 'j json_api =
  j_parse :: "string \<Rightarrow> 'j option"
  j_type :: "'j \<Rightarrow> jtype"
  j_get :: "'j \<Rightarrow> string \<Rightarrow> 'j option option"
  j_get_string :: "'j \<Rightarrow> string option"
  j_get_int :: "'j \<Rightarrow> int"
  j_to_string :: "'j \<Rightarrow> string option"
  j_new_object :: "'j option"
  j_new_array :: "'j option"
  j_new_string :: "string \<Rightarrow> 'j option"
  j_new_int :: "int \<Rightarrow> 'j option"
  j_new_boolean :: "bool \<Rightarrow> 'j option"
  j_add :: "'j \<Rightarrow> string \<Rightarrow> 'j option \<Rightarrow> 'j"
  j_array_add :: "'j \<Rightarrow> 'j option \<Rightarrow> 'j"

definition is_type :: "'j json_api \<Rightarrow> 'j option \<Rightarrow> jtype \<Rightarrow> bool" where
  "is_type api j t \<longleftrightarrow> (case j of None \<Rightarrow> t = TNull | Some v \<Rightarrow> j_type api v = t)"

definition get_ex :: "'j json_api \<Rightarrow> 'j option \<Rightarrow> string \<Rightarrow> 'j option option" where
  "get_ex api j key = (case j of None \<Rightarrow> None | Some v \<Rightarrow> j_get api v key)"

definition get_string :: "'j json_api \<Rightarrow> 'j option \<Rightarrow> string option" where
  "get_string api j = (case j of None \<Rightarrow> None | Some v \<Rightarrow> j_get_string api v)"

text \<open>
  What the documentation of json-c promises about \<open>json_object_object_add\<close>: the member added is
  found, the other members stay, and an object stays an object.
\<close>

definition json_members :: "'j json_api \<Rightarrow> bool" where
  "json_members api \<longleftrightarrow>
     (\<forall>ob k v k'. j_type api ob = TObject \<longrightarrow>
        j_type api (j_add api ob k v) = TObject \<and>
        j_get api (j_add api ob k v) k' = (if k' = k then Some v else j_get api ob k')) \<and>
     (\<forall>ob. j_new_object api = Some ob \<longrightarrow> j_type api ob = TObject \<and> (\<forall>k. j_get api ob k = None))"

lemma json_members_add:
  assumes "json_members api" and "j_type api ob = TObject"
  shows "j_type api (j_add api ob k v) = TObject"
    and "j_get api (j_add api ob k v) k' = (if k' = k then Some v else j_get api ob k')"
  using assms by (auto simp: json_members_def)

lemma json_members_new:
  assumes "json_members api" and "j_new_object api = Some ob"
  shows "j_type api ob = TObject" and "j_get api ob k = None"
  using assms by (auto simp: json_members_def)

subsection \<open>A small instance\<close>

datatype jv = JBool bool | JInt int | JStr string | JArr "jv option list" | JObj "(string \<times> jv option) list"

fun jv_type :: "jv \<Rightarrow> jtype" where
  "jv_type (JBool b) = TBool"
| "jv_type (JInt n) = TInt"
| "jv_type (JStr s) = TString"
| "jv_type (JArr xs) = TArray"
| "jv_type (JObj ms) = TObject"

fun jv_get :: "jv \<Rightarrow> string \<Rightarrow> jv option option" where
  "jv_get (JObj ms) k = map_of ms k"
| "jv_get _ k = None"

fun jv_add :: "jv \<Rightarrow> string \<Rightarrow> jv option \<Rightarrow> jv" where
  "jv_add (JObj ms) k v = JObj ((k, v) # filter (\<lambda>m. fst m \<noteq> k) ms)"
| "jv_add j k v = j"

fun jv_array_add :: "jv \<Rightarrow> jv option \<Rightarrow> jv" where
  "jv_array_add (JArr xs) v = JArr (xs @ [v])"
| "jv_array_add j v = j"

fun jv_string :: "jv \<Rightarrow> string option" where
  "jv_string (JStr s) = Some s"
| "jv_string _ = Some ''?''"

fun jv_int :: "jv \<Rightarrow> int" where
  "jv_int (JInt n) = n"
| "jv_int _ = 0"

definition sample_api :: "(string \<Rightarrow> jv option) \<Rightarrow> jv json_api" where
  "sample_api parse =
     \<lparr>j_parse = parse, j_type = jv_type, j_get = jv_get, j_get_string = jv_string, j_get_int = jv_int,
      j_to_string = (\<lambda>_. Some ''json''), j_new_object = Some (JObj []), j_new_array = Some (JArr []),
      j_new_string = (\<lambda>s. Some (JStr s)), j_new_int = (\<lambda>n. Some (JInt n)),
      j_new_boolean = (\<lambda>b. Some (JBool b)), j_add = jv_add, j_array_add = jv_array_add\<rparr>"

lemma map_of_filter_other: "k' \<noteq> k \<Longrightarrow> map_of (filter (\<lambda>m. fst m \<noteq> k) ms) k' = map_of ms k'"
  by (induction ms) auto

lemma jv_add_object:
  "jv_type ob = TObject \<Longrightarrow>
     jv_type (jv_add ob k v) = TObject \<and> jv_get (jv_add ob k v) k' = (if k' = k then Some v else jv_get ob k')"
  by (cases ob) (auto simp: map_of_filter_other)

lemma sample_api_members: "json_members (sample_api parse)"
  unfolding json_members_def by (simp add: sample_api_def jv_add_object)

end
