(* ===== verification/Registry.thy ===== *)
theory Registry
  imports Interfaces
begin

section \<open>Registries of the daemon\<close>

text \<open>
  \<open>ctforged/ctforged.c\<close>: the hash table of command functions and the table of JSON-RPC methods;
  \<open>ctforged/config.c\<close>: the stack of cleanup tasks.  Function pointers are the elements of a type
  parameter.  A hash bucket is the list of its nodes from the head.
\<close>

subsection \<open>The hash table\<close>

definition CTFORGE_HASH_SIZE :: nat where
  "CTFORGE_HASH_SIZE = 512"

text \<open>A \<open>char\<close> is signed: it is sign-extended before it is added to the unsigned hash.\<close>

definition char_int :: "char \<Rightarrow> int" where
  "char_int c = sint (word_of_nat (of_char c) :: 8 word)"

fun hash_go :: "32 word \<Rightarrow> string \<Rightarrow> 32 word" where
  "hash_go h [] = h"
| "hash_go h (c # cs) = hash_go (h * 31 + word_of_int (char_int c)) cs"

definition hash :: "string \<Rightarrow> nat" where
  "hash str = unat (hash_go 0 str mod word_of_nat CTFORGE_HASH_SIZE)"

record 'f ctforge_func =
  fkey :: string
  ffunction :: 'f
  fcall_count :: nat

type_synonym 'f hashtable = "'f ctforge_func list list"

text \<open>\<open>calloc\<close> is not checked: where it fails, the node is written through NULL.\<close>

definition hashtable_insert_func ::
  "bool \<Rightarrow> string \<Rightarrow> 'f \<Rightarrow> 'f hashtable \<Rightarrow> 'f hashtable outcome"
where
  "hashtable_insert_func calloc_ok key function tb =
     (if \<not> calloc_ok then Undef
      else
        let index = hash key;
            newNode = \<lparr>fkey = key, ffunction = function, fcall_count = 0\<rparr>
        in Ret (tb[index := newNode # tb ! index]))"

fun bucket_find :: "string \<Rightarrow> 'f ctforge_func list \<Rightarrow> 'f ctforge_func option" where
  "bucket_find key [] = None"
| "bucket_find key (n # ns) = (if fkey n = key then Some n else bucket_find key ns)"

definition hashtable_find_func :: "'f hashtable \<Rightarrow> string \<Rightarrow> 'f ctforge_func option" where
  "hashtable_find_func tb key = bucket_find key (tb ! hash key)"

definition empty_table :: "'f hashtable" where
  "empty_table = replicate CTFORGE_HASH_SIZE []"

definition table_inv :: "'f hashtable \<Rightarrow> bool" where
  "table_inv tb \<longleftrightarrow> length tb = CTFORGE_HASH_SIZE"

lemma hash_bound: "hash s < CTFORGE_HASH_SIZE"
  by (simp add: hash_def CTFORGE_HASH_SIZE_def unat_mod_distrib)

definition table_lookup :: "'f hashtable \<Rightarrow> string \<Rightarrow> 'f option" where
  "table_lookup tb key = map_option ffunction (hashtable_find_func tb key)"

definition table_insert :: "string \<Rightarrow> 'f \<Rightarrow> 'f hashtable \<Rightarrow> 'f hashtable option" where
  "table_insert key f tb = (case hashtable_insert_func True key f tb of Ret t \<Rightarrow> Some t | _ \<Rightarrow> None)"

lemma table_lookup_insert:
  assumes "table_inv tb" and "hashtable_insert_func True key f tb = Ret t"
  shows "table_inv t" and "table_lookup t k = (if k = key then Some f else table_lookup tb k)"
  using assms hash_bound [of key]
  by (auto simp: hashtable_insert_func_def table_inv_def table_lookup_def hashtable_find_func_def
      Let_def nth_list_update)

interpretation hashtable: keyed_store table_inv table_lookup table_insert
proof unfold_locales
  fix s s' :: "'f hashtable" and k k' v
  assume i: "table_inv s" and r: "table_insert k v s = Some s'"
  then have h: "hashtable_insert_func True k v s = Ret s'"
    by (auto simp: table_insert_def split: outcome.splits)
  show "table_inv s'" using table_lookup_insert(1) [OF i h] .
  show "table_lookup s' k = Some v" using table_lookup_insert(2) [OF i h] by simp
  show "table_lookup s' k' = table_lookup s k'" if "k' \<noteq> k"
    using table_lookup_insert(2) [OF i h] that by simp
qed

fun insert_funcs :: "(string \<times> 'f) list \<Rightarrow> 'f hashtable \<Rightarrow> 'f hashtable outcome" where
  "insert_funcs [] tb = Ret tb"
| "insert_funcs ((k, f) # kfs) tb =
     and_then (hashtable_insert_func True k f tb) (insert_funcs kfs)"

lemma insert_funcs_lookup:
  assumes "table_inv tb" and "insert_funcs kfs tb = Ret t"
  shows "table_inv t \<and> table_lookup t k = (case map_of (rev kfs) k of Some f \<Rightarrow> Some f | None \<Rightarrow> table_lookup tb k)"
  using assms
proof (induction kfs arbitrary: tb)
  case (Cons kf kfs)
  obtain k1 f1 where kf: "kf = (k1, f1)" by (cases kf) auto
  with Cons.prems obtain t1 where h: "hashtable_insert_func True k1 f1 tb = Ret t1"
    and r: "insert_funcs kfs t1 = Ret t"
    by (auto simp: and_then_Ret)
  note t1 = table_lookup_insert [OF Cons.prems(1) h]
  show ?case using Cons.IH [OF t1(1) r] t1(2) [of k] kf
    by (auto simp: map_of_append map_add_def split: option.splits)
qed simp

text \<open>
  C14.  The hash table is a map: after any sequence of insertions into the empty table,
  \<open>hashtable_find_func\<close> returns for every key the function inserted last under it, and nothing
  for a key never inserted, whatever the collisions and the wrap-around of the hash.
\<close>

theorem hashtable_is_map:
  assumes "insert_funcs kfs empty_table = Ret t"
  shows "map_option ffunction (hashtable_find_func t key) = map_of (rev kfs) key"
proof -
  have "table_inv (empty_table :: 'a hashtable)" by (simp add: table_inv_def empty_table_def)
  moreover have "table_lookup (empty_table :: 'a hashtable) key = None"
    using hash_bound [of key] by (simp add: table_lookup_def hashtable_find_func_def empty_table_def)
  ultimately show ?thesis
    using insert_funcs_lookup [OF _ assms, of key] by (auto simp: table_lookup_def split: option.splits)
qed

theorem hashtable_is_map_witness:
  "\<exists>t. insert_funcs [(''ping'', 1 :: nat), (''exit'', 2), (''ping'', 3)] empty_table = Ret t \<and>
     map_option ffunction (hashtable_find_func t ''ping'') = Some 3 \<and>
     map_option ffunction (hashtable_find_func t ''none'') = None"
proof -
  obtain t where t: "insert_funcs [(''ping'', 1 :: nat), (''exit'', 2), (''ping'', 3)] empty_table = Ret t"
    by (simp add: hashtable_insert_func_def Let_def)
  from hashtable_is_map [OF t, of "''ping''"] hashtable_is_map [OF t, of "''none''"] t show ?thesis by simp
qed

subsection \<open>The table of JSON-RPC methods\<close>

definition MAX_CTFORGED_METHODS :: nat where
  "MAX_CTFORGED_METHODS = 64"

text \<open>
  The used part of \<open>method_table\<close>; a name is \<open>None\<close> where \<open>strdup\<close> failed, and a search that meets
  such an entry compares with NULL.
\<close>

record ('f, 'u) method_entry =
  me_name :: "string option"
  me_fn :: 'f
  me_user_data :: 'u

definition jsonrpc_register ::
  "bool \<Rightarrow> string \<Rightarrow> 'f \<Rightarrow> 'u \<Rightarrow> ('f, 'u) method_entry list \<Rightarrow> ('f, 'u) method_entry list \<times> int"
where
  "jsonrpc_register strdup_ok name fn user_data tb =
     (if length tb \<ge> MAX_CTFORGED_METHODS then (tb, -1)
      else (tb @ [\<lparr>me_name = (if strdup_ok then Some name else None), me_fn = fn, me_user_data = user_data\<rparr>], 0))"

fun find_method :: "('f, 'u) method_entry list \<Rightarrow> string \<Rightarrow> ('f \<times> 'u) option outcome" where
  "find_method [] name = Ret None"
| "find_method (m # ms) name =
     (case me_name m of
        None \<Rightarrow> Undef
      | Some n \<Rightarrow> if n = name then Ret (Some (me_fn m, me_user_data m)) else find_method ms name)"

definition methods_inv :: "('f, 'u) method_entry list \<Rightarrow> bool" where
  "methods_inv tb \<longleftrightarrow> length tb \<le> MAX_CTFORGED_METHODS \<and> (\<forall>m\<in>set tb. me_name m \<noteq> None)"

definition method_lookup :: "('f, 'u) method_entry list \<Rightarrow> string \<Rightarrow> ('f \<times> 'u) option" where
  "method_lookup tb name = (case find_method tb name of Ret r \<Rightarrow> r | _ \<Rightarrow> None)"

definition method_insert ::
  "string \<Rightarrow> 'f \<times> 'u \<Rightarrow> ('f, 'u) method_entry list \<Rightarrow> ('f, 'u) method_entry list option"
where
  "method_insert name fu tb =
     (case jsonrpc_register True name (fst fu) (snd fu) tb of (tb', r) \<Rightarrow> if r = 0 then Some tb' else None)"

lemma find_method_returns:
  "\<forall>m\<in>set tb. me_name m \<noteq> None \<Longrightarrow> find_method tb name = Ret (method_lookup tb name)"
  by (induction tb) (auto simp: method_lookup_def)

lemma method_lookup_append:
  "\<forall>m\<in>set tb. me_name m \<noteq> None \<Longrightarrow>
     method_lookup (tb @ [\<lparr>me_name = Some n, me_fn = f, me_user_data = u\<rparr>]) k =
       (case method_lookup tb k of Some r \<Rightarrow> Some r | None \<Rightarrow> if n = k then Some (f, u) else None)"
  by (induction tb) (auto simp: method_lookup_def split: option.splits)

lemma method_insert_Some:
  "method_insert n fu tb = Some tb' \<Longrightarrow>
     length tb < MAX_CTFORGED_METHODS \<and> tb' = tb @ [\<lparr>me_name = Some n, me_fn = fst fu, me_user_data = snd fu\<rparr>]"
  by (auto simp: method_insert_def jsonrpc_register_def split: if_splits)

interpretation methods: keyed_store methods_inv method_lookup method_insert
proof unfold_locales
  fix s s' :: "('f, 'u) method_entry list" and k k' v
  assume i: "methods_inv s" and r: "method_insert k v s = Some s'"
  note s' = method_insert_Some [OF r]
  have m: "\<forall>m\<in>set s. me_name m \<noteq> None" using i by (simp add: methods_inv_def)
  show "methods_inv s'" using i s' by (auto simp: methods_inv_def)
  show "method_lookup s' k = Some v" if "method_lookup s k = None"
    using s' that method_lookup_append [OF m] by simp
  show "method_lookup s' k' = method_lookup s k'" if "k' \<noteq> k"
    using s' that method_lookup_append [OF m] by (simp split: option.splits)
qed

text \<open>The handlers \<open>main\<close> registers, and the registrations in its order (lines 529 to 534).\<close>

datatype op = OpInsmod | OpLsmod | OpRmmod | OpMod | OpStatus

definition main_registrations :: "(string \<times> op) list" where
  "main_registrations =
     [(''insmod'', OpInsmod), (''lsmod'', OpLsmod), (''rmmod'', OpRmmod), (''mod'', OpMod), (''status'', OpStatus)]"

fun register_all :: "(string \<times> op) list \<Rightarrow> (op, unit) method_entry list \<Rightarrow> (op, unit) method_entry list" where
  "register_all [] tb = tb"
| "register_all ((n, f) # rs) tb = register_all rs (fst (jsonrpc_register True n f () tb))"

definition daemon_methods :: "(op, unit) method_entry list" where
  "daemon_methods = register_all main_registrations []"

lemma register_all_insert:
  "methods.insert_all (map (\<lambda>(n, f). (n, (f, ()))) rs) tb = Some tb' \<Longrightarrow> register_all rs tb = tb'"
proof (induction rs arbitrary: tb)
  case (Cons r rs)
  obtain n f where r: "r = (n, f)" by (cases r) auto
  with Cons.prems obtain tb1 where i: "method_insert n (f, ()) tb = Some tb1"
    and rest: "methods.insert_all (map (\<lambda>(n, f). (n, (f, ()))) rs) tb1 = Some tb'"
    by (auto split: option.splits)
  have "fst (jsonrpc_register True n f () tb) = tb1"
    using method_insert_Some [OF i] by (simp add: jsonrpc_register_def)
  then show ?case using Cons.IH [OF rest] r by simp
qed simp

lemma daemon_methods_insert:
  "methods.insert_all (map (\<lambda>(n, f). (n, (f, ()))) main_registrations) [] = Some daemon_methods"
proof -
  have "methods.insert_all (map (\<lambda>(n, f). (n, (f, ()))) main_registrations) [] \<noteq> None"
    by (simp add: main_registrations_def method_insert_def jsonrpc_register_def MAX_CTFORGED_METHODS_def)
  then show ?thesis using register_all_insert [of main_registrations "[]"] by (auto simp: daemon_methods_def)
qed

lemma daemon_methods_other: "n \<notin> fst ` set main_registrations \<Longrightarrow> method_lookup daemon_methods n = None"
  by (auto simp: main_registrations_def daemon_methods_def jsonrpc_register_def MAX_CTFORGED_METHODS_def
      method_lookup_def)


subsection \<open>Cleanup tasks\<close>

definition MAX_CLEANUP_TASKS :: nat where
  "MAX_CLEANUP_TASKS = 64"

record 'f cleanup_task =
  ct_fn :: 'f
  ct_name :: string

definition register_cleanup ::
  "'f option \<Rightarrow> string option \<Rightarrow> 'f cleanup_task list \<Rightarrow> 'f cleanup_task list \<times> int"
where
  "register_cleanup fn name tasks =
     (case (fn, name) of
        (Some f, Some n) \<Rightarrow>
          if length tasks \<ge> MAX_CLEANUP_TASKS then (tasks, -1)
          else (tasks @ [\<lparr>ct_fn = f, ct_name = n\<rparr>], 0)
      | _ \<Rightarrow> (tasks, -1))"

text \<open>\<open>shutdown_cleanup\<close>: the functions called, in order, and the table afterwards.\<close>

fun cleanup_from :: "nat \<Rightarrow> 'f cleanup_task list \<Rightarrow> 'f list" where
  "cleanup_from 0 tasks = []"
| "cleanup_from (Suc i) tasks = ct_fn (tasks ! i) # cleanup_from i tasks"

definition shutdown_cleanup :: "'f cleanup_task list \<Rightarrow> 'f list \<times> 'f cleanup_task list" where
  "shutdown_cleanup tasks = (cleanup_from (length tasks) tasks, [])"

fun register_cleanups :: "('f \<times> string) list \<Rightarrow> 'f cleanup_task list \<Rightarrow> 'f cleanup_task list" where
  "register_cleanups [] tasks = tasks"
| "register_cleanups ((f, n) # fs) tasks = register_cleanups fs (fst (register_cleanup (Some f) (Some n) tasks))"

lemma cleanup_from_rev: "i \<le> length tasks \<Longrightarrow> cleanup_from i tasks = rev (map ct_fn (take i tasks))"
  by (induction i) (auto simp: take_Suc_conv_app_nth)

lemma register_cleanups_take:
  "length tasks \<le> MAX_CLEANUP_TASKS \<Longrightarrow>
     map ct_fn (register_cleanups fs tasks) = take MAX_CLEANUP_TASKS (map ct_fn tasks @ map fst fs) \<and>
     length (register_cleanups fs tasks) \<le> MAX_CLEANUP_TASKS"
proof (induction fs arbitrary: tasks)
  case (Cons f fs)
  then show ?case by (cases f) (auto simp: register_cleanup_def take_Cons')
qed simp

text \<open>
  Cleanup runs in reverse order of registration: after registering any tasks,
  \<open>shutdown_cleanup\<close> calls the first 64 of them, each once, the last registered first, and
  leaves no task registered.
\<close>

lemma cleanup_is_lifo:
  "shutdown_cleanup (register_cleanups fs []) = (rev (map fst (take MAX_CLEANUP_TASKS fs)), [])"
  using register_cleanups_take [of "[]" fs]
  by (simp add: shutdown_cleanup_def cleanup_from_rev take_map)

subsection \<open>Kernel command line and socket file\<close>

text \<open>\<open>fgets\<close> on \<open>/proc/cmdline\<close>: at most 4095 bytes, up to and including the first newline.\<close>

definition fgets :: "nat \<Rightarrow> byte list \<Rightarrow> byte list option" where
  "fgets n content =
     (if content = [] then None
      else
        let line = takeWhile (\<lambda>c. c \<noteq> NL) content in
        Some (take (n - 1) (line @ (if length line < length content then [NL] else []))))"

definition check_ctforge_cmdline :: "byte list option \<Rightarrow> int" where
  "check_ctforge_cmdline cmdline_file =
     (case cmdline_file of
        None \<Rightarrow> 0
      | Some content \<Rightarrow>
          (case fgets 4096 content of
             None \<Rightarrow> 0
           | Some cmdline \<Rightarrow> if strstr (cstr cmdline) ''ctforge=1'' \<noteq> None then 1 else 0))"

text \<open>\<open>ctforged_clean_sock\<close>: the path unlinked, if any; the third argument says what \<open>stat\<close> reports.\<close>

datatype stat_result = StatFail | StatSocket | StatOther

definition ctforged_clean_sock :: "string option \<Rightarrow> (string \<Rightarrow> stat_result) \<Rightarrow> string option" where
  "ctforged_clean_sock listen_addr st =
     (case listen_addr of
        None \<Rightarrow> None
      | Some l \<Rightarrow>
          if \<not> strncmp_eq l ''unix://'' 7 then None
          else
            let path = drop 7 l in
            if path = [] then None
            else if st path = StatSocket then Some path else None)"

end
