(* ===== verification/Ops.thy ===== *)
theory Ops
  imports Payload JsonApi Registry
begin

section \<open>The JSON-RPC operations\<close>

text \<open>
  \<open>ctforged/ctforged.c\<close>, lines 171 to 465: the handlers \<open>insmod\<close>, \<open>lsmod\<close>, \<open>rmmod\<close>, \<open>mod\<close> and
  \<open>status\<close>.  Each gets the \<open>reqmsg\<close> member of the request and returns the new state, the result
  object (NULL is \<open>None\<close>) and the return value.  Every load of a request has its own answers of
  the environment, \<open>op_loads e i\<close> for the \<open>i\<close>-th.
\<close>

record ('j, 'k) ops_env =
  op_api :: "'j json_api"
  op_loads :: "nat \<Rightarrow> 'k payload_env"
  op_junk :: module_info
  op_strdup_ok :: bool
  op_calloc_ok :: bool
  op_dlsym_default :: "string \<Rightarrow> nat option"
  op_call :: "nat \<Rightarrow> string list \<Rightarrow> 'j option"
  op_cmdline :: "byte list option"

definition ws_delims :: string where
  "ws_delims = [CHR 0x20, CHR 0x09, CHR 0x0A, CHR 0x0D, CHR 0x0C, CHR 0x0B]"

subsection \<open>insmod and rmmod\<close>

text \<open>The entry of one token: its name, the return value and a message cut to 127 bytes.\<close>

definition module_entry ::
  "'j json_api \<Rightarrow> 'j \<Rightarrow> string \<Rightarrow> int \<Rightarrow> string \<Rightarrow> string \<Rightarrow> 'j"
where
  "module_entry api ob token ret good bad =
     (let ob = j_add api ob ''modname'' (j_new_string api token);
          ob = j_add api ob ''ret'' (j_new_int api ret);
          jmsg = snprintf_s 128 (token @ (if ret = 0 then good else bad))
      in j_add api ob ''msg'' (j_new_string api jmsg))"

fun insmod_tokens ::
  "('j, 'k) ops_env \<Rightarrow> nat \<Rightarrow> daemon \<Rightarrow> string list \<Rightarrow> 'j \<Rightarrow> (daemon \<times> 'j) outcome option"
where
  "insmod_tokens e i d [] arr = Some (Ret (d, arr))"
| "insmod_tokens e i d (token # ts) arr =
     (case j_new_object (op_api e) of
        None \<Rightarrow> Some Undef
      | Some ob \<Rightarrow>
          run_then (do_one_insmod (op_loads e i) d token (op_junk e)) (\<lambda>(d', ret).
            insmod_tokens e (Suc i) d' ts
              (j_array_add (op_api e) arr
                 (Some (module_entry (op_api e) ob token ret '' load success!'' '' load failed!'')))))"

definition ops_insmod ::
  "('j, 'k) ops_env \<Rightarrow> daemon \<Rightarrow> 'j option \<Rightarrow> (daemon \<times> 'j option \<times> int) outcome option"
where
  "ops_insmod e d reqmsg =
     (case get_ex (op_api e) reqmsg ''params'' of
        None \<Rightarrow> Some (Ret (d, None, -1))
      | Some msg_obj \<Rightarrow>
          (case get_string (op_api e) msg_obj of
             None \<Rightarrow> Some (Ret (d, j_new_string (op_api e) ''empty input'', 0))
           | Some msg \<Rightarrow>
               if \<not> op_strdup_ok e then Some (Ret (d, None, -1))
               else
                 (case j_new_array (op_api e) of
                    None \<Rightarrow> Some (Ret (d, None, -1))
                  | Some arr \<Rightarrow>
                      run_then (insmod_tokens e 0 d (strtok_all msg ws_delims) arr) (\<lambda>(d', arr').
                        Some (Ret (d', Some arr', 0))))))"

fun rmmod_tokens ::
  "('j, 'k) ops_env \<Rightarrow> daemon \<Rightarrow> string list \<Rightarrow> 'j \<Rightarrow> (daemon \<times> 'j) outcome option"
where
  "rmmod_tokens e d [] arr = Some (Ret (d, arr))"
| "rmmod_tokens e d (token # ts) arr =
     (case j_new_object (op_api e) of
        None \<Rightarrow> Some Undef
      | Some ob \<Rightarrow>
          run_then (do_one_rmmod d token) (\<lambda>(d', ret).
            rmmod_tokens e d' ts
              (j_array_add (op_api e) arr
                 (Some (module_entry (op_api e) ob token ret '' unload success!'' '' unload failed!'')))))"

definition ops_rmmod ::
  "('j, 'k) ops_env \<Rightarrow> daemon \<Rightarrow> 'j option \<Rightarrow> (daemon \<times> 'j option \<times> int) outcome option"
where
  "ops_rmmod e d reqmsg =
     (case get_ex (op_api e) reqmsg ''params'' of
        None \<Rightarrow> Some (Ret (d, None, -1))
      | Some msg_obj \<Rightarrow>
          (case get_string (op_api e) msg_obj of
             None \<Rightarrow> Some (Ret (d, j_new_string (op_api e) ''empty input'', 0))
           | Some msg \<Rightarrow>
               if \<not> op_strdup_ok e then Some (Ret (d, None, -1))
               else
                 (case j_new_array (op_api e) of
                    None \<Rightarrow> Some (Ret (d, None, -1))
                  | Some arr \<Rightarrow>
                      run_then (rmmod_tokens e d (strtok_all msg ws_delims) arr) (\<lambda>(d', arr').
                        Some (Ret (d', Some arr', 0))))))"

subsection \<open>lsmod\<close>

text \<open>The loop over the list; the inner \<open>None\<close> is the exit after a failed allocation.\<close>

partial_function (option) lsmod_from ::
  "'j json_api \<Rightarrow> modtab \<Rightarrow> 'j \<Rightarrow> addr \<Rightarrow> 'j option outcome option"
where
  "lsmod_from api h arr pos =
     (if pos = HEAD then Some (Ret (Some arr))
      else
        (case j_new_object api of
           None \<Rightarrow> Some (Ret None)
         | Some mod_obj \<Rightarrow>
             (case mods h pos of
                None \<Rightarrow> Some Undef
              | Some iter \<Rightarrow>
                  (case lnext h pos of
                     None \<Rightarrow> Some Undef
                   | Some q \<Rightarrow>
                       lsmod_from api h
                         (j_array_add api arr
                            (Some (j_add api
                              (j_add api mod_obj ''name'' (j_new_string api (mod_name iter)))
                              ''path'' (j_new_string api (payload_fullpath iter))))) q))))"

declare lsmod_from.simps [code]

definition ops_lsmod ::
  "('j, 'k) ops_env \<Rightarrow> daemon \<Rightarrow> 'j option \<Rightarrow> (daemon \<times> 'j option \<times> int) outcome option"
where
  "ops_lsmod e d reqmsg =
     (let api = op_api e in
      case get_ex api reqmsg ''params'' of
        None \<Rightarrow> Some (Ret (d, None, -1))
      | Some _ \<Rightarrow>
          (case j_new_array api of
             None \<Rightarrow> Some (Ret (d, j_new_string api ''server alloc memory failed'', -1))
           | Some result_array \<Rightarrow>
               if list_empty_careful HEAD (tab d) then
                 (case j_new_object api of
                    None \<Rightarrow> Some (Ret (d, None, -1))
                  | Some resob \<Rightarrow>
                      Some (Ret (d, Some (j_add api resob ''msg'' (j_new_string api ''no module insmod!'')), 0)))
               else
                 (case lnext (tab d) HEAD of
                    None \<Rightarrow> Some Undef
                  | Some q \<Rightarrow>
                      run_then (lsmod_from api (tab d) result_array q) (\<lambda>r.
                        case r of
                          None \<Rightarrow> Some (Ret (d, None, -1))
                        | Some arr \<Rightarrow> Some (Ret (d, Some arr, 0))))))"

subsection \<open>mod and status\<close>

definition error_object :: "'j json_api \<Rightarrow> string \<Rightarrow> 'j outcome" where
  "error_object api msg =
     (case j_new_object api of
        None \<Rightarrow> Undef
      | Some err_ret \<Rightarrow>
          Ret (j_add api (j_add api err_ret ''code'' (j_new_int api (-1))) ''msg'' (j_new_string api msg)))"

definition error_reply :: "'j json_api \<Rightarrow> daemon \<Rightarrow> string \<Rightarrow> (daemon \<times> 'j option \<times> int) outcome option" where
  "error_reply api d msg = Some (and_then (error_object api msg) (\<lambda>r. Ret (d, Some r, 0)))"

text \<open>\<open>ops_mod\<close>: the words of \<open>params\<close>, at most ten of them, are \<open>argv\<close>.\<close>

definition ops_mod ::
  "('j, 'k) ops_env \<Rightarrow> daemon \<Rightarrow> 'j option \<Rightarrow> (daemon \<times> 'j option \<times> int) outcome option"
where
  "ops_mod e d reqmsg =
     (let api = op_api e in
      case get_ex api reqmsg ''params'' of
        None \<Rightarrow> error_reply api d ''Invalid parameter''
      | Some msg_obj \<Rightarrow>
          (case get_string api msg_obj of
             None \<Rightarrow> error_reply api d ''Invalid parameter''
           | Some params \<Rightarrow>
               if \<not> op_strdup_ok e \<or> \<not> op_calloc_ok e then Some (Ret (d, None, -1))
               else
                 (case take 10 (strtok_all params '' '') of
                    [] \<Rightarrow> error_reply api d ''Invalid parameter''
                  | name # args \<Rightarrow>
                      run_then (find_module (tab d) name) (\<lambda>found.
                        case found of
                          None \<Rightarrow> error_reply api d (snprintf_s 128 (''module '' @ [SQ] @ name @ [SQ] @ '' not found!''))
                        | Some a \<Rightarrow>
                            (case mods (tab d) a of
                               None \<Rightarrow> Some Undef
                             | Some mi \<Rightarrow>
                                 let sym_name = (case args of [] \<Rightarrow> ''help'' | s # _ \<Rightarrow> s);
                                     so_func = (case dl_handle mi of
                                                  None \<Rightarrow> op_dlsym_default e (symbol_full_name name sym_name)
                                                | Some hdl \<Rightarrow> mod_find_sym (op_loads e 0) hdl name sym_name)
                                 in
                                   case so_func of
                                     None \<Rightarrow>
                                       error_reply api d (snprintf_s 128
                                         (''mod '' @ [SQ] @ name @ [SQ] @ '' symbol '' @ [SQ] @ sym_name @ [SQ] @ '' not found''))
                                   | Some f \<Rightarrow>
                                       let d' = d\<lparr>called := called d @ [f]\<rparr> in
                                       (case op_call e f (name # args) of
                                          None \<Rightarrow> error_reply api d' ''Internal error''
                                        | Some r \<Rightarrow> Some (Ret (d', Some r, 0))))))))"

definition ops_status ::
  "('j, 'k) ops_env \<Rightarrow> daemon \<Rightarrow> 'j option \<Rightarrow> (daemon \<times> 'j option \<times> int) outcome option"
where
  "ops_status e d reqmsg =
     (let api = op_api e in
      case j_new_object api of
        None \<Rightarrow> Some Undef
      | Some res_obj \<Rightarrow>
          let res_obj = j_add api res_obj ''daemon'' (j_new_string api ''ok'');
              res_obj = j_add api res_obj ''kernel_ctforge''
                (j_new_boolean api (check_ctforge_cmdline (op_cmdline e) \<noteq> 0))
          in Some (Ret (d, Some res_obj, 0)))"

text \<open>The call through the function pointer that \<open>find_method\<close> returned.\<close>

fun run_op ::
  "('j, 'k) ops_env \<Rightarrow> op \<Rightarrow> daemon \<Rightarrow> 'j option \<Rightarrow> (daemon \<times> 'j option \<times> int) outcome option"
where
  "run_op e OpInsmod d q = ops_insmod e d q"
| "run_op e OpLsmod d q = ops_lsmod e d q"
| "run_op e OpRmmod d q = ops_rmmod e d q"
| "run_op e OpMod d q = ops_mod e d q"
| "run_op e OpStatus d q = ops_status e d q"

subsection \<open>What the operations do\<close>

definition ls_entry :: "'j json_api \<Rightarrow> 'j \<Rightarrow> module_info \<Rightarrow> 'j" where
  "ls_entry api ob mi =
     j_add api (j_add api ob ''name'' (j_new_string api (mod_name mi)))
       ''path'' (j_new_string api (payload_fullpath mi))"

lemma lsmod_from_chain:
  assumes ob: "j_new_object api = Some ob"
  shows "chain (lnext h) p xs HEAD \<Longrightarrow> HEAD \<notin> set xs \<Longrightarrow> all_mapped h xs \<Longrightarrow> lnext h p = Some q \<Longrightarrow>
    lsmod_from api h arr q =
      Some (Ret (Some (foldl (\<lambda>a x. j_array_add api a (Some (ls_entry api ob (the (mods h x))))) arr xs)))"
proof (induction xs arbitrary: p q arr)
  case Nil
  then have "q = HEAD" by simp
  then show ?case by (subst lsmod_from.simps) simp
next
  case (Cons x xs)
  then obtain mi where mi: "mods h x = Some mi" by (auto simp: all_mapped_def)
  from Cons.prems have q: "q = x" and x: "x \<noteq> HEAD" by auto
  obtain q' where q': "lnext h x = Some q'" using Cons.prems by (cases xs) auto
  have "lsmod_from api h (j_array_add api arr (Some (ls_entry api ob mi))) q' =
      Some (Ret (Some (foldl (\<lambda>a x. j_array_add api a (Some (ls_entry api ob (the (mods h x)))))
        (j_array_add api arr (Some (ls_entry api ob mi))) xs)))"
    by (rule Cons.IH [of x]) (use Cons.prems q' in \<open>auto simp: all_mapped_def\<close>)
  then show ?case using mi q x q' ob by (subst lsmod_from.simps) (simp add: ls_entry_def)
qed

text \<open>
  C12.  \<open>ops_lsmod\<close> returns on every well-formed module list and lists all of it: with no module
  loaded it answers with a message, and otherwise with one entry per loaded module, in list
  order, holding its name and path.  It does not change the daemon.
\<close>

theorem lsmod_lists_all_modules:
  assumes "modlist_inv (tab d) xs" and "get_ex (op_api e) reqmsg ''params'' \<noteq> None"
    and "j_new_array (op_api e) = Some arr0" and "j_new_object (op_api e) = Some ob"
  shows "ops_lsmod e d reqmsg =
    Some (Ret (d, Some (if xs = [] then j_add (op_api e) ob ''msg'' (j_new_string (op_api e) ''no module insmod!'')
      else foldl (\<lambda>a x. j_array_add (op_api e) a (Some (ls_entry (op_api e) ob (the (mods (tab d) x))))) arr0 xs), 0))"
proof -
  have d: "dll (tab d) xs" and m: "all_mapped (tab d) xs"
    using assms(1) modlist_inv_mapped by (auto simp: modlist_inv_def)
  then have c: "chain (lnext (tab d)) HEAD xs HEAD" and cp: "chain (lprev (tab d)) HEAD (rev xs) HEAD"
    and h: "HEAD \<notin> set xs" by (auto simp: dll_def)
  show ?thesis
  proof (cases xs)
    case Nil
    then have "list_empty_careful HEAD (tab d)" using c cp by (simp add: list_empty_careful_def)
    then show ?thesis using assms(2-4) Nil by (auto simp: ops_lsmod_def Let_def)
  next
    case (Cons x xs')
    then have n: "lnext (tab d) HEAD = Some x" and "x \<noteq> HEAD" using c h by auto
    then have "\<not> list_empty_careful HEAD (tab d)" by (simp add: list_empty_careful_def)
    moreover note lsmod_from_chain [OF assms(4) c h m n, of arr0]
    ultimately show ?thesis using assms(2,3) Cons n by (auto simp: ops_lsmod_def Let_def)
  qed
qed

definition sample_ops_env :: "(jv, nat) ops_env" where
  "sample_ops_env =
     \<lparr>op_api = sample_api (\<lambda>_. None), op_loads = (\<lambda>_. sample_payload_env []),
      op_junk = sample_module [], op_strdup_ok = True, op_calloc_ok = True,
      op_dlsym_default = (\<lambda>_. None), op_call = (\<lambda>_ argv. Some (JArr (map (\<lambda>s. Some (JStr s)) argv))),
      op_cmdline = Some ''quiet ctforge=1''\<rparr>"

definition params_msg :: "string \<Rightarrow> jv option" where
  "params_msg s = Some (JObj [(''params'', Some (JStr s))])"

definition sample_net_daemon :: daemon where
  "sample_net_daemon = \<lparr>tab = sample_tab, memfds = Map.empty, handles = [5], called = [11]\<rparr>"

theorem lsmod_lists_all_modules_witness:
  "ops_lsmod sample_ops_env sample_net_daemon (params_msg []) =
     Some (Ret (sample_net_daemon,
       Some (JArr [Some (JObj [(''path'', Some (JStr [])), (''name'', Some (JStr ''net''))])]), 0))"
proof -
  have "modlist_inv (tab sample_net_daemon) [1]"
    using sample_tab_inv by (simp add: sample_net_daemon_def)
  from lsmod_lists_all_modules [OF this, of sample_ops_env "params_msg []" "JArr []" "JObj []"]
  show ?thesis
    by (simp add: sample_ops_env_def sample_api_def params_msg_def get_ex_def sample_net_daemon_def
        sample_tab_def sample_module_def ls_entry_def)
qed

lemma error_reply_Ret:
  "error_reply api d m = Some (Ret (d', r, c)) \<Longrightarrow> d' = d \<and> r \<noteq> None \<and> c = 0"
  by (auto simp: error_reply_def and_then_Ret)



end
