(* ===== verification/DaemonConfig.thy ===== *)
theory DaemonConfig
  imports JsonApi Tools Registry
begin

section \<open>Configuration of the daemon\<close>

text \<open>
  \<open>ctforged/config.c\<close>, lines 6 to 227: reading \<open>ctforge.cfg\<close>.  The configuration is the global
  \<open>ctforged_config\<close>, the object \<open>main\<close> passes; a NULL field is \<open>None\<close>.
\<close>

record ctforge_config =
  listen :: "string option"
  payload_dir :: "string option"
  log_dir :: "string option"
  private_key :: "string option"
  public_key :: "string option"

definition empty_config :: ctforge_config where
  "empty_config = \<lparr>listen = None, payload_dir = None, log_dir = None, private_key = None, public_key = None\<rparr>"

text \<open>\<open>strdup_ok\<close> answers for the duplication of the field of a given name.\<close>

definition ctforged_config_strdup :: "(string \<Rightarrow> bool) \<Rightarrow> string option \<Rightarrow> string \<Rightarrow> string option" where
  "ctforged_config_strdup strdup_ok s field_name =
     (case s of None \<Rightarrow> None | Some v \<Rightarrow> if strdup_ok field_name then Some v else None)"

definition ctforged_get_config ::
  "'j json_api \<Rightarrow> 'j option \<Rightarrow> string \<Rightarrow> string \<Rightarrow> string option"
where
  "ctforged_get_config api root field_name default_value =
     (case root of
        None \<Rightarrow> Some default_value
      | Some r \<Rightarrow>
          (case get_ex api (Some r) field_name of
             None \<Rightarrow> Some default_value
           | Some ob \<Rightarrow>
               if \<not> is_type api ob TString then None
               else
                 (case get_string api ob of
                    None \<Rightarrow> None
                  | Some value \<Rightarrow> if length value = 0 then None else Some value)))"

definition ctforged_clean_config :: "ctforge_config \<Rightarrow> ctforge_config" where
  "ctforged_clean_config cfg = empty_config"

definition default_listen :: string where
  "default_listen = ''unix:///usr/share/ctforge/ctforge.socket''"

definition default_payload_dir :: string where
  "default_payload_dir = ''/usr/share/ctforge/payload/''"

definition default_log_dir :: string where
  "default_log_dir = ''/var/log/ctforge/''"

definition default_private_key :: string where
  "default_private_key = ''/etc/ctforge/private.pem''"

definition default_public_key :: string where
  "default_public_key = ''/etc/ctforge/public.pem''"

text \<open>One field: read, check, duplicate; \<open>None\<close> is the jump to \<open>cleanup\<close>.\<close>

definition config_field ::
  "'j json_api \<Rightarrow> (string \<Rightarrow> bool) \<Rightarrow> 'j option \<Rightarrow> string \<Rightarrow> string \<Rightarrow> string option"
where
  "config_field api strdup_ok root name dflt =
     (case ctforged_get_config api root name dflt of
        None \<Rightarrow> None
      | Some v \<Rightarrow> ctforged_config_strdup strdup_ok (Some v) name)"

text \<open>Lines 171 to 214, from the label \<open>use_defaults\<close>.\<close>

definition fill_config ::
  "'j json_api \<Rightarrow> (string \<Rightarrow> bool) \<Rightarrow> 'j option \<Rightarrow> ctforge_config option"
where
  "fill_config api strdup_ok root =
     (case config_field api strdup_ok root ''listen'' default_listen of
        None \<Rightarrow> None
      | Some l \<Rightarrow>
     (case config_field api strdup_ok root ''payload_dir'' default_payload_dir of
        None \<Rightarrow> None
      | Some p \<Rightarrow>
     (case config_field api strdup_ok root ''log_dir'' default_log_dir of
        None \<Rightarrow> None
      | Some g \<Rightarrow>
     (case config_field api strdup_ok root ''private_key'' default_private_key of
        None \<Rightarrow> None
      | Some k \<Rightarrow>
     (case config_field api strdup_ok root ''public_key'' default_public_key of
        None \<Rightarrow> None
      | Some q \<Rightarrow>
          Some \<lparr>listen = Some l, payload_dir = Some p, log_dir = Some g, private_key = Some k, public_key = Some q\<rparr>)))))"

datatype cleanup_fn = CleanConfig | CleanSock

text \<open>
  \<open>ctforged_init_config\<close>: the configuration, the cleanup tasks and the return value.  A missing
  file and an empty file mean the defaults; every other failure clears the configuration.
\<close>

definition ctforged_init_config ::
  "os_env \<Rightarrow> 'j json_api \<Rightarrow> (string \<Rightarrow> bool) \<Rightarrow> string option \<Rightarrow> ctforge_config \<Rightarrow>
   cleanup_fn cleanup_task list \<Rightarrow> ctforge_config \<times> cleanup_fn cleanup_task list \<times> int"
where
  "ctforged_init_config os api strdup_ok config_path cfg tasks =
     (case config_path of
        None \<Rightarrow> (cfg, tasks, -1)
      | Some path \<Rightarrow>
          let failed = (ctforged_clean_config cfg, tasks, -1);
              use_defaults = (\<lambda>root.
                case fill_config api strdup_ok root of
                  None \<Rightarrow> failed
                | Some c \<Rightarrow> (c, fst (register_cleanup (Some CleanConfig) (Some ''clean config'') tasks), 0))
          in
            case files os path of
              None \<Rightarrow> use_defaults None
            | Some content \<Rightarrow>
                if \<not> fopen_ok os path ''r'' then failed
                else if \<not> seek_ok os path then failed
                else if \<not> tell_ok os path then failed
                else if length content = 0 then use_defaults None
                else if \<not> malloc_ok os (length content + 1) then failed
                else if \<not> read_ok os path then failed
                else
                  (case j_parse api (cstr content) of
                     None \<Rightarrow> failed
                   | Some root \<Rightarrow>
                       if \<not> is_type api (Some root) TObject then failed else use_defaults (Some root)))"

subsection \<open>All fields or none\<close>

lemma config_field_nonempty:
  "config_field api ok root name dflt = Some v \<Longrightarrow> dflt \<noteq> [] \<Longrightarrow>
     v \<noteq> [] \<and> ctforged_get_config api root name dflt = Some v"
  by (auto simp: config_field_def ctforged_config_strdup_def ctforged_get_config_def split: option.splits if_splits)

definition config_complete :: "ctforge_config \<Rightarrow> bool" where
  "config_complete c \<longleftrightarrow>
     (\<forall>f\<in>set [listen c, payload_dir c, log_dir c, private_key c, public_key c]. \<exists>v. f = Some v \<and> v \<noteq> [])"

lemmas config_defaults = default_listen_def default_payload_dir_def default_log_dir_def
  default_private_key_def default_public_key_def

lemma fill_config_complete: "fill_config api ok root = Some c \<Longrightarrow> config_complete c"
  by (auto simp: fill_config_def config_complete_def config_defaults
      dest!: config_field_nonempty split: option.splits)

text \<open>
  C16.  \<open>ctforged_init_config\<close> is all or nothing: when it returns 0, each of the five fields is a
  non-empty string and the cleanup of the configuration is registered (if there was room);
  when it returns -1 for a path, every field is NULL and no task is registered.
\<close>

theorem init_config_all_or_nothing:
  assumes "ctforged_init_config os api ok (Some path) cfg tasks = (cfg', tasks', r)"
  shows "(r = 0 \<and> config_complete cfg' \<and>
            tasks' = fst (register_cleanup (Some CleanConfig) (Some ''clean config'') tasks)) \<or>
         (r = -1 \<and> cfg' = empty_config \<and> tasks' = tasks)"
  using assms fill_config_complete
  by (auto simp: ctforged_init_config_def ctforged_clean_config_def Let_def
      split: option.splits if_splits)

definition sample_config_os :: "byte list option \<Rightarrow> os_env" where
  "sample_config_os content =
     \<lparr>files = (\<lambda>_. content), fopen_ok = (\<lambda>_ _. True), stat_ok = (\<lambda>_. True), seek_ok = (\<lambda>_. True),
      tell_ok = (\<lambda>_. True), read_ok = (\<lambda>_. True), write_ok = (\<lambda>_. True), trunc_ok = (\<lambda>_. True),
      malloc_ok = (\<lambda>_. True)\<rparr>"

theorem init_config_all_or_nothing_witness:
  "\<exists>c t. ctforged_init_config (sample_config_os (Some ''{}'')) (sample_api (\<lambda>_. Some (JObj [(''listen'', Some (JStr ''1.2.3.4:80''))])))
       (\<lambda>_. True) (Some ''/etc/ctforge/ctforge.cfg'') empty_config [] = (c, t, 0) \<and>
     listen c = Some ''1.2.3.4:80'' \<and> config_complete c"
proof -
  let ?run = "ctforged_init_config (sample_config_os (Some ''{}'')) (sample_api (\<lambda>_. Some (JObj [(''listen'', Some (JStr ''1.2.3.4:80''))])))
       (\<lambda>_. True) (Some ''/etc/ctforge/ctforge.cfg'') empty_config []"
  obtain c t r where e: "?run = (c, t, r)" by (cases ?run) auto
  have "snd (snd ?run) = 0" "listen (fst ?run) = Some ''1.2.3.4:80''" by code_simp+
  with e have "r = 0" "listen c = Some ''1.2.3.4:80''" by simp_all
  with init_config_all_or_nothing [OF e] e show ?thesis by auto
qed

end
