(* ===== verification/Server.thy ===== *)
theory Server
  imports Ops DaemonConfig
begin

section \<open>The request server\<close>

text \<open>
  \<open>ctforged/server.c\<close>: newline-framed JSON-RPC requests on a libuv stream.  A connection is its
  receive buffer, the messages written to it and whether \<open>uv_close\<close> has been called; the server
  state adds the daemon and the number of requests handled, which selects the answers of the
  environment for the next one.  libuv and libbpf are parameters; a stream that is being
  closed is neither active nor writable.
\<close>

record conn =
  recv_buffer :: "byte list"
  outbox :: "string list"
  closing :: bool

record srv =
  sdaemon :: daemon
  sconn :: conn
  served :: nat

record ('j, 'k) srv_env =
  srv_ops :: "('j, 'k) ops_env"
  srv_methods :: "(op, unit) method_entry list"
  uv_writable :: bool
  asprintf_ok :: bool
  wreq_ok :: bool
  uv_write_ok :: bool
  rb_new_ok :: "int \<Rightarrow> bool"
  rb_events :: "byte list list"
  rb_consumed :: int

definition EBPF_LOG_SIZE :: nat where
  "EBPF_LOG_SIZE = 256"

subsection \<open>Sending\<close>

definition send_message_to_client ::
  "('j, 'k) srv_env \<Rightarrow> conn \<Rightarrow> string option \<Rightarrow> conn \<times> int"
where
  "send_message_to_client e ctx msg =
     (case msg of
        None \<Rightarrow> (ctx, -1)
      | Some m \<Rightarrow>
          if \<not> uv_writable e \<or> closing ctx then (ctx, -1)
          else if length m = 0 then (ctx, 0)
          else if \<not> asprintf_ok e then (ctx, -1)
          else if \<not> wreq_ok e then (ctx, -1)
          else if \<not> uv_write_ok e then (ctx, -1)
          else (ctx\<lparr>outbox := outbox ctx @ [m @ [NL]]\<rparr>, 0))"

definition make_raw_res :: "('j, 'k) srv_env \<Rightarrow> conn \<Rightarrow> string option \<Rightarrow> conn" where
  "make_raw_res e ctx raw_msg =
     (case raw_msg of None \<Rightarrow> ctx | Some m \<Rightarrow> fst (send_message_to_client e ctx (Some m)))"

definition make_err_res :: "('j, 'k) srv_env \<Rightarrow> conn \<Rightarrow> string \<Rightarrow> conn" where
  "make_err_res e ctx err_msg = make_raw_res e ctx (Some err_msg)"

definition make_json_res ::
  "('j, 'k) srv_env \<Rightarrow> bool \<Rightarrow> conn \<Rightarrow> int \<Rightarrow> int \<Rightarrow> string option \<Rightarrow> string option \<Rightarrow> conn"
where
  "make_json_res e strdup_ok ctx taskid type meth msg =
     (case (meth, msg) of
        (Some _, Some m) \<Rightarrow>
          let api = op_api (srv_ops e) in
          (case j_new_object api of
             None \<Rightarrow> make_raw_res e ctx (Some ''Failed to create JSON root object'')
           | Some root \<Rightarrow>
               let root = j_add api root ''type'' (j_new_int api type);
                   root = j_add api root ''taskid'' (j_new_int api taskid);
                   root = j_add api root ''message'' (j_new_string api m)
               in
                 case j_to_string api root of
                   None \<Rightarrow> make_raw_res e ctx (Some ''Failed to serialize JSON'')
                 | Some json_str \<Rightarrow>
                     if \<not> strdup_ok then make_raw_res e ctx (Some ''strdup failed: out of memory'')
                     else fst (send_message_to_client e ctx (Some json_str)))
      | _ \<Rightarrow> ctx)"

definition request_close_client :: "conn \<Rightarrow> conn" where
  "request_close_client ctx = (if closing ctx then ctx else ctx\<lparr>closing := True\<rparr>)"

subsection \<open>Ring buffer logs\<close>

text \<open>
  \<open>handle_log_event\<close> replaces the \<open>resmsg\<close> member of the response and sends it; the result is the
  connection, the response and the return value.
\<close>

definition handle_log_event ::
  "('j, 'k) srv_env \<Rightarrow> conn \<Rightarrow> 'j \<Rightarrow> byte list \<Rightarrow> (conn \<times> 'j \<times> int) outcome"
where
  "handle_log_event e ctx result data =
     (let api = op_api (srv_ops e) in
      if length data \<noteq> EBPF_LOG_SIZE then Ret (ctx, result, -1)
      else
        (case j_new_object api of
           None \<Rightarrow> Undef
         | Some newres \<Rightarrow>
             let newres = j_add api newres ''msg'' (j_new_string api (cstr data));
                 result = j_add api result ''resmsg'' (Some newres)
             in
               case j_to_string api result of
                 Some str \<Rightarrow> Ret (fst (send_message_to_client e ctx (Some str)), result, 0)
               | None \<Rightarrow> Ret (make_err_res e ctx ''Failed to serialize response'', result, 0)))"

text \<open>\<open>ring_buffer__consume\<close> calls the handler on each event until it returns a negative value.\<close>

fun consume_events ::
  "('j, 'k) srv_env \<Rightarrow> conn \<Rightarrow> 'j \<Rightarrow> byte list list \<Rightarrow> (conn \<times> 'j) outcome"
where
  "consume_events e ctx result [] = Ret (ctx, result)"
| "consume_events e ctx result (ev # evs) =
     and_then (handle_log_event e ctx result ev) (\<lambda>(ctx', result', r).
       if r < 0 then Ret (ctx', result') else consume_events e ctx' result' evs)"

text \<open>Lines 238 to 293: the ring buffer of a response that asks for a log.\<close>

definition watch_log :: "('j, 'k) srv_env \<Rightarrow> conn \<Rightarrow> 'j \<Rightarrow> 'j option \<Rightarrow> (conn \<times> 'j) outcome" where
  "watch_log e ctx result resmsg_obj =
     (let api = op_api (srv_ops e);
          logmap_fd =
            (case get_ex api resmsg_obj ''logmap'' of
               Some (Some logmap_obj) \<Rightarrow>
                 if is_type api (Some logmap_obj) TInt then j_get_int api logmap_obj else -1
             | _ \<Rightarrow> -1)
      in
        if \<not> rb_new_ok e logmap_fd then Ret (make_err_res e ctx ''Failed to create ring buffer'', result)
        else
          (case j_new_object api of
             None \<Rightarrow> Undef
           | Some newres \<Rightarrow>
               and_then (consume_events e ctx result (rb_events e)) (\<lambda>(ctx', result').
                 let msg = snprintf_s 64
                       (if rb_consumed e < 0 then ''Consume failed: '' @ show_int (rb_consumed e)
                        else ''Consumed '' @ show_int (rb_consumed e) @ '' events'');
                     result'' = j_add api result' ''resmsg''
                       (Some (j_add api newres ''msg'' (j_new_string api msg)))
                 in Ret (fst (send_message_to_client e ctx' (j_to_string api result'')), result''))))"

text \<open>Lines 218 to 236: the response asks for a log when \<open>resmsg\<close> is an object with \<open>log\<close> 1.\<close>

definition wants_log :: "'j json_api \<Rightarrow> 'j option \<Rightarrow> bool" where
  "wants_log api resmsg_obj \<longleftrightarrow>
     is_type api resmsg_obj TObject \<and>
     (case get_ex api resmsg_obj ''log'' of
        Some (Some watch_obj) \<Rightarrow> is_type api (Some watch_obj) TInt \<and> j_get_int api watch_obj = 1
      | _ \<Rightarrow> False)"

definition handle_log :: "('j, 'k) srv_env \<Rightarrow> conn \<Rightarrow> 'j \<Rightarrow> (conn \<times> 'j) outcome" where
  "handle_log e ctx result =
     (let api = op_api (srv_ops e) in
      if \<not> is_type api (Some result) TObject then Ret (ctx, result)
      else
        case get_ex api (Some result) ''resmsg'' of
          None \<Rightarrow> Ret (ctx, result)
        | Some resmsg_obj \<Rightarrow>
            if wants_log api resmsg_obj then watch_log e ctx result resmsg_obj else Ret (ctx, result))"

subsection \<open>One request\<close>

text \<open>
  The references dropped by \<open>do_one_hard_work\<close>: of the handler's result, and of the response,
  which owns the result once it has been added to it.
\<close>

datatype 'j put = PutResult 'j | PutResp "'j option"

text \<open>The response object, lines 350 to 363 and 375 to 387.\<close>

definition build_response ::
  "'j json_api \<Rightarrow> 'j \<Rightarrow> 'j option \<Rightarrow> 'j option \<Rightarrow> string \<Rightarrow> 'j option \<Rightarrow> 'j"
where
  "build_response api resp type_obj taskid_obj method_str result =
     (let resp = j_add api resp ''jsonrpc'' (j_new_string api ''2.0'');
          resp = (if type_obj \<noteq> None then j_add api resp ''type'' type_obj else resp);
          resp = (if taskid_obj \<noteq> None then j_add api resp ''taskid'' taskid_obj else resp);
          resp = j_add api resp ''method'' (j_new_string api method_str)
      in j_add api resp ''resmsg'' result)"

definition opt_member :: "'j json_api \<Rightarrow> 'j \<Rightarrow> string \<Rightarrow> 'j option" where
  "opt_member api req k = (case get_ex api (Some req) k of None \<Rightarrow> None | Some v \<Rightarrow> v)"

text \<open>
  From the handler's return to the end (lines 349 to 413): on failure the response is sent and
  control goes to \<open>error\<close> with \<open>ops_fn_result\<close> still set; on success the pointer is cleared.
\<close>

definition finish_request ::
  "('j, 'k) srv_env \<Rightarrow> daemon \<Rightarrow> conn \<Rightarrow> 'j \<Rightarrow> 'j option \<Rightarrow> int \<Rightarrow> (daemon \<times> conn \<times> 'j put list \<times> int) outcome"
where
  "finish_request e d ctx resp result ret =
     (let api = op_api (srv_ops e) in
      if ret \<noteq> 0 then
        let resp_str = j_to_string api resp;
            ctx = (if resp_str = None then make_err_res e ctx ''Failed to serialize response'' else ctx);
            ctx = fst (send_message_to_client e ctx resp_str)
        in Ret (d, ctx, (case result of Some r \<Rightarrow> [PutResult r] | None \<Rightarrow> []) @ [PutResp result], -1)
      else
        let ctx =
              (case j_to_string api resp of
                 Some resp_str \<Rightarrow> fst (send_message_to_client e ctx (Some resp_str))
               | None \<Rightarrow> make_err_res e ctx ''Failed to serialize response'')
        in and_then (handle_log e ctx resp) (\<lambda>(ctx', _). Ret (d, ctx', [PutResp result], 0)))"

definition do_one_hard_work ::
  "('j, 'k) srv_env \<Rightarrow> daemon \<Rightarrow> conn \<Rightarrow> 'j \<Rightarrow> (daemon \<times> conn \<times> 'j put list \<times> int) outcome option"
where
  "do_one_hard_work e d ctx req =
     (let api = op_api (srv_ops e) in
      case get_ex api (Some req) ''jsonrpc'' of
        None \<Rightarrow> Some (Ret (d, make_err_res e ctx ''Invalid Request: missing jsonrpc field'', [], -1))
      | Some _ \<Rightarrow>
          (case opt_member api req ''method'' of
             None \<Rightarrow> Some (Ret (d, make_err_res e ctx ''Invalid Request: invalid or missing method'', [], -1))
           | Some method_obj \<Rightarrow>
               if \<not> is_type api (Some method_obj) TString
               then Some (Ret (d, make_err_res e ctx ''Invalid Request: invalid or missing method'', [], -1))
               else
                 (case j_get_string api method_obj of
                    None \<Rightarrow> Some Undef
                  | Some method_str \<Rightarrow>
                      let taskid_obj = opt_member api req ''taskid'';
                          type_obj = opt_member api req ''type'';
                          data_obj = opt_member api req ''reqmsg''
                      in
                        run_then (Some (find_method (srv_methods e) method_str)) (\<lambda>fn.
                          case fn of
                            None \<Rightarrow> Some (Ret (d, make_err_res e ctx ''Invalid argument, Method not found'', [], -1))
                          | Some (ops_fn, _) \<Rightarrow>
                              (case j_new_object api of
                                 None \<Rightarrow> Some (Ret (d, make_err_res e ctx ''Failed to allocate response object'', [], -1))
                               | Some resp \<Rightarrow>
                                   run_then (run_op (srv_ops e) ops_fn d data_obj) (\<lambda>(d', result, ret).
                                     Some (finish_request e d' ctx
                                       (build_response api resp type_obj taskid_obj method_str result) result ret)))))))"

definition do_per_request :: "(nat \<Rightarrow> ('j, 'k) srv_env) \<Rightarrow> srv \<Rightarrow> string \<Rightarrow> srv outcome option" where
  "do_per_request env s client_msg =
     (let e = env (served s); s = s\<lparr>served := Suc (served s)\<rparr>; api = op_api (srv_ops e) in
      if client_msg = [] then Some (Ret s)
      else if length client_msg > 1024 then Some (Ret s)
      else
        case j_parse api client_msg of
          None \<Rightarrow> Some (Ret (s\<lparr>sconn := fst (send_message_to_client e (sconn s) (Some ''Parse error: invalid JSON''))\<rparr>))
        | Some jreq \<Rightarrow>
            if is_type api (Some jreq) TObject then
              run_then (do_one_hard_work e (sdaemon s) (sconn s) jreq) (\<lambda>(d', ctx', _, _).
                Some (Ret (s\<lparr>sdaemon := d', sconn := request_close_client ctx'\<rparr>)))
            else
              Some (Ret (s\<lparr>sconn := request_close_client
                (fst (send_message_to_client e (sconn s) (Some ''Invalid Request: expected JSON object'')))\<rparr>)))"

subsection \<open>Reading\<close>

text \<open>The loop over the complete lines of the buffer: the state after them and what is left.\<close>

function process_lines ::
  "(nat \<Rightarrow> ('j, 'k) srv_env) \<Rightarrow> srv \<Rightarrow> byte list \<Rightarrow> (srv \<times> byte list) outcome option"
where
  "process_lines env s start =
     (if NL \<in> set start then
        let line = takeWhile (\<lambda>c. c \<noteq> NL) start in
        run_then (do_per_request env s (cstr line)) (\<lambda>s'.
          process_lines env s' (drop (length line + 1) start))
      else Some (Ret (s, start)))"
  by pat_completeness auto

termination
  by (relation "measure (\<lambda>(env, s, start). length start)") (auto intro!: diff_less dest: length_pos_if_in_set)

declare process_lines.simps [simp del]

datatype read_result = ReadData "byte list" | ReadNothing | ReadEof | ReadError

definition on_client_read ::
  "(nat \<Rightarrow> ('j, 'k) srv_env) \<Rightarrow> bool \<Rightarrow> srv \<Rightarrow> read_result \<Rightarrow> srv outcome option"
where
  "on_client_read env realloc_ok s nread =
     (case nread of
        ReadData data \<Rightarrow>
          if \<not> realloc_ok then Some (Ret (s\<lparr>sconn := request_close_client (sconn s)\<rparr>))
          else
            let buf = recv_buffer (sconn s) @ data;
                s = s\<lparr>sconn := (sconn s)\<lparr>recv_buffer := buf\<rparr>\<rparr>
            in
              run_then (process_lines env s buf) (\<lambda>(s', remaining).
                Some (Ret (s'\<lparr>sconn := (sconn s')\<lparr>recv_buffer := remaining\<rparr>\<rparr>)))
      | _ \<Rightarrow> Some (Ret (s\<lparr>sconn := request_close_client (sconn s)\<rparr>)))"

text \<open>libuv delivers chunks until the stream is closed.\<close>

fun feed :: "(nat \<Rightarrow> ('j, 'k) srv_env) \<Rightarrow> srv \<Rightarrow> byte list list \<Rightarrow> srv outcome option" where
  "feed env s [] = Some (Ret s)"
| "feed env s (c # cs) =
     (if closing (sconn s) then Some (Ret s)
      else run_then (on_client_read env True s (ReadData c)) (\<lambda>s'. feed env s' cs))"

text \<open>
  \<open>start_uv_server\<close> up to \<open>uv_run\<close>: where the server listens, or the return value -1.  The
  parameters answer for libuv: \<open>uv_pipe_bind\<close>, \<open>uv_ip4_addr\<close>, \<open>uv_tcp_bind\<close>, \<open>uv_listen\<close>.
\<close>

datatype endpoint = UnixPath string | Tcp4 string int

record uv_answers =
  pipe_bind_ok :: "string \<Rightarrow> bool"
  ip4_addr_ok :: "string \<Rightarrow> int \<Rightarrow> bool"
  tcp_bind_ok :: bool
  listen_ok :: bool
  addr_strdup_ok :: bool

definition start_uv_server ::
  "uv_answers \<Rightarrow> string \<Rightarrow> cleanup_fn cleanup_task list \<Rightarrow> endpoint option \<times> cleanup_fn cleanup_task list"
where
  "start_uv_server uv listen_addr tasks =
     (if strncmp_eq listen_addr ''unix://'' 7 then
        let path = drop 7 listen_addr in
        if pipe_bind_ok uv path \<and> listen_ok uv
        then (Some (UnixPath path), fst (register_cleanup (Some CleanSock) (Some ''clean_unix_socket'') tasks))
        else (None, tasks)
      else if \<not> addr_strdup_ok uv then (None, tasks)
      else
        (case strrchr listen_addr (CHR '':'') of
           None \<Rightarrow> (None, tasks)
         | Some colon \<Rightarrow>
             let host = take (length listen_addr - length colon) listen_addr;
                 port = atoi (tl colon)
             in
               if port \<le> 0 \<or> port > 65535 then (None, tasks)
               else if ip4_addr_ok uv host port \<and> tcp_bind_ok uv \<and> listen_ok uv
               then (Some (Tcp4 host port), tasks) else (None, tasks)))"

text \<open>\<open>on_new_connection\<close>: the context of an accepted client.\<close>

datatype stream_type = UvTcp | UvPipe | UvOther

definition on_new_connection :: "int \<Rightarrow> bool \<Rightarrow> stream_type \<Rightarrow> bool \<Rightarrow> conn option" where
  "on_new_connection status calloc_ok type accept_ok =
     (if status < 0 then None
      else if \<not> calloc_ok then None
      else if type = UvOther then None
      else if \<not> accept_ok then None
      else Some \<lparr>recv_buffer = [], outbox = [], closing = False\<rparr>)"

subsection \<open>Framing\<close>

lemma process_lines_none: "NL \<notin> set b \<Longrightarrow> process_lines env s b = Some (Ret (s, b))"
  by (subst process_lines.simps) simp

lemma takeWhile_line: "NL \<notin> set l \<Longrightarrow> takeWhile (\<lambda>c. c \<noteq> NL) (l @ NL # r) = l"
  by (induction l) auto

lemma process_lines_line:
  assumes "NL \<notin> set l"
  shows "process_lines env s (l @ NL # r) =
     run_then (do_per_request env s (cstr l)) (\<lambda>s'. process_lines env s' r)"
  unfolding process_lines.simps [of env s "l @ NL # r"] Let_def takeWhile_line [OF assms] by simp

lemma split_at_NL: "NL \<in> set b \<Longrightarrow> \<exists>l r. b = l @ NL # r \<and> NL \<notin> set l"
  by (meson split_list_first)

lemma run_then_assoc: "run_then (run_then m f) g = run_then m (\<lambda>x. run_then (f x) g)"
  by (auto simp: run_then_def split: option.splits outcome.splits)

lemma process_lines_append:
  "process_lines env s (a @ b) = run_then (process_lines env s a) (\<lambda>(s', r). process_lines env s' (r @ b))"
proof (induction "length a" arbitrary: a s rule: less_induct)
  case less
  show ?case
  proof (cases "NL \<in> set a")
    case False
    then show ?thesis by (simp add: process_lines_none)
  next
    case True
    then obtain l r where a: "a = l @ NL # r" and l: "NL \<notin> set l" using split_at_NL by blast
    then have "length r < length a" by simp
    then show ?thesis using less [of r] l by (simp add: a process_lines_line run_then_assoc)
  qed
qed

lemma process_lines_rest: "process_lines env s b = Some (Ret (s', r)) \<Longrightarrow> NL \<notin> set r"
proof (induction "length b" arbitrary: b s rule: less_induct)
  case less
  show ?case
  proof (cases "NL \<in> set b")
    case False
    then show ?thesis using less.prems by (simp add: process_lines_none)
  next
    case True
    then obtain l q where b: "b = l @ NL # q" and l: "NL \<notin> set l" using split_at_NL by blast
    with less.prems obtain s1 where "process_lines env s1 q = Some (Ret (s', r))"
      by (auto simp: process_lines_line run_then_Ret)
    then show ?thesis using less.hyps [of q] b by simp
  qed
qed

lemma feed_partial:
  assumes "\<not> closing (sconn s)" and "NL \<notin> set (recv_buffer (sconn s) @ c)"
  shows "on_client_read env True s (ReadData c) =
    Some (Ret (s\<lparr>sconn := (sconn s)\<lparr>recv_buffer := recv_buffer (sconn s) @ c\<rparr>\<rparr>))"
  using assms by (simp add: on_client_read_def process_lines_none)

text \<open>
  C7.  Framing does not depend on how the stream is cut: a request line delivered in any
  number of chunks, the last one ending in its newline, is handled exactly as if it arrived in
  one piece, and handled once.
\<close>

theorem request_framing_chunk_independent:
  assumes "\<not> closing (sconn s)" and "recv_buffer (sconn s) = []"
    and "concat cs @ c = line @ [NL]" and "NL \<notin> set line" and "NL \<notin> set (concat cs)"
  shows "feed env s (cs @ [c]) = on_client_read env True s (ReadData (line @ [NL]))"
proof -
  have part: "feed env (s\<lparr>sconn := (sconn s)\<lparr>recv_buffer := b\<rparr>\<rparr>) (cs @ [c]) =
      on_client_read env True (s\<lparr>sconn := (sconn s)\<lparr>recv_buffer := b @ concat cs\<rparr>\<rparr>) (ReadData c)"
    if "NL \<notin> set (b @ concat cs)" for b cs
    using that assms(1)
  proof (induction cs arbitrary: b)
    case Nil
    then show ?case
      by (cases "on_client_read env True (s\<lparr>sconn := (sconn s)\<lparr>recv_buffer := b\<rparr>\<rparr>) (ReadData c)")
         (auto simp: run_then_def split: outcome.splits)
  next
    case (Cons c1 cs)
    let ?s = "s\<lparr>sconn := (sconn s)\<lparr>recv_buffer := b\<rparr>\<rparr>"
    have "on_client_read env True ?s (ReadData c1) = Some (Ret (s\<lparr>sconn := (sconn s)\<lparr>recv_buffer := b @ c1\<rparr>\<rparr>))"
      using feed_partial [of ?s c1 env] Cons.prems by simp
    then show ?case using Cons.IH [of "b @ c1"] Cons.prems by simp
  qed
  have "s\<lparr>sconn := (sconn s)\<lparr>recv_buffer := []\<rparr>\<rparr> = s" using assms(2) by (cases s) (auto simp: conn.defs)
  then have "feed env s (cs @ [c]) =
      on_client_read env True (s\<lparr>sconn := (sconn s)\<lparr>recv_buffer := concat cs\<rparr>\<rparr>) (ReadData c)"
    using part [of "[]" cs] assms(5) by simp
  also have "\<dots> = on_client_read env True s (ReadData (line @ [NL]))"
    using assms(2,3) by (simp add: on_client_read_def)
  finally show ?thesis .
qed

subsection \<open>Replies\<close>

lemma send_outbox: "\<exists>more. outbox (fst (send_message_to_client e ctx m)) = outbox ctx @ more"
  by (auto simp: send_message_to_client_def split: option.splits)

lemma send_closing [simp]: "closing (fst (send_message_to_client e ctx m)) = closing ctx"
  by (auto simp: send_message_to_client_def split: option.splits)

lemma send_closed: "closing ctx \<Longrightarrow> fst (send_message_to_client e ctx m) = ctx"
  by (auto simp: send_message_to_client_def split: option.splits)

lemma err_outbox: "\<exists>more. outbox (make_err_res e ctx m) = outbox ctx @ more"
  using send_outbox by (auto simp: make_err_res_def make_raw_res_def)

lemma err_closed [simp]: "closing (make_err_res e ctx m) = closing ctx" "closing ctx \<Longrightarrow> make_err_res e ctx m = ctx"
  by (auto simp: make_err_res_def make_raw_res_def send_closed)

text \<open>What every sender keeps of a connection: it only appends, and never on a closed one.\<close>

definition conn_grows :: "conn \<Rightarrow> conn \<Rightarrow> bool" where
  "conn_grows c c' \<longleftrightarrow>
     (\<exists>more. outbox c' = outbox c @ more) \<and> closing c' = closing c \<and> (closing c \<longrightarrow> c' = c)"

lemma conn_grows_refl [simp]: "conn_grows c c"
  by (simp add: conn_grows_def)

lemma conn_grows_trans: "conn_grows a b \<Longrightarrow> conn_grows b c \<Longrightarrow> conn_grows a c"
  by (auto simp: conn_grows_def)

lemma send_grows [simp]: "conn_grows ctx (fst (send_message_to_client e ctx m))"
  using send_outbox by (simp add: conn_grows_def send_closed)

lemma err_grows [simp]: "conn_grows ctx (make_err_res e ctx m)"
  using err_outbox by (simp add: conn_grows_def)

lemma log_event_grows:
  "handle_log_event e ctx r ev = Ret (ctx', r', k) \<Longrightarrow> conn_grows ctx ctx'"
  by (auto simp: handle_log_event_def Let_def split: option.splits if_splits)

lemma consume_grows: "consume_events e ctx r evs = Ret (ctx', r') \<Longrightarrow> conn_grows ctx ctx'"
proof (induction evs arbitrary: ctx r)
  case (Cons ev evs)
  then obtain c1 r1 k where ev: "handle_log_event e ctx r ev = Ret (c1, r1, k)"
    and rest: "(c1 = ctx' \<and> r1 = r') \<or> consume_events e c1 r1 evs = Ret (ctx', r')"
    by (auto simp: and_then_Ret split: if_splits)
  from log_event_grows [OF ev] rest Cons.IH [of c1 r1] show ?case
    by (auto intro: conn_grows_trans)
qed simp

lemma watch_log_grows:
  assumes "watch_log e ctx r q = Ret (ctx', r')"
  shows "conn_grows ctx ctx'"
proof (cases "ctx' = make_err_res e ctx ''Failed to create ring buffer''")
  case False
  with assms obtain c1 r1 m where "consume_events e ctx r (rb_events e) = Ret (c1, r1)"
    and "ctx' = fst (send_message_to_client e c1 m)"
    by (auto simp: watch_log_def Let_def and_then_Ret split: if_splits option.splits)
  then show ?thesis using consume_grows conn_grows_trans send_grows by metis
qed simp

lemma handle_log_conn: "handle_log e ctx r = Ret (ctx', r') \<Longrightarrow> conn_grows ctx ctx'"
  by (auto simp: handle_log_def Let_def dest: watch_log_grows split: if_splits option.splits)

lemma build_response_members:
  assumes api: "json_members api" and ob: "j_new_object api = Some ob"
  shows "j_get api (build_response api ob ty tid m result) ''method'' = Some (j_new_string api m)"
    and "j_get api (build_response api ob ty tid m result) ''resmsg'' = Some result"
    and "j_get api (build_response api ob ty tid m result) ''taskid'' = (if tid = None then None else Some tid)"
    and "j_get api (build_response api ob ty tid m result) ''type'' = (if ty = None then None else Some ty)"
    and "j_get api (build_response api ob ty tid m result) ''jsonrpc'' = Some (j_new_string api ''2.0'')"
  using json_members_add [OF api] json_members_new [OF api ob]
  by (auto simp: build_response_def Let_def)

text \<open>The response a request gets: a well-formed request for a registered method.\<close>

definition valid_request :: "('j, 'k) srv_env \<Rightarrow> 'j \<Rightarrow> string \<Rightarrow> op \<Rightarrow> bool" where
  "valid_request e req m fn \<longleftrightarrow>
     (let api = op_api (srv_ops e) in
      get_ex api (Some req) ''jsonrpc'' \<noteq> None \<and>
      (\<exists>mo. opt_member api req ''method'' = Some mo \<and> is_type api (Some mo) TString \<and> j_get_string api mo = Some m) \<and>
      find_method (srv_methods e) m = Ret (Some (fn, ())))"

definition can_send :: "('j, 'k) srv_env \<Rightarrow> conn \<Rightarrow> bool" where
  "can_send e ctx \<longleftrightarrow> uv_writable e \<and> asprintf_ok e \<and> wreq_ok e \<and> uv_write_ok e \<and> \<not> closing ctx"

lemma send_ok: "can_send e ctx \<Longrightarrow> m \<noteq> [] \<Longrightarrow>
    fst (send_message_to_client e ctx (Some m)) = ctx\<lparr>outbox := outbox ctx @ [m @ [NL]]\<rparr>"
  by (simp add: can_send_def send_message_to_client_def)

text \<open>
  C8.  A well-formed request for a registered method whose handler returns is answered: the
  first message written is the serialised response, which carries the method name, the task
  id and type of the request, and the handler's result, whether the handler reports success
  or failure; the daemon is left as the handler left it.
\<close>

theorem request_is_answered:
  assumes "json_members (op_api (srv_ops e))" and "j_new_object (op_api (srv_ops e)) = Some ob"
    and "valid_request e req m fn"
    and "run_op (srv_ops e) fn d (opt_member (op_api (srv_ops e)) req ''reqmsg'') = Some (Ret (d', result, ret))"
    and "resp = build_response (op_api (srv_ops e)) ob (opt_member (op_api (srv_ops e)) req ''type'')
           (opt_member (op_api (srv_ops e)) req ''taskid'') m result"
    and "j_to_string (op_api (srv_ops e)) resp = Some str" and "str \<noteq> []" and "can_send e ctx"
    and "do_one_hard_work e d ctx req = Some (Ret (d'', ctx', puts, r))"
  shows "d'' = d' \<and> r = (if ret = 0 then 0 else -1) \<and>
    (\<exists>more. outbox ctx' = outbox ctx @ [str @ [NL]] @ more) \<and>
    j_get (op_api (srv_ops e)) resp ''method'' = Some (j_new_string (op_api (srv_ops e)) m) \<and>
    j_get (op_api (srv_ops e)) resp ''resmsg'' = Some result \<and>
    j_get (op_api (srv_ops e)) resp ''taskid'' =
      (let t = opt_member (op_api (srv_ops e)) req ''taskid'' in if t = None then None else Some t)"
proof -
  let ?api = "op_api (srv_ops e)"
  have members: "j_get ?api resp ''method'' = Some (j_new_string ?api m)" "j_get ?api resp ''resmsg'' = Some result"
    "j_get ?api resp ''taskid'' =
      (if opt_member ?api req ''taskid'' = None then None else Some (opt_member ?api req ''taskid''))"
    unfolding assms(5) by (rule build_response_members [OF assms(1,2)])+
  obtain mo where v: "get_ex ?api (Some req) ''jsonrpc'' \<noteq> None" "opt_member ?api req ''method'' = Some mo"
    "is_type ?api (Some mo) TString" "j_get_string ?api mo = Some m" "find_method (srv_methods e) m = Ret (Some (fn, ()))"
    using assms(3) by (auto simp: valid_request_def Let_def)
  note sent = send_ok [OF assms(8,7)]
  have fin: "finish_request e d' ctx resp result ret = Ret (d'', ctx', puts, r)"
    using assms(2,4,5,9) v by (auto simp: do_one_hard_work_def Let_def)
  show ?thesis
  proof (cases "ret = 0")
    case False
    then have "ctx' = ctx\<lparr>outbox := outbox ctx @ [str @ [NL]]\<rparr> \<and> d'' = d' \<and> r = -1"
      using fin assms(6) sent by (simp add: finish_request_def Let_def)
    then show ?thesis using False members by (simp add: Let_def)
  next
    case True
    with fin assms(6) sent obtain r' where
      l: "handle_log e (ctx\<lparr>outbox := outbox ctx @ [str @ [NL]]\<rparr>) resp = Ret (ctx', r')"
      and d: "d'' = d'" "r = 0"
      by (auto simp: finish_request_def Let_def and_then_Ret)
    then obtain more where "outbox ctx' = outbox ctx @ [str @ [NL]] @ more"
      using handle_log_conn [OF l] by (auto simp: conn_grows_def)
    then show ?thesis using d True members by (simp add: Let_def)
  qed
qed

text \<open>
  When a handler fails and still hands back a result object, that object is released
  twice: once itself, and once more with the response that already owns it.
\<close>

lemma failed_handler_result_released_twice:
  assumes "valid_request e req m fn" and "j_new_object (op_api (srv_ops e)) = Some ob"
    and "run_op (srv_ops e) fn d (opt_member (op_api (srv_ops e)) req ''reqmsg'') = Some (Ret (d', Some result, ret))"
    and "ret \<noteq> 0"
  shows "\<exists>ctx'. do_one_hard_work e d ctx req = Some (Ret (d', ctx', [PutResult result, PutResp (Some result)], -1))"
  using assms by (auto simp: valid_request_def do_one_hard_work_def finish_request_def Let_def)

lemma finish_closed:
  assumes "finish_request e d ctx resp result ret = Ret (d', ctx', puts, r)" and "closing ctx"
  shows "ctx' = ctx"
proof -
  have c: "make_err_res e ctx m = ctx" "fst (send_message_to_client e ctx m') = ctx" for m m'
    using assms(2) by (simp_all add: send_closed)
  show ?thesis
  proof (cases "ret = 0")
    case True
    then obtain r' where "handle_log e ctx resp = Ret (ctx', r')"
      using assms(1) c by (auto simp: finish_request_def Let_def and_then_Ret split: option.splits)
    from handle_log_conn [OF this] assms(2) show ?thesis by (simp add: conn_grows_def)
  next
    case False
    then show ?thesis using assms(1) c by (auto simp: finish_request_def Let_def split: if_splits)
  qed
qed

lemma hard_work_closed:
  assumes "do_one_hard_work e d ctx req = Some (Ret (d', ctx', puts, r))" and "closing ctx"
  shows "ctx' = ctx"
proof -
  let ?api = "op_api (srv_ops e)"
  have c: "make_err_res e ctx m = ctx" for m using assms(2) by simp
  consider "ctx' = ctx" | d1 resp result ret where "finish_request e d1 ctx resp result ret = Ret (d', ctx', puts, r)"
  proof (cases "get_ex ?api (Some req) ''jsonrpc''")
    case None
    then show thesis using that(1) assms(1) c by (auto simp: do_one_hard_work_def Let_def)
  next
    case j: (Some j)
    show thesis
    proof (cases "opt_member ?api req ''method''")
      case None
      then show thesis using that(1) assms(1) c j by (auto simp: do_one_hard_work_def Let_def)
    next
      case mo: (Some mo)
      show thesis
      proof (cases "is_type ?api (Some mo) TString")
        case False
        then show thesis using that(1) assms(1) c j mo by (auto simp: do_one_hard_work_def Let_def)
      next
        case True
        then obtain m where m: "j_get_string ?api mo = Some m"
          using assms(1) j mo by (auto simp: do_one_hard_work_def Let_def split: option.splits)
        then obtain fn where fn: "find_method (srv_methods e) m = Ret fn"
          using assms(1) j mo True by (auto simp: do_one_hard_work_def Let_def run_then_Ret)
        show thesis
        proof (cases fn)
          case None
          then show thesis using that(1) assms(1) c j mo True m fn by (auto simp: do_one_hard_work_def Let_def)
        next
          case (Some f)
          note known = j mo True m fn Some
          show thesis
          proof (cases "j_new_object ?api")
            case None
            then show thesis using that(1) assms(1) c known
              by (auto simp: do_one_hard_work_def Let_def split: prod.splits)
          next
            case (Some ob)
            then show thesis using that(2) assms(1) known
              by (auto simp: do_one_hard_work_def Let_def run_then_Ret split: prod.splits)
          qed
        qed
      qed
    qed
  qed
  then show ?thesis using finish_closed assms(2) by cases blast+
qed


text \<open>
  C17.  The listen address of the configuration is taken apart correctly: for a host and a
  port between 1 and 65535, ``host:port'' makes the server listen on exactly that host and
  port, and no address ever makes it listen on a port outside that range.
\<close>

theorem listen_address_parsed:
  assumes "0 < port" and "port \<le> 65535" and "\<not> strncmp_eq (host @ '':'' @ show_int port) ''unix://'' 7"
    and "addr_strdup_ok uv" and "ip4_addr_ok uv host port" and "tcp_bind_ok uv" and "listen_ok uv"
  shows "start_uv_server uv (host @ '':'' @ show_int port) tasks = (Some (Tcp4 host port), tasks) \<and>
    (\<forall>addr h p. fst (start_uv_server uv addr tasks) = Some (Tcp4 h p) \<longrightarrow> 0 < p \<and> p \<le> 65535)"
proof
  have "CHR '':'' \<notin> set (show_int port)"
    using show_int_chars [of "CHR '':''" port] by (auto simp: isdigit_def)
  then have "strrchr (host @ '':'' @ show_int port) (CHR '':'') = Some ('':'' @ show_int port)"
    using strrchr_last [of "CHR '':''" "show_int port" host] by simp
  moreover have "int32 port" using assms(1,2) by (simp add: int32_def)
  ultimately show "start_uv_server uv (host @ '':'' @ show_int port) tasks = (Some (Tcp4 host port), tasks)"
    using assms by (simp add: start_uv_server_def)
  show "\<forall>addr h p. fst (start_uv_server uv addr tasks) = Some (Tcp4 h p) \<longrightarrow> 0 < p \<and> p \<le> 65535"
    by (auto simp: start_uv_server_def Let_def split: if_splits option.splits)
qed

subsection \<open>A sample server\<close>

definition sample_request :: "string \<Rightarrow> jv" where
  "sample_request m =
     JObj [(''jsonrpc'', Some (JStr ''6.0'')), (''method'', Some (JStr m)), (''taskid'', Some (JInt 4)),
           (''reqmsg'', Some (JObj [(''params'', Some (JStr ''net init''))]))]"

definition sample_parse :: "string \<Rightarrow> jv option" where
  "sample_parse s =
     (if s = ''M'' then Some (sample_request ''mod'') else if s = ''L'' then Some (sample_request ''lsmod'') else None)"

definition sample_srv_env :: "jv json_api \<Rightarrow> (jv, nat) srv_env" where
  "sample_srv_env api =
     \<lparr>srv_ops = sample_ops_env\<lparr>op_api := api\<rparr>, srv_methods = daemon_methods, uv_writable = True,
      asprintf_ok = True, wreq_ok = True, uv_write_ok = True, rb_new_ok = (\<lambda>_. True), rb_events = [],
      rb_consumed = 0\<rparr>"

definition sample_srv :: "bool \<Rightarrow> srv" where
  "sample_srv cl =
     \<lparr>sdaemon = sample_net_daemon, sconn = \<lparr>recv_buffer = [], outbox = [], closing = cl\<rparr>, served = 0\<rparr>"

theorem request_framing_chunk_independent_witness:
  "feed (\<lambda>_. sample_srv_env (sample_api sample_parse)) (sample_srv False) [''M'', [NL]] =
   on_client_read (\<lambda>_. sample_srv_env (sample_api sample_parse)) True (sample_srv False) (ReadData [CHR ''M'', NL])"
  using request_framing_chunk_independent [of "sample_srv False" "[''M'']" "[NL]" "''M''"
      "\<lambda>_. sample_srv_env (sample_api sample_parse)"]
  by (simp add: sample_srv_def)

lemma sample_valid:
  "valid_request (sample_srv_env (sample_api sample_parse)) (sample_request ''mod'') ''mod'' OpMod"
  "valid_request (sample_srv_env ((sample_api sample_parse)\<lparr>j_new_array := None\<rparr>)) (sample_request ''lsmod'') ''lsmod'' OpLsmod"
proof -
  have m: "find_method daemon_methods ''mod'' = Ret (Some (OpMod, ()))"
    "find_method daemon_methods ''lsmod'' = Ret (Some (OpLsmod, ()))"
    by code_simp+
  show "valid_request (sample_srv_env (sample_api sample_parse)) (sample_request ''mod'') ''mod'' OpMod"
    "valid_request (sample_srv_env ((sample_api sample_parse)\<lparr>j_new_array := None\<rparr>)) (sample_request ''lsmod'') ''lsmod'' OpLsmod"
    using m by (simp_all add: valid_request_def sample_srv_env_def sample_ops_env_def sample_api_def
        sample_request_def get_ex_def opt_member_def is_type_def)
qed

theorem request_is_answered_witness:
  "\<exists>d' ctx' puts. do_one_hard_work (sample_srv_env (sample_api sample_parse)) sample_net_daemon
       \<lparr>recv_buffer = [], outbox = [], closing = False\<rparr> (sample_request ''mod'') = Some (Ret (d', ctx', puts, 0)) \<and>
     take 1 (outbox ctx') = [''json'' @ [NL]]"
proof -
  let ?e = "sample_srv_env (sample_api sample_parse)" and ?c = "\<lparr>recv_buffer = [], outbox = [], closing = False\<rparr>"
  let ?req = "sample_request ''mod''" and ?api = "sample_api sample_parse"
  have api: "op_api (srv_ops ?e) = ?api" by (simp add: sample_srv_env_def)
  have "case run_op (srv_ops ?e) OpMod sample_net_daemon (opt_member ?api ?req ''reqmsg'') of
      Some (Ret (d', r, ret)) \<Rightarrow> ret = 0 | _ \<Rightarrow> False"
    by code_simp
  then obtain d' r where run: "run_op (srv_ops ?e) OpMod sample_net_daemon
      (opt_member (op_api (srv_ops ?e)) ?req ''reqmsg'') = Some (Ret (d', r, 0))"
    by (auto simp: api split: option.splits outcome.splits prod.splits)
  have "case do_one_hard_work ?e sample_net_daemon ?c ?req of Some (Ret (d', c', ps, rc)) \<Rightarrow> True | _ \<Rightarrow> False"
    by code_simp
  then obtain d2 c2 ps rc where w: "do_one_hard_work ?e sample_net_daemon ?c ?req = Some (Ret (d2, c2, ps, rc))"
    by (auto split: option.splits outcome.splits prod.splits)
  have "json_members (op_api (srv_ops ?e))" "j_new_object (op_api (srv_ops ?e)) = Some (JObj [])"
    "\<And>x. j_to_string (op_api (srv_ops ?e)) x = Some ''json''" "can_send ?e ?c"
    using sample_api_members by (simp_all add: api, simp_all add: sample_api_def can_send_def sample_srv_env_def)
  from request_is_answered [OF this(1,2) sample_valid(1) run refl this(3) _ this(4) w] w show ?thesis by auto
qed


theorem listen_address_parsed_witness:
  "start_uv_server \<lparr>pipe_bind_ok = (\<lambda>_. True), ip4_addr_ok = (\<lambda>_ _. True), tcp_bind_ok = True, listen_ok = True,
     addr_strdup_ok = True\<rparr> (''0.0.0.0'' @ '':'' @ show_int 80) [] = (Some (Tcp4 ''0.0.0.0'' 80), [])"
proof -
  have "\<not> strncmp_eq (''0.0.0.0'' @ '':'' @ show_int 80) ''unix://'' 7" by (simp add: strncmp_eq_def)
  from listen_address_parsed [OF _ _ this, of "\<lparr>pipe_bind_ok = (\<lambda>_. True), ip4_addr_ok = (\<lambda>_ _. True),
      tcp_bind_ok = True, listen_ok = True, addr_strdup_ok = True\<rparr>" "[]"]
  show ?thesis by simp
qed

end
