(* ===== verification/Spec2Isabelle.thy ===== *)
theory Spec2Isabelle
  imports Binding Dispatch FileTransfer Pool Server
begin

text \<open>
  ctforge: a model of the payload daemon and of its agent.

  Layout.  \<open>CPrelude\<close> holds C strings and integers, \<open>Interfaces\<close> the contracts between the
  parts, and one theory models each component.
\<close>

end
